(* ===== verification/Prelude.thy ===== *)
theory Prelude
  imports Main "HOL-Library.Word" "HOL-Library.Monad_Syntax"
begin

unbundle bit_operations_syntax

text \<open>
  What every component shares: the machine integers and strings of the Rust code, its panics,
  its slice and index operations, the byte order conversions, the integer formatting of
  \<open>format!\<close>, and the \<open>ParseError\<close> of \<open>netzer-core/src/error.rs\<close>.

  \<^item> \<open>u8\<close>, \<open>u16\<close>, \<open>u32\<close>, \<open>u64\<close> are words of that width. A \<open>usize\<close> is a
    \<open>nat\<close>: every \<open>usize\<close> of the code is an offset into a buffer plus at most a few
    sixteen-bit lengths, far below the \<open>2 ^ 64\<close> of the targets.
  \<^item> A Rust string (\<open>&str\<close>, \<open>String\<close>) is the list of its UTF-8 bytes; \<open>lit\<close> turns an
    ASCII literal into one.
  \<^item> A panic (an index or a slice out of range) is the value \<open>None\<close> of a computation of
    type \<open>'a option\<close>, sequenced with the do-notation of the option monad; a \<open>Result\<close> of
    the code is a sum inside it: \<open>Some (Inl e)\<close> is \<open>Err e\<close>, \<open>Some (Inr v)\<close> is \<open>Ok v\<close>.
\<close>

section \<open>Lists\<close>

lemma find_append: "find P (xs @ ys) = (case find P xs of None \<Rightarrow> find P ys | Some x \<Rightarrow> Some x)"
  by (induction xs) auto

section \<open>Types\<close>

type_synonym u8 = "8 word"
type_synonym u16 = "16 word"
type_synonym u32 = "32 word"
type_synonym u64 = "64 word"
type_synonym rstr = "u8 list"

datatype ParseError = BufferTooShort | InvalidFormat

type_synonym 'a parse_result = "(ParseError + 'a) option"

text \<open>The facts that evaluate the Rust primitives, and those that say when they do not panic.\<close>

named_theorems rust_simps
named_theorems no_panic

section \<open>Literals and the Display of errors\<close>

definition lit :: "string \<Rightarrow> rstr" where
  "lit s = map of_char s"

declare lit_def [rust_simps]

lemma length_lit [simp]: "length (lit s) = length s"
  by (simp add: lit_def)

lemma lit_Nil [simp]: "lit [] = []"
  by (simp add: lit_def)

fun display_ParseError :: "ParseError \<Rightarrow> rstr" where
  "display_ParseError BufferTooShort = lit ''buffer is too short to parse the header''"
| "display_ParseError InvalidFormat = lit ''invalid header format''"

definition ascii_lower :: "u8 \<Rightarrow> u8" where
  "ascii_lower b = (if 65 \<le> unat b \<and> unat b \<le> 90 then b + 32 else b)"

section \<open>Slices and indices, which panic out of range\<close>

definition rs_index :: "'a list \<Rightarrow> nat \<Rightarrow> 'a option" where
  \<comment> \<open>\<open>xs[i]\<close>\<close>
  "rs_index xs i = (if i < length xs then Some (xs ! i) else None)"

definition rs_slice :: "'a list \<Rightarrow> nat \<Rightarrow> nat \<Rightarrow> 'a list option" where
  \<comment> \<open>\<open>&xs[a..b]\<close>\<close>
  "rs_slice xs a b = (if a \<le> b \<and> b \<le> length xs then Some (take (b - a) (drop a xs)) else None)"

definition rs_slice_to :: "'a list \<Rightarrow> nat \<Rightarrow> 'a list option" where
  \<comment> \<open>\<open>&xs[..b]\<close>\<close>
  "rs_slice_to xs b = rs_slice xs 0 b"

definition rs_slice_from :: "'a list \<Rightarrow> nat \<Rightarrow> 'a list option" where
  \<comment> \<open>\<open>&xs[a..]\<close>\<close>
  "rs_slice_from xs a = rs_slice xs a (length xs)"

definition copy_from_slice :: "nat \<Rightarrow> 'a list \<Rightarrow> 'a list option" where
  \<comment> \<open>\<open>[0; n].copy_from_slice(xs)\<close>: panics when the lengths differ\<close>
  "copy_from_slice n xs = (if length xs = n then Some xs else None)"

lemma rs_index_Some [rust_simps, no_panic]: "i < length xs \<Longrightarrow> rs_index xs i = Some (xs ! i)"
  by (simp add: rs_index_def)

lemma rs_index_None [rust_simps]: "length xs \<le> i \<Longrightarrow> rs_index xs i = None"
  by (simp add: rs_index_def)

lemma rs_index_eq_None_iff [simp]: "rs_index xs i = None \<longleftrightarrow> length xs \<le> i"
  by (simp add: rs_index_def)

lemma rs_index_eq_Some_iff: "rs_index xs i = Some x \<longleftrightarrow> i < length xs \<and> xs ! i = x"
  by (simp add: rs_index_def)

lemma rs_slice_Some [rust_simps, no_panic]:
  "a \<le> b \<Longrightarrow> b \<le> length xs \<Longrightarrow> rs_slice xs a b = Some (take (b - a) (drop a xs))"
  by (simp add: rs_slice_def)

lemma rs_slice_eq_Some_iff:
  "rs_slice xs a b = Some ys \<longleftrightarrow> a \<le> b \<and> b \<le> length xs \<and> ys = take (b - a) (drop a xs)"
  by (auto simp: rs_slice_def)

lemma rs_slice_eq_None_iff: "rs_slice xs a b = None \<longleftrightarrow> b < a \<or> length xs < b"
  by (auto simp: rs_slice_def)

lemma rs_slice_to_Some [rust_simps, no_panic]:
  "b \<le> length xs \<Longrightarrow> rs_slice_to xs b = Some (take b xs)"
  by (simp add: rs_slice_to_def rs_slice_def)

lemma rs_slice_from_Some [rust_simps, no_panic]:
  "a \<le> length xs \<Longrightarrow> rs_slice_from xs a = Some (drop a xs)"
  by (simp add: rs_slice_from_def rs_slice_def)

lemma copy_from_slice_Some [rust_simps, no_panic]:
  "length xs = n \<Longrightarrow> copy_from_slice n xs = Some xs"
  by (simp add: copy_from_slice_def)

text \<open>A field of \<open>n\<close> bytes at offset \<open>a\<close>, read with a slice and a copy.\<close>

definition rs_field :: "'a list \<Rightarrow> nat \<Rightarrow> nat \<Rightarrow> 'a list option" where
  "rs_field xs a b = do { s \<leftarrow> rs_slice xs a b; copy_from_slice (b - a) s }"

lemma rs_field_Some [rust_simps, no_panic]:
  "a \<le> b \<Longrightarrow> b \<le> length xs \<Longrightarrow> rs_field xs a b = Some (take (b - a) (drop a xs))"
  by (simp add: rs_field_def rs_slice_def copy_from_slice_def)

lemma length_take_drop_field: "a \<le> b \<Longrightarrow> b \<le> length xs \<Longrightarrow> length (take (b - a) (drop a xs)) = b - a"
  by simp

section \<open>Byte order\<close>

definition from_be_bytes :: "u8 list \<Rightarrow> 'a::len word" where
  "from_be_bytes bs = foldl (\<lambda>acc b. push_bit 8 acc OR ucast b) 0 bs"

definition to_be_bytes :: "'a::len word \<Rightarrow> u8 list" where
  "to_be_bytes w = map (\<lambda>i. ucast (drop_bit (8 * i) w)) (rev [0 ..< LENGTH('a) div 8])"

definition to_le_bytes :: "'a::len word \<Rightarrow> u8 list" where
  "to_le_bytes w = rev (to_be_bytes w)"

definition from_le_bytes :: "u8 list \<Rightarrow> 'a::len word" where
  "from_le_bytes bs = from_be_bytes (rev bs)"

lemma length_to_be_bytes: "length (to_be_bytes (w :: 'a::len word)) = LENGTH('a) div 8"
  by (simp add: to_be_bytes_def)

lemma length_to_be_bytes_16 [simp]: "length (to_be_bytes (w :: u16)) = 2"
  by (simp add: length_to_be_bytes)

lemma length_to_be_bytes_32 [simp]: "length (to_be_bytes (w :: u32)) = 4"
  by (simp add: length_to_be_bytes)

lemma length_to_be_bytes_64 [simp]: "length (to_be_bytes (w :: u64)) = 8"
  by (simp add: length_to_be_bytes)

lemma length_to_le_bytes [simp]: "length (to_le_bytes w) = length (to_be_bytes w)"
  by (simp add: to_le_bytes_def)

lemma bit_byte_join:
  fixes w a :: "'a::len word"
  shows "push_bit (8 * n) (push_bit 8 a OR ucast (ucast (drop_bit (8 * n) w) :: u8)) OR take_bit (8 * n) w
    = push_bit (8 * Suc n) a OR take_bit (8 * Suc n) w"
  by (rule bit_word_eqI) (auto simp: bit_simps add.commute)

lemma foldl_be_bytes:
  fixes w a :: "'a::len word"
  shows "foldl (\<lambda>acc b. push_bit 8 acc OR ucast (b :: u8)) a
      (map (\<lambda>i. ucast (drop_bit (8 * i) w)) (rev [0 ..< n])) = push_bit (8 * n) a OR take_bit (8 * n) w"
proof (induction n arbitrary: a)
  case 0
  show ?case by simp
next
  case (Suc n)
  show ?case using bit_byte_join [of n a w] by (simp add: Suc.IH)
qed

lemma from_be_to_be:
  assumes "LENGTH('a) mod 8 = 0"
  shows "from_be_bytes (to_be_bytes w) = (w :: 'a::len word)"
proof -
  have len: "8 * (LENGTH('a) div 8) = LENGTH('a)" using assms by auto
  have "take_bit (8 * (LENGTH('a) div 8)) w = w"
    unfolding len by (rule bit_word_eqI) (simp add: bit_simps)
  then show ?thesis by (simp add: from_be_bytes_def to_be_bytes_def foldl_be_bytes)
qed

lemma from_be_to_be_16 [simp]: "from_be_bytes (to_be_bytes w) = (w :: u16)"
  by (simp add: from_be_to_be)

lemma from_be_to_be_32 [simp]: "from_be_bytes (to_be_bytes w) = (w :: u32)"
  by (simp add: from_be_to_be)

lemma from_be_to_be_64 [simp]: "from_be_bytes (to_be_bytes w) = (w :: u64)"
  by (simp add: from_be_to_be)

lemma from_le_to_le_16 [simp]: "from_le_bytes (to_le_bytes w) = (w :: u16)"
  by (simp add: from_le_bytes_def to_le_bytes_def)

lemma from_le_to_le_32 [simp]: "from_le_bytes (to_le_bytes w) = (w :: u32)"
  by (simp add: from_le_bytes_def to_le_bytes_def)

text \<open>\<open>to_ne_bytes\<close>: the byte order of the machine, a parameter (\<open>True\<close> for big endian).\<close>

definition to_ne_bytes :: "bool \<Rightarrow> 'a::len word \<Rightarrow> u8 list" where
  "to_ne_bytes big w = (if big then to_be_bytes w else to_le_bytes w)"

definition from_ne_bytes :: "bool \<Rightarrow> u8 list \<Rightarrow> 'a::len word" where
  "from_ne_bytes big bs = (if big then from_be_bytes bs else from_le_bytes bs)"

lemma length_to_ne_bytes [simp]: "length (to_ne_bytes big w) = length (to_be_bytes w)"
  by (simp add: to_ne_bytes_def)

lemma to_ne_bytes_32_nonempty [simp]: "to_ne_bytes big (w :: u32) \<noteq> []"
proof -
  have "length (to_ne_bytes big w) = 4" by simp
  then show ?thesis by force
qed

lemma from_ne_to_ne_16 [simp]: "from_ne_bytes big (to_ne_bytes big w) = (w :: u16)"
  by (simp add: from_ne_bytes_def to_ne_bytes_def)

lemma from_ne_to_ne_32 [simp]: "from_ne_bytes big (to_ne_bytes big w) = (w :: u32)"
  by (simp add: from_ne_bytes_def to_ne_bytes_def)

text \<open>\<open>((hi as usize) << 8) | (lo as usize)\<close>, the sixteen-bit lengths of the TLS parser.\<close>

definition be16 :: "u8 \<Rightarrow> u8 \<Rightarrow> nat" where
  "be16 hi lo = (push_bit 8 (unat hi) OR unat lo)"

lemma unat_u8_less [simp]: "unat (b :: u8) < 256"
  using unsigned_less [of b, where 'a = nat] by simp

lemma unat_u8_le [simp]: "unat (b :: u8) \<le> 255"
  using unat_u8_less [of b] by linarith

lemma or_eq_add_byte: "m < 256 \<Longrightarrow> (push_bit 8 n OR m) = 256 * n + (m :: nat)"
proof -
  assume m: "m < 256"
  then have "take_bit 8 m = m" by (simp add: take_bit_nat_eq_self)
  then have "\<not> bit m i" if "8 \<le> i" for i
    using that by (metis bit_take_bit_iff not_le)
  then have "push_bit 8 n + m = (push_bit 8 n OR m)"
    by (intro disjunctive_add) (auto simp: bit_simps)
  then show ?thesis by (simp add: push_bit_eq_mult)
qed

lemma be16_eq: "be16 hi lo = 256 * unat hi + unat lo"
  by (simp add: be16_def or_eq_add_byte)

lemma be16_less [simp]: "be16 hi lo < 65536"
  using unat_u8_less [of hi] unat_u8_less [of lo] unfolding be16_eq by linarith

lemma be16_0 [simp]: "be16 0 0 = 0"
  by (simp add: be16_eq)

lemma be16_eq_0_iff: "be16 hi lo = 0 \<longleftrightarrow> hi = 0 \<and> lo = 0"
  by (simp add: be16_eq unat_eq_0)

lemma unat_from_be_bytes_16: "unat (from_be_bytes [a, b] :: u16) = be16 a b"
proof -
  have "unat (from_be_bytes [a, b] :: u16) = unat (push_bit 8 (ucast a) OR ucast b :: u16)"
    by (simp add: from_be_bytes_def)
  also have "\<dots> = take_bit 16 (be16 a b)"
    by (rule bit_eqI) (auto simp: bit_simps be16_def)
  also have "\<dots> = be16 a b"
    using be16_less [of a b] by (simp add: take_bit_nat_eq_self)
  finally show ?thesis .
qed

section \<open>Integer formatting\<close>

text \<open>\<open>{}\<close> of an unsigned integer: its decimal digits.\<close>

fun fmt_dec :: "nat \<Rightarrow> rstr" where
  "fmt_dec n = (if n < 10 then [48 + of_nat n] else fmt_dec (n div 10) @ [48 + of_nat (n mod 10)])"

declare fmt_dec.simps [simp del]

text \<open>One hexadecimal digit, and \<open>{:0wx}\<close>: lower case, padded with zeros to \<open>w\<close> digits.\<close>

definition hex_digit :: "nat \<Rightarrow> u8" where
  "hex_digit n = (if n < 10 then 48 + of_nat n else 87 + of_nat n)"

fun hex_digits :: "nat \<Rightarrow> rstr" where
  "hex_digits n = (if n < 16 then [hex_digit n] else hex_digits (n div 16) @ [hex_digit (n mod 16)])"

declare hex_digits.simps [simp del]

definition fmt_hex_pad :: "nat \<Rightarrow> nat \<Rightarrow> rstr" where
  "fmt_hex_pad w n = replicate (w - length (hex_digits n)) 48 @ hex_digits n"

definition fmt_hex2 :: "u8 \<Rightarrow> rstr" where
  \<comment> \<open>\<open>{:02x}\<close> of a byte\<close>
  "fmt_hex2 b = fmt_hex_pad 2 (unat b)"

definition dec_digit :: "u8 \<Rightarrow> bool" where
  "dec_digit c \<longleftrightarrow> 48 \<le> unat c \<and> unat c < 58"

definition dec_value :: "rstr \<Rightarrow> nat" where
  "dec_value s = foldl (\<lambda>acc c. 10 * acc + (unat c - 48)) 0 s"

lemma unat_digit: "d < 10 \<Longrightarrow> unat (48 + of_nat d :: u8) = 48 + d"
  by (simp add: unat_word_ariths unat_of_nat)

lemma fmt_dec_digits: "list_all dec_digit (fmt_dec n)"
proof (induction n rule: fmt_dec.induct)
  case (1 n)
  show ?case
  proof (cases "n < 10")
    case True
    then show ?thesis by (simp add: fmt_dec.simps [of n] dec_digit_def unat_digit)
  next
    case False
    then show ?thesis using "1.IH" by (simp add: fmt_dec.simps [of n] dec_digit_def unat_digit)
  qed
qed

lemma fmt_dec_nonempty [simp]: "fmt_dec n \<noteq> []"
  by (subst fmt_dec.simps) simp

lemma dec_value_snoc: "dec_value (s @ [c]) = 10 * dec_value s + (unat c - 48)"
  by (simp add: dec_value_def)

lemma dec_value_fmt_dec [simp]: "dec_value (fmt_dec n) = n"
proof (induction n rule: fmt_dec.induct)
  case (1 n)
  show ?case
  proof (cases "n < 10")
    case True
    then show ?thesis by (simp add: fmt_dec.simps [of n] dec_value_def unat_digit)
  next
    case False
    then show ?thesis
      using "1.IH" by (simp add: fmt_dec.simps [of n] dec_value_snoc unat_digit)
  qed
qed

lemma fmt_dec_inject [simp]: "fmt_dec m = fmt_dec n \<longleftrightarrow> m = n"
  by (metis dec_value_fmt_dec)

text \<open>A digit string followed by a non-digit is read off unambiguously.\<close>

lemma digits_append_inject:
  assumes "list_all dec_digit xs" "list_all dec_digit xs'" "\<not> dec_digit c"
  shows "xs @ c # ys = xs' @ c # ys' \<longleftrightarrow> xs = xs' \<and> ys = ys'"
  using assms
proof (induction xs arbitrary: xs')
  case Nil
  then show ?case by (cases xs') auto
next
  case (Cons x xs)
  then show ?case by (cases xs') auto
qed

section \<open>Hexadecimal digits\<close>

definition hex_val :: "u8 \<Rightarrow> nat" where
  "hex_val c = (if unat c < 58 then unat c - 48 else unat c - 87)"

lemma hex_val_digit [simp]: "n < 16 \<Longrightarrow> hex_val (hex_digit n) = n"
  by (simp add: hex_val_def hex_digit_def unat_word_ariths unat_of_nat)

lemma hex_digit_inject: "m < 16 \<Longrightarrow> n < 16 \<Longrightarrow> hex_digit m = hex_digit n \<longleftrightarrow> m = n"
  by (metis hex_val_digit)

lemma fmt_hex2_eq: "fmt_hex2 b = [hex_digit (unat b div 16), hex_digit (unat b mod 16)]"
proof (cases "unat b < 16")
  case True
  then show ?thesis by (simp add: fmt_hex2_def fmt_hex_pad_def hex_digits.simps [of "unat b"] hex_digit_def)
next
  case False
  moreover have "unat b div 16 < 16" using unat_u8_less [of b] by (simp add: less_mult_imp_div_less)
  ultimately show ?thesis
    by (simp add: fmt_hex2_def fmt_hex_pad_def hex_digits.simps [of "unat b"]
        hex_digits.simps [of "unat b div 16"])
qed

lemma length_fmt_hex2 [simp]: "length (fmt_hex2 b) = 2"
  by (simp add: fmt_hex2_eq)

lemma fmt_hex2_inject [simp]: "fmt_hex2 a = fmt_hex2 b \<longleftrightarrow> a = b"
proof
  assume "fmt_hex2 a = fmt_hex2 b"
  then have "unat a div 16 = unat b div 16" "unat a mod 16 = unat b mod 16"
    using unat_u8_less [of a] unat_u8_less [of b]
    by (auto simp: fmt_hex2_eq hex_digit_inject less_mult_imp_div_less)
  then have "unat a = unat b" by (metis div_mult_mod_eq)
  then show "a = b" by (rule unsigned_word_eqI)
qed simp

end
