(* ===== verification/Utf8.thy ===== *)
theory Utf8
  imports Prelude
begin

text \<open>
  What the code uses of Rust's string library, on the UTF-8 bytes of a string: the validity
  check of \<open>std::str::from_utf8\<close>, \<open>String::from_utf8_lossy\<close>, character boundaries (a
  string slice off a boundary panics), \<open>char_indices().nth\<close>, \<open>starts_with\<close>, \<open>push\<close> and
  \<open>push_str\<close> (which are \<open>@\<close>).
\<close>

section \<open>One step of the decoder\<close>

definition byte_at :: "u8 list \<Rightarrow> nat \<Rightarrow> nat" where
  \<comment> \<open>the byte at an index, and zero past the end, as the library's \<open>safe_get\<close>\<close>
  "byte_at s i = (if i < length s then unat (s ! i) else 0)"

definition is_cont :: "nat \<Rightarrow> bool" where
  "is_cont x \<longleftrightarrow> 128 \<le> x \<and> x < 192"

definition second_of_3 :: "nat \<Rightarrow> nat \<Rightarrow> bool" where
  "second_of_3 x y \<longleftrightarrow>
    (if x = 0xE0 then 0xA0 \<le> y \<and> y \<le> 0xBF
     else if x = 0xED then 0x80 \<le> y \<and> y \<le> 0x9F
     else is_cont y)"

definition second_of_4 :: "nat \<Rightarrow> nat \<Rightarrow> bool" where
  "second_of_4 x y \<longleftrightarrow>
    (if x = 0xF0 then 0x90 \<le> y \<and> y \<le> 0xBF
     else if x = 0xF4 then 0x80 \<le> y \<and> y \<le> 0x8F
     else is_cont y)"

text \<open>
  The next character of a non-empty byte string: \<open>(True, n)\<close> if its first \<open>n\<close> bytes encode
  one, \<open>(False, n)\<close> if they are a maximal ill-formed prefix.
\<close>

definition utf8_step :: "u8 list \<Rightarrow> bool \<times> nat" where
  "utf8_step s =
    (let x = byte_at s 0; y = byte_at s 1; z = byte_at s 2; w = byte_at s 3 in
     if x < 0x80 then (True, 1)
     else if 0xC2 \<le> x \<and> x \<le> 0xDF then (if is_cont y then (True, 2) else (False, 1))
     else if 0xE0 \<le> x \<and> x \<le> 0xEF then
       (if \<not> second_of_3 x y then (False, 1) else if is_cont z then (True, 3) else (False, 2))
     else if 0xF0 \<le> x \<and> x \<le> 0xF4 then
       (if \<not> second_of_4 x y then (False, 1) else if \<not> is_cont z then (False, 2)
        else if is_cont w then (True, 4) else (False, 3))
     else (False, 1))"

fun utf8_valid :: "u8 list \<Rightarrow> bool" where
  "utf8_valid [] = True"
| "utf8_valid (b # s) = (case utf8_step (b # s) of (ok, n) \<Rightarrow> ok \<and> utf8_valid (drop (n - 1) s))"

datatype Utf8Error = Utf8Error

definition from_utf8 :: "u8 list \<Rightarrow> Utf8Error + rstr" where
  "from_utf8 s = (if utf8_valid s then Inr s else Inl Utf8Error)"

fun from_utf8_lossy :: "u8 list \<Rightarrow> rstr" where
  "from_utf8_lossy [] = []"
| "from_utf8_lossy (b # s) =
    (case utf8_step (b # s) of (ok, n) \<Rightarrow>
      (if ok then take n (b # s) else [0xEF, 0xBF, 0xBD]) @ from_utf8_lossy (drop (n - 1) s))"

section \<open>Character boundaries\<close>

definition is_char_boundary :: "rstr \<Rightarrow> nat \<Rightarrow> bool" where
  "is_char_boundary s i \<longleftrightarrow> i = 0 \<or> i = length s \<or> i < length s \<and> \<not> is_cont (byte_at s i)"

definition str_slice_to :: "rstr \<Rightarrow> nat \<Rightarrow> rstr option" where
  \<comment> \<open>\<open>&s[..b]\<close> of a string\<close>
  "str_slice_to s b = (if is_char_boundary s b then Some (take b s) else None)"

definition char_starts :: "rstr \<Rightarrow> nat list" where
  \<comment> \<open>the byte offsets that \<open>char_indices\<close> yields on a well-formed string\<close>
  "char_starts s = filter (\<lambda>i. \<not> is_cont (byte_at s i)) [0 ..< length s]"

definition char_indices_nth :: "rstr \<Rightarrow> nat \<Rightarrow> nat option" where
  "char_indices_nth s k = rs_index (char_starts s) k"

definition starts_with :: "'a list \<Rightarrow> 'a list \<Rightarrow> bool" where
  "starts_with s p \<longleftrightarrow> take (length p) s = p"

lemma starts_with_append [simp]: "starts_with (p @ s) p"
  by (simp add: starts_with_def)

lemma starts_with_iff: "starts_with s p \<longleftrightarrow> (\<exists>t. s = p @ t)"
  by (metis append_take_drop_id append_eq_conv_conj starts_with_def)

section \<open>Concatenation of well-formed strings\<close>

lemma not_is_cont_0 [simp]: "\<not> is_cont 0"
  by (simp add: is_cont_def)

lemma second_of_0 [simp]: "\<not> second_of_3 x 0" "\<not> second_of_4 x 0"
  by (simp_all add: second_of_3_def second_of_4_def)

lemma byte_at_append [simp]: "i < length s \<Longrightarrow> byte_at (s @ t) i = byte_at s i"
  by (simp add: byte_at_def nth_append)

lemma byte_at_nonzero: "is_cont (byte_at s i) \<Longrightarrow> i < length s"
  by (cases "i < length s") (auto simp: byte_at_def)

lemma utf8_step_pos: "utf8_step s = (ok, n) \<Longrightarrow> 0 < n \<and> n \<le> 4"
  by (auto simp: utf8_step_def Let_def split: if_splits)

lemma second_of_3_nonzero: "second_of_3 x (byte_at s i) \<Longrightarrow> i < length s"
  by (cases "i < length s") (auto simp: byte_at_def)

lemma second_of_4_nonzero: "second_of_4 x (byte_at s i) \<Longrightarrow> i < length s"
  by (cases "i < length s") (auto simp: byte_at_def)

lemmas cont_in_range = byte_at_nonzero second_of_3_nonzero second_of_4_nonzero

lemma utf8_step_length: "utf8_step s = (True, n) \<Longrightarrow> s \<noteq> [] \<Longrightarrow> n \<le> length s"
  by (auto simp: utf8_step_def Let_def Suc_le_eq split: if_splits dest: cont_in_range)

lemma utf8_step_append:
  assumes "utf8_step s = (True, n)" "s \<noteq> []"
  shows "utf8_step (s @ t) = (True, n)"
proof -
  have *: "byte_at (s @ t) i = byte_at s i" if "i < n" for i
    using that utf8_step_length [OF assms] by simp
  have "0 < length s" using assms(2) by simp
  then show ?thesis
    using assms(1) * utf8_step_length [OF assms]
    by (auto simp: utf8_step_def Let_def split: if_splits)
qed

lemma utf8_valid_step:
  "s \<noteq> [] \<Longrightarrow> utf8_valid s \<longleftrightarrow> (\<exists>n. utf8_step s = (True, n) \<and> utf8_valid (drop n s))"
proof (cases s)
  case (Cons b s')
  obtain ok n where st: "utf8_step (b # s') = (ok, n)" by fastforce
  then have "0 < n" using utf8_step_pos by blast
  then have "drop n (b # s') = drop (n - 1) s'" by (simp add: drop_Cons')
  then show ?thesis using st Cons by auto
qed simp

declare utf8_valid.simps(2) [simp del]

lemma utf8_valid_append: "utf8_valid s \<Longrightarrow> utf8_valid (s @ t) \<longleftrightarrow> utf8_valid t"
proof (induction s rule: length_induct)
  case (1 s)
  show ?case
  proof (cases "s = []")
    case False
    with 1 obtain n where n: "utf8_step s = (True, n)" "utf8_valid (drop n s)"
      using utf8_valid_step by blast
    have len: "0 < n" "n \<le> length s"
      using n(1) False utf8_step_pos utf8_step_length by blast+
    then have "utf8_valid (drop n s @ t) \<longleftrightarrow> utf8_valid t"
      using 1 n(2) False by auto
    then show ?thesis
      using n(1) False len utf8_valid_step [of "s @ t"] utf8_step_append [OF n(1) False, of t] by auto
  qed simp
qed

lemma utf8_valid_append_iff: "utf8_valid s \<Longrightarrow> utf8_valid t \<Longrightarrow> utf8_valid (s @ t)"
  by (simp add: utf8_valid_append)

definition is_ascii :: "u8 \<Rightarrow> bool" where
  "is_ascii b \<longleftrightarrow> unat b < 128"

lemma utf8_step_ascii: "is_ascii b \<Longrightarrow> utf8_step (b # s) = (True, 1)"
  by (simp add: utf8_step_def byte_at_def is_ascii_def)

lemma utf8_valid_ascii_Cons [simp]: "is_ascii b \<Longrightarrow> utf8_valid (b # s) = utf8_valid s"
  by (simp add: utf8_valid.simps utf8_step_ascii)

lemma utf8_valid_ascii: "list_all is_ascii s \<Longrightarrow> utf8_valid s"
  by (induction s) auto

lemma from_utf8_lossy_valid: "utf8_valid s \<Longrightarrow> from_utf8_lossy s = s"
proof (induction s rule: from_utf8_lossy.induct)
  case (2 b s)
  obtain ok n where st: "utf8_step (b # s) = (ok, n)" by fastforce
  have n: "0 < n" using st utf8_step_pos by blast
  have drop: "drop n (b # s) = drop (n - 1) s" using n by (simp add: drop_Cons')
  have ok: "ok" "utf8_valid (drop (n - 1) s)"
    using 2(2) st drop utf8_valid_step [of "b # s"] by auto
  then have "from_utf8_lossy (drop (n - 1) s) = drop n (b # s)"
    using 2(1) [OF st [symmetric]] drop by auto
  then show ?case using st ok by (simp del: take_Cons drop_Cons take_Cons' drop_Cons')
qed simp

end
