(* ===== verification/Dns.thy ===== *)
theory Dns
  imports Utf8
begin

text \<open>
  The DNS query parser (\<open>netzer-core/src/dns.rs\<close>): \<open>DnsQuery::parse\<close> checks the header, then
  walks the labels of the first question name, joining them with dots. The loop is
  \<open>qname_loop\<close>, one unfolding per iteration, with the two variables of the source as its
  arguments. The lemmas show that it never panics, and give the exact language it accepts and
  the name it returns.
\<close>

section \<open>Model\<close>

record DnsQuery =
  domain_name :: rstr

function qname_loop :: "u8 list \<Rightarrow> nat \<Rightarrow> rstr \<Rightarrow> rstr parse_result" where
  "qname_loop buffer offset domain =
    (if offset < length buffer then do {
       b \<leftarrow> rs_index buffer offset;
       let len = unat b;
       if len = 0 then Some (Inr domain)
       else if (len AND 0xC0) = 0xC0 then Some (Inl InvalidFormat)
       else do {
         let offset = offset + 1;
         if length buffer \<le> offset + len then Some (Inl BufferTooShort)
         else do {
           let domain = (if domain \<noteq> [] then domain @ lit ''.'' else domain);
           label_bytes \<leftarrow> rs_slice buffer offset (offset + len);
           case from_utf8 label_bytes of
             Inl _ \<Rightarrow> Some (Inl InvalidFormat)
           | Inr label \<Rightarrow> qname_loop buffer (offset + len) (domain @ label)
         }
       }
     }
     else Some (Inr domain))"
  by pat_completeness auto
termination
  by (relation "measure (\<lambda>(buffer, offset, domain). length buffer - offset)")
    (auto simp: rs_index_eq_Some_iff)

declare qname_loop.simps [simp del]

definition DnsQuery_parse :: "u8 list \<Rightarrow> DnsQuery parse_result" where
  "DnsQuery_parse buffer =
    (if length buffer < 12 then Some (Inl BufferTooShort)
     else do {
       flags \<leftarrow> rs_index buffer 2;
       if (flags AND 0x80) \<noteq> 0 then Some (Inl InvalidFormat)
       else do {
         qdcount_bytes \<leftarrow> rs_field buffer 4 6;
         let qdcount = (from_be_bytes qdcount_bytes :: u16);
         if qdcount = 0 then Some (Inl InvalidFormat)
         else do {
           r \<leftarrow> qname_loop buffer 12 [];
           case r of
             Inl e \<Rightarrow> Some (Inl e)
           | Inr domain \<Rightarrow>
               if domain = [] then Some (Inl InvalidFormat)
               else Some (Inr \<lparr>domain_name = domain\<rparr>)
         }
       }
     })"

section \<open>Specification: length-prefixed labels\<close>

text \<open>
  A label is written as its length byte and its bytes; the code takes lengths from 1 to 191
  (it refuses only the length bytes whose two top bits are both set, the compression pointers).
\<close>

definition encode_label :: "u8 list \<Rightarrow> u8 list" where
  "encode_label l = of_nat (length l) # l"

definition encode_labels :: "u8 list list \<Rightarrow> u8 list" where
  "encode_labels ls = concat (map encode_label ls)"

definition label_ok :: "u8 list \<Rightarrow> bool" where
  "label_ok l \<longleftrightarrow> l \<noteq> [] \<and> length l < 192 \<and> utf8_valid l"

fun join_dots :: "rstr list \<Rightarrow> rstr" where
  "join_dots [] = []"
| "join_dots [l] = l"
| "join_dots (l # ls) = l @ lit ''.'' @ join_dots ls"

text \<open>The joined name, as the loop builds it: appended to what is there already.\<close>

fun push_labels :: "rstr \<Rightarrow> rstr list \<Rightarrow> rstr" where
  "push_labels d [] = d"
| "push_labels d (l # ls) = push_labels ((if d \<noteq> [] then d @ lit ''.'' else d) @ l) ls"

lemma push_labels_nonempty: "\<lbrakk>d \<noteq> []; list_all label_ok ls\<rbrakk> \<Longrightarrow>
    push_labels d ls = d @ concat (map (\<lambda>l. lit ''.'' @ l) ls)"
  by (induction ls arbitrary: d) (auto simp: label_ok_def)

lemma join_dots_Cons: "join_dots (l # ls) = l @ concat (map (\<lambda>l. lit ''.'' @ l) ls)"
  by (induction ls arbitrary: l) auto

lemma push_labels_Nil: "list_all label_ok ls \<Longrightarrow> push_labels [] ls = join_dots ls"
  by (cases ls) (auto simp: push_labels_nonempty join_dots_Cons label_ok_def)

section \<open>One iteration of the loop\<close>

lemma top_bits_nat: "x < 256 \<Longrightarrow> 64 * (x div 64 mod 4) = 192 \<longleftrightarrow> 192 \<le> (x :: nat)"
  using less_eq_div_iff_mult_less_eq [of 64 3 x] by (simp add: less_mult_imp_div_less) linarith

lemma pointer_iff: "((unat (b :: u8) AND 0xC0) = 0xC0) \<longleftrightarrow> 192 \<le> unat b"
proof -
  have c: "(0xC0 :: nat) = push_bit 6 (mask 2)" by (simp add: push_bit_eq_mult mask_eq_exp_minus_1)
  have "(unat b AND 0xC0) = push_bit 6 (drop_bit 6 (unat b) AND mask 2)"
    unfolding c by (rule bit_eqI) (auto simp: bit_simps)
  also have "\<dots> = push_bit 6 (take_bit 2 (drop_bit 6 (unat b)))"
    by (simp only: take_bit_eq_mask)
  also have "\<dots> = 64 * (unat b div 64 mod 4)"
    by (simp add: push_bit_eq_mult drop_bit_eq_div take_bit_eq_mod)
  finally show ?thesis using top_bits_nat [of "unat b"] by simp
qed

lemma qname_loop_eq:
  assumes "offset < length b"
  shows "qname_loop b offset domain =
    (let len = unat (b ! offset) in
     if len = 0 then Some (Inr domain)
     else if 192 \<le> len then Some (Inl InvalidFormat)
     else if length b \<le> offset + 1 + len then Some (Inl BufferTooShort)
     else if \<not> utf8_valid (take len (drop (offset + 1) b)) then Some (Inl InvalidFormat)
     else qname_loop b (offset + 1 + len)
       ((if domain \<noteq> [] then domain @ lit ''.'' else domain) @ take len (drop (offset + 1) b)))"
  using assms unfolding qname_loop.simps [of b offset domain]
  by (simp add: pointer_iff rs_index_Some rs_slice_Some from_utf8_def Let_def)

lemma qname_loop_end: "length b \<le> offset \<Longrightarrow> qname_loop b offset domain = Some (Inr domain)"
  by (simp add: qname_loop.simps)

lemma qname_loop_no_panic: "qname_loop b offset domain \<noteq> None"
proof (induction "length b - offset" arbitrary: offset domain rule: less_induct)
  case less
  show ?case
  proof (cases "offset < length b")
    case True
    then show ?thesis
      using less.hyps by (subst qname_loop_eq) (auto simp: Let_def)
  next
    case False
    then show ?thesis by (simp add: qname_loop_end)
  qed
qed

lemma qname_loop_labels:
  assumes "list_all label_ok ls"
  shows "qname_loop (pre @ encode_labels ls @ 0 # rest) (length pre) d = Some (Inr (push_labels d ls))"
  using assms
proof (induction ls arbitrary: pre d)
  case Nil
  show ?case by (simp add: encode_labels_def qname_loop_eq)
next
  case (Cons l ls)
  define d' where "d' = (if d \<noteq> [] then d @ lit ''.'' else d) @ l"
  from Cons.prems have l: "l \<noteq> []" "length l < 192" "utf8_valid l" by (auto simp: label_ok_def)
  have len: "unat (of_nat (length l) :: u8) = length l"
    using l by (simp add: unat_of_nat)
  have b: "pre @ encode_labels (l # ls) @ 0 # rest
      = (pre @ encode_label l) @ encode_labels ls @ 0 # rest"
    by (simp add: encode_labels_def)
  have "qname_loop ((pre @ encode_label l) @ encode_labels ls @ 0 # rest) (length (pre @ encode_label l)) d'
      = Some (Inr (push_labels d' ls))"
    using Cons.prems by (intro Cons.IH) simp
  then show ?case
    using l len unfolding b by (subst qname_loop_eq) (simp_all add: encode_label_def Let_def nth_append d'_def)
qed

lemma qname_loop_sound:
  assumes "qname_loop b offset d = Some (Inr r)" "offset \<le> length b"
  shows "\<exists>ls rest. list_all label_ok ls \<and> r = push_labels d ls \<and>
    (drop offset b = encode_labels ls @ 0 # rest \<or> drop offset b = [] \<and> ls = [])"
  using assms
proof (induction "length b - offset" arbitrary: offset d rule: less_induct)
  case less
  show ?case
  proof (cases "offset < length b")
    case False
    with less.prems show ?thesis
      by (intro exI [of _ "[]"]) (auto simp: qname_loop_end)
  next
    case True
    define len where "len = unat (b ! offset)"
    define l where "l = take len (drop (offset + 1) b)"
    define d' where "d' = (if d \<noteq> [] then d @ lit ''.'' else d) @ l"
    have split0: "drop offset b = b ! offset # drop (offset + 1) b"
      using True by (simp add: Cons_nth_drop_Suc)
    note loop = less.prems(1) [unfolded qname_loop_eq [OF True] Let_def, folded len_def, folded l_def, folded d'_def]
    show ?thesis
    proof (cases "len = 0")
      case zero: True
      then have "b ! offset = 0" by (simp add: len_def unat_eq_0)
      then show ?thesis
        using loop zero split0
        by (intro exI [of _ "[]"] exI [of _ "drop (offset + 1) b"]) (simp add: encode_labels_def)
    next
      case pos: False
      have ok: "len < 192" "offset + 1 + len < length b" "utf8_valid l"
        and rec: "qname_loop b (offset + 1 + len) d' = Some (Inr r)"
        using loop pos by (simp_all split: if_splits)
      from rec obtain ls rest where ls: "list_all label_ok ls" "r = push_labels d' ls"
          "drop (offset + 1 + len) b = encode_labels ls @ 0 # rest"
        using less.hyps [OF _ rec] ok(2) by force
      have len: "length l = len" using ok(2) by (simp add: l_def)
      then have lok: "label_ok l" and l0: "of_nat (length l) = b ! offset"
        using ok pos by (auto simp: label_ok_def len_def)
      have "drop (offset + 1) b = l @ drop (offset + 1 + len) b"
        unfolding l_def by (metis append_take_drop_id drop_drop add.commute)
      then have "drop offset b = encode_labels (l # ls) @ 0 # rest"
        using split0 ls(3) l0 by (simp add: encode_labels_def encode_label_def)
      then show ?thesis
        using ls lok by (intro exI [of _ "l # ls"] exI [of _ rest]) (simp add: d'_def)
    qed
  qed
qed

section \<open>The parser\<close>

lemma list_2_at: "4 + 2 \<le> length b \<Longrightarrow> take 2 (drop 4 b) = [b ! 4, b ! 5]"
  by (simp add: list_eq_iff_nth_eq less_Suc_eq numeral_eq_Suc)

lemma DnsQuery_parse_eq:
  assumes "12 \<le> length b"
  shows "DnsQuery_parse b =
    (if (b ! 2 AND 0x80) \<noteq> 0 \<or> b ! 4 = 0 \<and> b ! 5 = 0 then Some (Inl InvalidFormat)
     else case qname_loop b 12 [] of
         None \<Rightarrow> None
       | Some (Inl e) \<Rightarrow> Some (Inl e)
       | Some (Inr d) \<Rightarrow> if d = [] then Some (Inl InvalidFormat) else Some (Inr \<lparr>domain_name = d\<rparr>))"
proof -
  have "(from_be_bytes [b ! 4, b ! 5] :: u16) = 0 \<longleftrightarrow> b ! 4 = 0 \<and> b ! 5 = 0"
    by (simp add: unat_eq_0 [symmetric] unat_from_be_bytes_16 be16_eq)
  moreover have "Option.bind m (case_sum (\<lambda>e. Some (Inl e)) g) =
      (case m of None \<Rightarrow> None | Some (Inl e) \<Rightarrow> Some (Inl e) | Some (Inr d) \<Rightarrow> g d)"
    for m :: "rstr parse_result" and g :: "rstr \<Rightarrow> DnsQuery parse_result"
    by (simp split: option.split sum.split)
  ultimately show ?thesis
    using assms by (simp only: DnsQuery_parse_def) (simp add: rust_simps list_2_at from_be_bytes_def)
qed

lemma DnsQuery_parse_no_panic: "DnsQuery_parse b \<noteq> None"
proof (cases "length b < 12")
  case False
  obtain r where "qname_loop b 12 [] = Some r" using qname_loop_no_panic by blast
  then show ?thesis using False by (auto simp: DnsQuery_parse_eq split: sum.splits)
qed (simp add: DnsQuery_parse_def)

lemma qname_loop_12_iff:
  assumes "12 \<le> length b"
  shows "(qname_loop b 12 [] = Some (Inr d) \<and> d \<noteq> []) \<longleftrightarrow>
    (\<exists>ls rest. ls \<noteq> [] \<and> list_all label_ok ls \<and> drop 12 b = encode_labels ls @ 0 # rest \<and> d = join_dots ls)"
    (is "?L \<longleftrightarrow> ?R")
proof
  assume ?L
  then obtain ls rest where ls: "list_all label_ok ls" "d = push_labels [] ls"
      "drop 12 b = encode_labels ls @ 0 # rest \<or> drop 12 b = [] \<and> ls = []"
    using qname_loop_sound [of b 12 "[]" d] assms by blast
  moreover have "ls \<noteq> []" using \<open>?L\<close> ls(2) by auto
  ultimately show ?R by (auto simp: push_labels_Nil)
next
  assume ?R
  then obtain ls rest where ls: "ls \<noteq> []" "list_all label_ok ls"
      "drop 12 b = encode_labels ls @ 0 # rest" "d = join_dots ls" by blast
  have b: "b = take 12 b @ encode_labels ls @ 0 # rest" by (metis append_take_drop_id ls(3))
  have "qname_loop (take 12 b @ encode_labels ls @ 0 # rest) (length (take 12 b)) []
      = Some (Inr (push_labels [] ls))"
    by (rule qname_loop_labels [OF ls(2)])
  then have "qname_loop b 12 [] = Some (Inr d)"
    using b assms ls by (simp add: push_labels_Nil)
  moreover have "d \<noteq> []" using ls by (cases ls) (auto simp: join_dots_Cons label_ok_def)
  ultimately show ?L by simp
qed

lemma join_dots_valid: "list_all label_ok ls \<Longrightarrow> utf8_valid (join_dots ls)"
  by (induction ls rule: join_dots.induct)
    (auto simp: label_ok_def utf8_valid_append lit_def is_ascii_def)

section \<open>Properties\<close>

text \<open>
  C18: the DNS parser accepts exactly the queries (QR bit clear, at least one question) whose
  first question name is a non-empty sequence of labels, each with a length byte from 1 to 191
  and well-formed UTF-8 bytes, closed by a zero byte inside the buffer; it returns the labels
  joined with dots.
\<close>

theorem DnsQuery_parse_accepts:
  "DnsQuery_parse b = Some (Inr q) \<longleftrightarrow>
    12 \<le> length b \<and> (b ! 2 AND 0x80) = 0 \<and> (b ! 4, b ! 5) \<noteq> (0, 0) \<and>
    (\<exists>ls rest. ls \<noteq> [] \<and> list_all label_ok ls \<and> drop 12 b = encode_labels ls @ 0 # rest \<and>
      q = \<lparr>domain_name = join_dots ls\<rparr>)"
proof (cases "12 \<le> length b")
  case False
  then show ?thesis by (simp add: DnsQuery_parse_def)
next
  case True
  obtain r where "qname_loop b 12 [] = Some r" using qname_loop_no_panic by blast
  then show ?thesis
    using True qname_loop_12_iff [OF True, of "domain_name q"]
    by (cases q; cases r) (auto simp: DnsQuery_parse_eq)
qed

text \<open>
  The domain name of an accepted query is a non-empty, well-formed UTF-8 string, so it is a
  \<open>String\<close> although it was copied out of the packet.
\<close>

theorem DnsQuery_domain_well_formed:
  assumes "DnsQuery_parse b = Some (Inr q)"
  shows "domain_name q \<noteq> [] \<and> utf8_valid (domain_name q)"
proof -
  have len: "12 \<le> length b" using assms by (simp add: DnsQuery_parse_def split: if_splits)
  obtain r where "qname_loop b 12 [] = Some r" using qname_loop_no_panic by blast
  then have "qname_loop b 12 [] = Some (Inr (domain_name q)) \<and> domain_name q \<noteq> []"
    using assms len by (cases r) (auto simp: DnsQuery_parse_eq split: if_splits)
  then obtain ls where "list_all label_ok ls" "domain_name q = join_dots ls" "domain_name q \<noteq> []"
    using qname_loop_12_iff [OF len] by blast
  then show ?thesis by (simp add: join_dots_valid)
qed

theorem DnsQuery_domain_well_formed_witness:
  "utf8_valid (lit ''a.bc'')"
proof -
  let ?b = "[0, 7, 1, 0, 0, 1, 0, 0, 0, 0, 0, 0, 1, 97, 2, 98, 99, 0, 0, 1, 0, 1] :: u8 list"
  have "DnsQuery_parse ?b = Some (Inr \<lparr>domain_name = lit ''a.bc''\<rparr>)" by code_simp
  from DnsQuery_domain_well_formed [OF this] show ?thesis by simp
qed

end
