(* ===== verification/Tls.thy ===== *)
theory Tls
  imports Utf8
begin

text \<open>
  The TLS ClientHello parser (\<open>netzer-core/src/tls.rs\<close>), which finds the server name (SNI)
  of a TLS connection. \<open>TlsClientHello::parse\<close> walks one flat offset through the record; its
  two nested loops are \<open>ext_loop\<close> over the extensions and \<open>sni_loop\<close> over the names of the
  server name extension, each unfolding once per iteration. An early \<open>return\<close> of the inner
  loop is \<open>Inr (Some _)\<close> or \<open>Inl _\<close>; leaving it at its end is \<open>Inr None\<close>.
\<close>

section \<open>Model\<close>

record TlsClientHello =
  sni :: rstr

function sni_loop :: "u8 list \<Rightarrow> nat \<Rightarrow> nat \<Rightarrow> TlsClientHello option parse_result" where
  "sni_loop buffer sni_offset sni_end =
    (if sni_offset + 3 \<le> sni_end then do {
       name_type \<leftarrow> rs_index buffer sni_offset;
       hi \<leftarrow> rs_index buffer (sni_offset + 1);
       lo \<leftarrow> rs_index buffer (sni_offset + 2);
       let name_len = be16 hi lo;
       let sni_offset = sni_offset + 3;
       if sni_end < sni_offset + name_len then Some (Inl BufferTooShort)
       else if name_type = 0 then do {
         hostname_bytes \<leftarrow> rs_slice buffer sni_offset (sni_offset + name_len);
         case from_utf8 hostname_bytes of
           Inr hostname \<Rightarrow> Some (Inr (Some \<lparr>sni = hostname\<rparr>))
         | Inl _ \<Rightarrow> Some (Inl InvalidFormat)
       }
       else sni_loop buffer (sni_offset + name_len) sni_end
     }
     else Some (Inr None))"
  by pat_completeness auto
termination
  by (relation "measure (\<lambda>(buffer, sni_offset, sni_end). sni_end - sni_offset)") auto

declare sni_loop.simps [simp del]

function ext_loop :: "u8 list \<Rightarrow> nat \<Rightarrow> nat \<Rightarrow> TlsClientHello parse_result" where
  "ext_loop buffer offset extensions_end =
    (if offset + 4 \<le> extensions_end then do {
       t1 \<leftarrow> rs_index buffer offset;
       t0 \<leftarrow> rs_index buffer (offset + 1);
       l1 \<leftarrow> rs_index buffer (offset + 2);
       l0 \<leftarrow> rs_index buffer (offset + 3);
       let ext_type = be16 t1 t0;
       let ext_len = be16 l1 l0;
       let offset = offset + 4;
       if extensions_end < offset + ext_len then Some (Inl BufferTooShort)
       else if ext_type = 0 then
         (if ext_len < 2 then Some (Inl InvalidFormat)
          else do {
            r \<leftarrow> sni_loop buffer (offset + 2) (offset + ext_len);
            case r of
              Inl e \<Rightarrow> Some (Inl e)
            | Inr (Some hello) \<Rightarrow> Some (Inr hello)
            | Inr None \<Rightarrow> ext_loop buffer (offset + ext_len) extensions_end
          })
       else ext_loop buffer (offset + ext_len) extensions_end
     }
     else Some (Inl InvalidFormat))"
  by pat_completeness auto
termination
  by (relation "measure (\<lambda>(buffer, offset, extensions_end). extensions_end - offset)") auto

declare ext_loop.simps [simp del]

definition TlsClientHello_parse :: "u8 list \<Rightarrow> TlsClientHello parse_result" where
  "TlsClientHello_parse buffer =
    (if length buffer < 5 then Some (Inl BufferTooShort)
     else do {
       content_type \<leftarrow> rs_index buffer 0;
       if content_type \<noteq> 22 then Some (Inl InvalidFormat)
       else do {
         r1 \<leftarrow> rs_index buffer 3;
         r0 \<leftarrow> rs_index buffer 4;
         let record_len = be16 r1 r0;
         if length buffer < 5 + record_len then Some (Inl BufferTooShort)
         else do {
           let offset = 5;
           handshake_type \<leftarrow> rs_index buffer offset;
           if handshake_type \<noteq> 1 then Some (Inl InvalidFormat)
           else do {
             let offset = offset + 4;
             let offset = offset + 2;
             let offset = offset + 32;
             if length buffer \<le> offset then Some (Inl BufferTooShort)
             else do {
               session_id_len \<leftarrow> rs_index buffer offset;
               let offset = offset + (1 + unat session_id_len);
               if length buffer < offset + 2 then Some (Inl BufferTooShort)
               else do {
                 c1 \<leftarrow> rs_index buffer offset;
                 c0 \<leftarrow> rs_index buffer (offset + 1);
                 let offset = offset + (2 + be16 c1 c0);
                 if length buffer < offset + 1 then Some (Inl BufferTooShort)
                 else do {
                   compression_methods_len \<leftarrow> rs_index buffer offset;
                   let offset = offset + (1 + unat compression_methods_len);
                   if length buffer < offset + 2 then Some (Inl InvalidFormat)
                   else do {
                     e1 \<leftarrow> rs_index buffer offset;
                     e0 \<leftarrow> rs_index buffer (offset + 1);
                     let extensions_len = be16 e1 e0;
                     let offset = offset + 2;
                     let extensions_end = offset + extensions_len;
                     if length buffer < extensions_end then Some (Inl BufferTooShort)
                     else ext_loop buffer offset extensions_end
                   }
                 }
               }
             }
           }
         }
       }
     })"

section \<open>One iteration of each loop\<close>

lemma sni_loop_eq:
  assumes "offset + 3 \<le> sni_end" "sni_end \<le> length b"
  shows "sni_loop b offset sni_end =
    (let n = be16 (b ! (offset + 1)) (b ! (offset + 2)); name = take n (drop (offset + 3) b) in
     if sni_end < offset + 3 + n then Some (Inl BufferTooShort)
     else if b ! offset = 0 then
       Some (if utf8_valid name then Inr (Some \<lparr>sni = name\<rparr>) else Inl InvalidFormat)
     else sni_loop b (offset + 3 + n) sni_end)"
  using assms unfolding sni_loop.simps [of b offset sni_end]
  by (simp add: rs_index_Some rs_slice_Some from_utf8_def Let_def)

lemma sni_loop_end: "sni_end < offset + 3 \<Longrightarrow> sni_loop b offset sni_end = Some (Inr None)"
  by (simp add: sni_loop.simps)

lemma ext_loop_eq:
  assumes "offset + 4 \<le> ext_end" "ext_end \<le> length b"
  shows "ext_loop b offset ext_end =
    (let t = be16 (b ! offset) (b ! (offset + 1)); n = be16 (b ! (offset + 2)) (b ! (offset + 3)) in
     if ext_end < offset + 4 + n then Some (Inl BufferTooShort)
     else if t = 0 then
       (if n < 2 then Some (Inl InvalidFormat)
        else case sni_loop b (offset + 4 + 2) (offset + 4 + n) of
            None \<Rightarrow> None
          | Some (Inl e) \<Rightarrow> Some (Inl e)
          | Some (Inr (Some hello)) \<Rightarrow> Some (Inr hello)
          | Some (Inr None) \<Rightarrow> ext_loop b (offset + 4 + n) ext_end)
     else ext_loop b (offset + 4 + n) ext_end)"
  using assms unfolding ext_loop.simps [of b offset ext_end]
  by (simp add: rs_index_Some Let_def split: option.split sum.split)

lemma ext_loop_end: "ext_end < offset + 4 \<Longrightarrow> ext_loop b offset ext_end = Some (Inl InvalidFormat)"
  by (simp add: ext_loop.simps)

section \<open>The loops stay inside the buffer\<close>

lemma sni_loop_no_panic: "sni_end \<le> length b \<Longrightarrow> sni_loop b offset sni_end \<noteq> None"
proof (induction "sni_end - offset" arbitrary: offset rule: less_induct)
  case less
  show ?case
  proof (cases "offset + 3 \<le> sni_end")
    case True
    then show ?thesis
      using less by (subst sni_loop_eq) (auto simp: Let_def)
  next
    case False
    then show ?thesis by (simp add: sni_loop_end)
  qed
qed

lemma ext_loop_no_panic: "ext_end \<le> length b \<Longrightarrow> ext_loop b offset ext_end \<noteq> None"
proof (induction "ext_end - offset" arbitrary: offset rule: less_induct)
  case less
  show ?case
  proof (cases "offset + 4 \<le> ext_end")
    case True
    define n where "n = be16 (b ! (offset + 2)) (b ! (offset + 3))"
    have rec: "ext_loop b (offset + 4 + n) ext_end \<noteq> None"
      using less True by (intro less.hyps) auto
    have "sni_loop b (offset + 4 + 2) (offset + 4 + n) \<noteq> None" if "\<not> ext_end < offset + 4 + n"
      using that less.prems by (intro sni_loop_no_panic) auto
    then show ?thesis
      using rec ext_loop_eq [OF True less.prems, unfolded Let_def, folded n_def]
      by (auto split: option.splits sum.splits)
  next
    case False
    then show ?thesis by (simp add: ext_loop_end)
  qed
qed

section \<open>The header, guard by guard\<close>

text \<open>The one input shape on which an index of the parser is out of range.\<close>

definition empty_handshake_record :: "u8 list \<Rightarrow> bool" where
  "empty_handshake_record b \<longleftrightarrow> length b = 5 \<and> b ! 0 = 22 \<and> b ! 3 = 0 \<and> b ! 4 = 0"

definition parse_after_type :: "u8 list \<Rightarrow> TlsClientHello parse_result" where
  "parse_after_type b =
    (if length b \<le> 43 then Some (Inl BufferTooShort)
     else let o1 = 44 + unat (b ! 43) in
       if length b < o1 + 2 then Some (Inl BufferTooShort)
       else let o2 = o1 + 2 + be16 (b ! o1) (b ! (o1 + 1)) in
         if length b < o2 + 1 then Some (Inl BufferTooShort)
         else let o3 = o2 + 1 + unat (b ! o2) in
           if length b < o3 + 2 then Some (Inl InvalidFormat)
           else let e = o3 + 2 + be16 (b ! o3) (b ! (o3 + 1)) in
             if length b < e then Some (Inl BufferTooShort) else ext_loop b (o3 + 2) e)"

lemma TlsClientHello_parse_eq:
  "TlsClientHello_parse b =
    (if length b < 5 then Some (Inl BufferTooShort)
     else if b ! 0 \<noteq> 22 then Some (Inl InvalidFormat)
     else if length b < 5 + be16 (b ! 3) (b ! 4) then Some (Inl BufferTooShort)
     else if length b = 5 then None
     else if b ! 5 \<noteq> 1 then Some (Inl InvalidFormat)
     else parse_after_type b)"
proof (cases "length b < 6")
  case True
  then show ?thesis
    by (cases "length b < 5") (auto simp: TlsClientHello_parse_def rs_index_def Let_def)
next
  case False
  then have "0 < length b" "3 < length b" "4 < length b" "5 < length b" by linarith+
  then show ?thesis
    by (simp add: TlsClientHello_parse_def parse_after_type_def rs_index_def Let_def add.assoc
        add.commute add.left_commute)
qed

lemma parse_after_type_no_panic: "parse_after_type b \<noteq> None"
  using ext_loop_no_panic by (simp add: parse_after_type_def Let_def)

section \<open>Specification: the ClientHello a client sends\<close>

definition enc16 :: "nat \<Rightarrow> u8 list" where
  "enc16 n = [of_nat (n div 256), of_nat (n mod 256)]"

text \<open>A name of the server name list: its type (0 is \<open>host_name\<close>) and its bytes.\<close>

type_synonym server_name = "u8 \<times> u8 list"

datatype tls_extension = ServerName "server_name list" | OtherExtension nat "u8 list"

definition enc_name :: "server_name \<Rightarrow> u8 list" where
  "enc_name nm = fst nm # enc16 (length (snd nm)) @ snd nm"

definition enc_names :: "server_name list \<Rightarrow> u8 list" where
  "enc_names ns = concat (map enc_name ns)"

fun ext_type :: "tls_extension \<Rightarrow> nat" where
  "ext_type (ServerName ns) = 0"
| "ext_type (OtherExtension t d) = t"

fun ext_data :: "tls_extension \<Rightarrow> u8 list" where
  "ext_data (ServerName ns) = enc16 (length (enc_names ns)) @ enc_names ns"
| "ext_data (OtherExtension t d) = d"

fun names_of :: "tls_extension \<Rightarrow> server_name list" where
  "names_of (ServerName ns) = ns"
| "names_of (OtherExtension t d) = []"

definition enc_ext :: "tls_extension \<Rightarrow> u8 list" where
  "enc_ext e = enc16 (ext_type e) @ enc16 (length (ext_data e)) @ ext_data e"

definition enc_exts :: "tls_extension list \<Rightarrow> u8 list" where
  "enc_exts es = concat (map enc_ext es)"

definition wf_name :: "server_name \<Rightarrow> bool" where
  "wf_name nm \<longleftrightarrow> length (snd nm) < 65536"

fun wf_ext :: "tls_extension \<Rightarrow> bool" where
  "wf_ext (ServerName ns) \<longleftrightarrow> list_all wf_name ns \<and> length (enc_names ns) < 65534"
| "wf_ext (OtherExtension t d) \<longleftrightarrow> 0 < t \<and> t < 65536 \<and> length d < 65536"

record client_hello =
  hello_prefix :: "u8 list"      \<comment> \<open>handshake length, client version, random: 37 bytes\<close>
  session_id :: "u8 list"
  cipher_suites :: "u8 list"
  compression_methods :: "u8 list"
  extensions :: "tls_extension list"

definition enc_handshake :: "client_hello \<Rightarrow> u8 list" where
  "enc_handshake ch = 1 # hello_prefix ch @
     of_nat (length (session_id ch)) # session_id ch @
     enc16 (length (cipher_suites ch)) @ cipher_suites ch @
     of_nat (length (compression_methods ch)) # compression_methods ch @
     enc16 (length (enc_exts (extensions ch))) @ enc_exts (extensions ch)"

definition enc_record :: "u8 list \<Rightarrow> client_hello \<Rightarrow> u8 list" where
  "enc_record version ch = 22 # version @ enc16 (length (enc_handshake ch)) @ enc_handshake ch"

definition wf_client_hello :: "client_hello \<Rightarrow> bool" where
  "wf_client_hello ch \<longleftrightarrow> length (hello_prefix ch) = 37 \<and> length (session_id ch) < 256 \<and>
     length (cipher_suites ch) < 65536 \<and> length (compression_methods ch) < 256 \<and>
     list_all wf_ext (extensions ch) \<and> length (enc_handshake ch) < 65536"

text \<open>The server names a hello offers, in order, and the answer due for them.\<close>

definition offered_names :: "tls_extension list \<Rightarrow> server_name list" where
  "offered_names es = concat (map names_of es)"

definition answer :: "server_name list \<Rightarrow> ParseError + TlsClientHello" where
  "answer ns = (case find (\<lambda>nm. fst nm = 0) ns of
     None \<Rightarrow> Inl InvalidFormat
   | Some nm \<Rightarrow> if utf8_valid (snd nm) then Inr \<lparr>sni = snd nm\<rparr> else Inl InvalidFormat)"

lemma length_enc16 [simp]: "length (enc16 n) = 2"
  by (simp add: enc16_def)

lemma be16_enc16: "n < 65536 \<Longrightarrow> be16 (of_nat (n div 256)) (of_nat (n mod 256)) = n"
  by (simp add: be16_eq unat_of_nat less_mult_imp_div_less)

lemma be16_at:
  assumes "b = pre @ enc16 n @ ys" "k = length pre" "n < 65536"
  shows "be16 (b ! k) (b ! (k + 1)) = n"
  using assms by (simp add: enc16_def nth_append be16_enc16)

section \<open>The loops on well-formed lists\<close>

lemma sni_loop_names:
  assumes "list_all wf_name ns"
  shows "sni_loop (pre @ enc_names ns @ post) (length pre) (length pre + length (enc_names ns)) =
    Some (case find (\<lambda>nm. fst nm = 0) ns of
        None \<Rightarrow> Inr None
      | Some nm \<Rightarrow> if utf8_valid (snd nm) then Inr (Some \<lparr>sni = snd nm\<rparr>) else Inl InvalidFormat)"
  using assms
proof (induction ns arbitrary: pre)
  case Nil
  show ?case by (simp add: sni_loop_end enc_names_def)
next
  case (Cons nm ns)
  define t where "t = fst nm"
  define h where "h = snd nm"
  define b where "b = pre @ enc_names (nm # ns) @ post"
  define sni_end where "sni_end = length pre + length (enc_names (nm # ns))"
  have h: "length h < 65536" using Cons.prems by (simp add: h_def wf_name_def)
  have b: "b = (pre @ enc_name nm) @ enc_names ns @ post"
    and b2: "b = (pre @ [t]) @ enc16 (length h) @ h @ enc_names ns @ post"
    by (simp_all add: b_def enc_names_def enc_name_def t_def h_def)
  have len: "be16 (b ! (length pre + 1)) (b ! (length pre + 2)) = length h"
    using be16_at [OF b2, of "length pre + 1"] h by simp
  have t: "b ! length pre = t" and h': "take (length h) (drop (length pre + 3) b) = h"
    by (simp_all add: b2 enc16_def)
  have l: "length (pre @ enc_name nm) = length pre + 3 + length h"
    by (simp add: enc_name_def h_def)
  have e: "sni_end = length pre + 3 + length h + length (enc_names ns)"
    by (simp add: sni_end_def enc_names_def enc_name_def h_def)
  have "sni_end \<le> length b" by (simp add: sni_end_def b_def)
  moreover have "sni_loop b (length pre + 3 + length h) sni_end =
    Some (case find (\<lambda>nm. fst nm = 0) ns of
        None \<Rightarrow> Inr None
      | Some nm \<Rightarrow> if utf8_valid (snd nm) then Inr (Some \<lparr>sni = snd nm\<rparr>) else Inl InvalidFormat)"
    using Cons.IH [of "pre @ enc_name nm", unfolded l, folded b e] Cons.prems by simp
  ultimately show ?case
    unfolding b_def [symmetric] sni_end_def [symmetric]
    by (subst sni_loop_eq) (simp_all only: e len t h' Let_def, simp_all add: t_def h_def)
qed

lemma ext_loop_exts:
  assumes "list_all wf_ext es"
  shows "ext_loop (pre @ enc_exts es @ post) (length pre) (length pre + length (enc_exts es)) =
    Some (answer (offered_names es))"
  using assms
proof (induction es arbitrary: pre)
  case Nil
  show ?case by (simp add: ext_loop_end enc_exts_def offered_names_def answer_def)
next
  case (Cons e es)
  define d where "d = ext_data e"
  define b where "b = pre @ enc_exts (e # es) @ post"
  define ext_end where "ext_end = length pre + length (enc_exts (e # es))"
  have wf: "ext_type e < 65536" "length d < 65536"
    using Cons.prems by (cases e; simp add: d_def)+
  have b: "b = (pre @ enc_ext e) @ enc_exts es @ post"
    and b2: "b = pre @ enc16 (ext_type e) @ enc16 (length d) @ d @ enc_exts es @ post"
    and b3: "b = (pre @ enc16 (ext_type e)) @ enc16 (length d) @ d @ enc_exts es @ post"
    by (simp_all add: b_def d_def enc_exts_def enc_ext_def)
  have ty: "be16 (b ! length pre) (b ! (length pre + 1)) = ext_type e"
    using be16_at [OF b2 refl wf(1)] .
  have len: "be16 (b ! (length pre + 2)) (b ! (length pre + 3)) = length d"
    using be16_at [OF b3 _ wf(2), of "length pre + 2"] by (simp add: numeral_3_eq_3)
  have l: "length (pre @ enc_ext e) = length pre + 4 + length d"
    by (simp add: enc_ext_def d_def)
  have ee: "ext_end = length pre + 4 + length d + length (enc_exts es)"
    by (simp add: ext_end_def enc_exts_def enc_ext_def d_def)
  have le: "ext_end \<le> length b" by (simp add: ext_end_def b_def)
  have IH: "ext_loop b (length pre + 4 + length d) ext_end = Some (answer (offered_names es))"
    using Cons.IH [of "pre @ enc_ext e", unfolded l, folded b ee] Cons.prems by simp
  have step: "ext_loop b (length pre) ext_end =
    (if ext_type e = 0 then
       (if length d < 2 then Some (Inl InvalidFormat)
        else case sni_loop b (length pre + 4 + 2) (length pre + 4 + length d) of
            None \<Rightarrow> None
          | Some (Inl e) \<Rightarrow> Some (Inl e)
          | Some (Inr (Some hello)) \<Rightarrow> Some (Inr hello)
          | Some (Inr None) \<Rightarrow> Some (answer (offered_names es)))
     else Some (answer (offered_names es)))"
    using le by (subst ext_loop_eq) (simp_all only: ty len IH Let_def, simp_all add: ee)
  show ?case
    unfolding b_def [symmetric] ext_end_def [symmetric]
  proof (cases e)
    case (OtherExtension t d)
    then show "ext_loop b (length pre) ext_end = Some (answer (offered_names (e # es)))"
      using step Cons.prems by (simp add: offered_names_def)
  next
    case (ServerName ns)
    define p where "p = pre @ enc16 0 @ enc16 (length d) @ enc16 (length (enc_names ns))"
    have b4: "p @ enc_names ns @ enc_exts es @ post = b"
      by (simp add: p_def b2 d_def ServerName)
    have lp: "length p = length pre + 4 + 2" "length p + length (enc_names ns) = length pre + 4 + length d"
      by (simp_all add: p_def d_def ServerName)
    have "list_all wf_name ns" using Cons.prems ServerName by simp
    note names = sni_loop_names [OF this, of p "enc_exts es @ post", unfolded b4, unfolded lp(2), unfolded lp(1)]
    show "ext_loop b (length pre) ext_end = Some (answer (offered_names (e # es)))"
      unfolding step names
      by (simp add: ServerName offered_names_def answer_def find_append d_def split: option.split)
  qed
qed

section \<open>The server name is a piece of the packet\<close>

definition slice_of :: "u8 list \<Rightarrow> u8 list \<Rightarrow> bool" where
  "slice_of s b \<longleftrightarrow> (\<exists>i. i + length s \<le> length b \<and> s = take (length s) (drop i b))"

lemma slice_ofI: "i + n \<le> length b \<Longrightarrow> slice_of (take n (drop i b)) b"
  by (auto simp: slice_of_def intro!: exI [of _ i])

lemma sni_loop_slice:
  "\<lbrakk>sni_loop b offset sni_end = Some (Inr (Some r)); sni_end \<le> length b\<rbrakk>
    \<Longrightarrow> utf8_valid (sni r) \<and> slice_of (sni r) b"
proof (induction "sni_end - offset" arbitrary: offset rule: less_induct)
  case less
  show ?case
  proof (cases "offset + 3 \<le> sni_end")
    case True
    then show ?thesis
      using less.prems less.hyps [of "offset + 3 + be16 (b ! (offset + 1)) (b ! (offset + 2))"]
      by (auto simp: sni_loop_eq [of offset sni_end b] Let_def intro!: slice_ofI split: if_splits)
  next
    case False
    then show ?thesis using less.prems by (simp add: sni_loop_end)
  qed
qed

lemma ext_loop_slice:
  "\<lbrakk>ext_loop b offset ext_end = Some (Inr r); ext_end \<le> length b\<rbrakk>
    \<Longrightarrow> utf8_valid (sni r) \<and> slice_of (sni r) b"
proof (induction "ext_end - offset" arbitrary: offset rule: less_induct)
  case less
  show ?case
  proof (cases "offset + 4 \<le> ext_end")
    case True
    define n where "n = be16 (b ! (offset + 2)) (b ! (offset + 3))"
    note step = less.prems(1) [unfolded ext_loop_eq [OF True less.prems(2)] Let_def, folded n_def]
    have IH: "utf8_valid (sni r) \<and> slice_of (sni r) b"
      if "ext_loop b (offset + 4 + n) ext_end = Some (Inr r)"
      using that True less.prems(2) by (intro less.hyps [of "offset + 4 + n"]) auto
    have in_range: "offset + 4 + n \<le> length b" if "\<not> ext_end < offset + 4 + n"
      using that less.prems(2) by linarith
    show ?thesis
      using step IH sni_loop_slice [OF _ in_range]
      by (auto split: if_splits option.splits sum.splits)
  next
    case False
    then show ?thesis using less.prems by (simp add: ext_loop_end)
  qed
qed

lemma TlsClientHello_parse_None_iff: "TlsClientHello_parse b = None \<longleftrightarrow> empty_handshake_record b"
  using parse_after_type_no_panic [of b]
  by (auto simp: TlsClientHello_parse_eq empty_handshake_record_def be16_eq_0_iff)

lemma record_head:
  fixes rest
  assumes wf: "wf_client_hello ch" and version: "length version = 2"
  defines "b \<equiv> enc_record version ch @ rest"
  shows "b ! 0 = 22" "b ! 5 = 1" "be16 (b ! 3) (b ! 4) = length (enc_handshake ch)"
    "length b = 5 + length (enc_handshake ch) + length rest" "0 < length (enc_handshake ch)"
proof -
  have b: "b = (22 # version) @ enc16 (length (enc_handshake ch)) @ enc_handshake ch @ rest"
    by (simp add: b_def enc_record_def)
  have hs: "length (enc_handshake ch) < 65536" using wf by (simp add: wf_client_hello_def)
  show "b ! 0 = 22" by (simp add: b)
  show "b ! 5 = 1" using version by (simp add: b nth_append enc_handshake_def)
  show "be16 (b ! 3) (b ! 4) = length (enc_handshake ch)"
    using be16_at [OF b _ hs, of 3] version by simp
  show "length b = 5 + length (enc_handshake ch) + length rest" "0 < length (enc_handshake ch)"
    using version by (simp_all add: b enc_handshake_def)
qed

lemma parse_after_type_hello:
  assumes wf: "wf_client_hello ch" and version: "length version = 2"
  shows "parse_after_type (enc_record version ch @ rest) = Some (answer (offered_names (extensions ch)))"
proof -
  define b where "b = enc_record version ch @ rest"
  define sid where "sid = session_id ch"
  define cs where "cs = cipher_suites ch"
  define cm where "cm = compression_methods ch"
  define es where "es = enc_exts (extensions ch)"
  define p0 where "p0 = 22 # version @ enc16 (length (enc_handshake ch)) @ 1 # hello_prefix ch"
  define p1 where "p1 = p0 @ of_nat (length sid) # sid"
  define p2 where "p2 = p1 @ enc16 (length cs) @ cs"
  define p3 where "p3 = p2 @ of_nat (length cm) # cm"
  define p4 where "p4 = p3 @ enc16 (length es)"
  note defs = enc_record_def enc_handshake_def sid_def cs_def cm_def es_def p0_def p1_def p2_def p3_def p4_def
  have b: "b = p4 @ es @ rest" by (simp add: b_def defs)
  have hs: "length (enc_handshake ch) < 65536" and pre: "length (hello_prefix ch) = 37"
    and sid: "length sid < 256" and cs: "length cs < 65536" and cm: "length cm < 256"
    and exts: "list_all wf_ext (extensions ch)"
    using wf by (simp_all add: wf_client_hello_def sid_def cs_def cm_def)
  have es: "length es < 65536" using hs by (simp add: enc_handshake_def es_def)
  have lens: "length p0 = 43" "length p1 = 44 + length sid" "length p2 = length p1 + 2 + length cs"
    "length p3 = length p2 + 1 + length cm" "length p4 = length p3 + 2"
    using pre version by (simp_all add: p0_def p1_def p2_def p3_def p4_def)
  have at43: "unat (b ! 43) = length sid"
    using sid lens(1) by (simp add: b p4_def p3_def p2_def p1_def nth_append unat_of_nat)
  have at1: "be16 (b ! length p1) (b ! (length p1 + 1)) = length cs"
    by (rule be16_at [OF _ refl cs]) (simp add: b p4_def p3_def p2_def)
  have at2: "unat (b ! length p2) = length cm"
    using cm by (simp add: b p4_def p3_def nth_append unat_of_nat)
  have at3: "be16 (b ! length p3) (b ! (length p3 + 1)) = length es"
    by (rule be16_at [OF _ refl es]) (simp add: b p4_def)
  have lb: "length b = length p4 + length es + length rest" by (simp add: b)
  have loop: "ext_loop b (length p3 + 2) (length p3 + 2 + length es)
      = Some (answer (offered_names (extensions ch)))"
    using ext_loop_exts [OF exts, of p4 rest] by (simp add: b es_def lens(5))
  have bounds: "\<not> length b \<le> 43" "\<not> length b < length p1 + 2" "\<not> length b < length p2 + 1"
    "\<not> length b < length p3 + 2" "\<not> length b < length p3 + 2 + length es"
    using lens lb by linarith+
  have "parse_after_type b = Some (answer (offered_names (extensions ch)))"
    unfolding parse_after_type_def Let_def
    by (simp only: bounds at43 lens(2) [symmetric] at1 lens(3) [symmetric] at2 lens(4) [symmetric] at3
        if_False loop)
  then show ?thesis by (simp only: b_def)
qed

lemma TlsClientHello_sni: "TlsClientHello_parse b = Some (Inr r) \<Longrightarrow> utf8_valid (sni r) \<and> slice_of (sni r) b"
  using ext_loop_slice by (auto simp: TlsClientHello_parse_eq parse_after_type_def Let_def split: if_splits)

section \<open>Properties\<close>

text \<open>
  C23: the ClientHello parser panics on exactly one shape of input: a buffer of five bytes that
  is a handshake record of length zero. The record length check passes and the parser then
  reads the handshake type at index 5, past the end. Every other input gives a result.
\<close>

theorem TlsClientHello_parse_panics_iff:
  "TlsClientHello_parse b = None \<longleftrightarrow> empty_handshake_record b"
  by (rule TlsClientHello_parse_None_iff)

text \<open>
  C11: for every well-formed ClientHello record, whatever follows it in the buffer, the parser
  returns the first name of type \<open>host_name\<close> that the server name extensions offer, in order,
  if it is well-formed UTF-8, and \<open>InvalidFormat\<close> if there is none or it is ill-formed.
\<close>

theorem TlsClientHello_parse_hello:
  assumes "wf_client_hello ch" "length version = 2"
  shows "TlsClientHello_parse (enc_record version ch @ rest) = Some (answer (offered_names (extensions ch)))"
  using record_head(1-4) [OF assms, of rest] record_head(5) [OF assms] parse_after_type_hello [OF assms, of rest]
  unfolding TlsClientHello_parse_eq by simp

theorem TlsClientHello_parse_hello_witness:
  "TlsClientHello_parse (enc_record [3, 1] \<lparr>hello_prefix = replicate 37 0, session_id = [7],
      cipher_suites = [19, 1], compression_methods = [0],
      extensions = [OtherExtension 23 [], ServerName [(1, [255]), (0, lit ''a.b'')]]\<rparr> @ [23, 3]) =
    Some (Inr \<lparr>sni = lit ''a.b''\<rparr>)"
proof -
  let ?ch = "\<lparr>hello_prefix = replicate 37 0, session_id = [7], cipher_suites = [19, 1],
    compression_methods = [0],
    extensions = [OtherExtension 23 [], ServerName [(1, [255]), (0, lit ''a.b'')]]\<rparr> :: client_hello"
  have "wf_client_hello ?ch"
    by (simp add: wf_client_hello_def wf_name_def enc_names_def enc_name_def enc_handshake_def
        enc_exts_def enc_ext_def)
  from TlsClientHello_parse_hello [OF this, of "[3, 1]" "[23, 3]"] show ?thesis
    by (simp add: offered_names_def answer_def lit_def is_ascii_def)
qed

text \<open>
  C39: the server name that the parser returns is well-formed UTF-8 and is a contiguous piece
  of the packet it was given: nothing is invented and nothing outside the buffer is read.
\<close>

theorem TlsClientHello_sni_slice:
  assumes "TlsClientHello_parse b = Some (Inr r)"
  shows "utf8_valid (sni r) \<and> slice_of (sni r) b"
  using TlsClientHello_sni [OF assms] .

theorem TlsClientHello_sni_slice_witness:
  "slice_of (lit ''a.b'') (enc_record [3, 1] \<lparr>hello_prefix = replicate 37 0, session_id = [],
      cipher_suites = [19, 1], compression_methods = [0], extensions = [ServerName [(0, lit ''a.b'')]]\<rparr>)"
proof -
  have "TlsClientHello_parse (enc_record [3, 1] \<lparr>hello_prefix = replicate 37 0, session_id = [],
      cipher_suites = [19, 1], compression_methods = [0], extensions = [ServerName [(0, lit ''a.b'')]]\<rparr>)
    = Some (Inr \<lparr>sni = lit ''a.b''\<rparr>)"
    by code_simp
  from TlsClientHello_sni_slice [OF this] show ?thesis by simp
qed

end
