(* ===== verification/Tcp_Stream.thy ===== *)
theory Tcp_Stream
  imports Utf8 "HOL-Library.List_Lexorder" "HOL-Library.Product_Lexorder"
begin

text \<open>
  TCP stream reassembly (\<open>netzer-core/src/tcp_stream.rs\<close>): \<open>StreamKey::new\<close> orders the two
  endpoints of a connection, \<open>TcpStreamTracker::feed\<close> appends a segment to the data of its
  stream and flushes it when enough is there or an HTTP line has begun, and \<open>clear\<close> forgets
  every stream. The \<open>HashMap\<close> is a partial map; \<open>feed\<close> returns the new tracker and its
  \<open>Option\<close>. Strings and ports are compared as Rust does, lexicographically, by the orders of
  \<open>List_Lexorder\<close> and \<open>Product_Lexorder\<close>.
\<close>

section \<open>Stream keys\<close>

record StreamKey =
  client_ip :: rstr
  client_port :: u16
  server_ip :: rstr
  server_port :: u16

definition StreamKey_new :: "rstr \<Rightarrow> u16 \<Rightarrow> rstr \<Rightarrow> u16 \<Rightarrow> StreamKey" where
  "StreamKey_new src_ip src_port dst_ip dst_port =
    (if (src_ip, src_port) < (dst_ip, dst_port)
     then \<lparr>client_ip = src_ip, client_port = src_port, server_ip = dst_ip, server_port = dst_port\<rparr>
     else \<lparr>client_ip = dst_ip, client_port = dst_port, server_ip = src_ip, server_port = src_port\<rparr>)"

section \<open>The tracker\<close>

record TcpStream =
  stream_key :: StreamKey
  stream_data :: "u8 list"
  packet_count :: nat

definition TcpStream_new :: "StreamKey \<Rightarrow> TcpStream" where
  "TcpStream_new k = \<lparr>stream_key = k, stream_data = [], packet_count = 0\<rparr>"

record TcpStreamTracker =
  streams :: "StreamKey \<rightharpoonup> TcpStream"
  flush_threshold :: nat

definition TcpStreamTracker_new :: TcpStreamTracker where
  "TcpStreamTracker_new = \<lparr>streams = Map.empty, flush_threshold = 4096\<rparr>"

definition TcpStreamTracker_default :: TcpStreamTracker where
  "TcpStreamTracker_default = TcpStreamTracker_new"

definition is_http_request :: "u8 list \<Rightarrow> bool" where
  "is_http_request d \<longleftrightarrow> starts_with d (lit ''GET '') \<or> starts_with d (lit ''POST '') \<or>
     starts_with d (lit ''PUT '') \<or> starts_with d (lit ''DELETE '') \<or> starts_with d (lit ''HTTP/'')"

definition should_flush :: "nat \<Rightarrow> u8 list \<Rightarrow> bool" where
  "should_flush threshold d \<longleftrightarrow> threshold \<le> length d \<or> is_http_request d \<and> 10 \<in> set d"

definition TcpStreamTracker_feed ::
  "TcpStreamTracker \<Rightarrow> rstr \<Rightarrow> u16 \<Rightarrow> rstr \<Rightarrow> u16 \<Rightarrow> u8 list \<Rightarrow>
    TcpStreamTracker \<times> (StreamKey \<times> u8 list) option" where
  "TcpStreamTracker_feed t src_ip src_port dst_ip dst_port payload =
    (if payload = [] then (t, None)
     else
       let key = StreamKey_new src_ip src_port dst_ip dst_port;
           s0 = (case streams t key of None \<Rightarrow> TcpStream_new key | Some s \<Rightarrow> s);
           s1 = s0\<lparr>stream_data := stream_data s0 @ payload, packet_count := packet_count s0 + 1\<rparr>
       in if should_flush (flush_threshold t) (stream_data s1)
          then (t\<lparr>streams := (streams t)(key \<mapsto> s1\<lparr>stream_data := [], packet_count := 0\<rparr>)\<rparr>,
                Some (key, stream_data s1))
          else (t\<lparr>streams := (streams t)(key \<mapsto> s1)\<rparr>, None))"

definition TcpStreamTracker_clear :: "TcpStreamTracker \<Rightarrow> TcpStreamTracker" where
  "TcpStreamTracker_clear t = t\<lparr>streams := Map.empty\<rparr>"

section \<open>Interface: a sink that conserves the bytes of each stream\<close>

text \<open>A run of a stateful step over a list of inputs, collecting what the steps hand out.\<close>

primrec feeds :: "('t \<Rightarrow> 's \<Rightarrow> 't \<times> 'o option) \<Rightarrow> 't \<Rightarrow> 's list \<Rightarrow> 't \<times> 'o list" where
  "feeds feed t [] = (t, [])"
| "feeds feed t (s # ss) =
    (case feed t s of (t', r) \<Rightarrow>
      case feeds feed t' ss of (t'', rs) \<Rightarrow> (t'', (case r of None \<Rightarrow> rs | Some x \<Rightarrow> x # rs)))"

text \<open>The bytes handed out for one stream, and the bytes that segments carry for it.\<close>

definition of_stream :: "'k \<Rightarrow> ('k \<times> 'b list) list \<Rightarrow> 'b list" where
  "of_stream k out = concat (map snd (filter (\<lambda>x. fst x = k) out))"

definition sent :: "('s \<Rightarrow> 'k) \<Rightarrow> ('s \<Rightarrow> 'b list) \<Rightarrow> 'k \<Rightarrow> 's list \<Rightarrow> 'b list" where
  "sent key bytes k ss = concat (map bytes (filter (\<lambda>s. key s = k) ss))"

text \<open>
  What a user of the tracker relies on: each segment belongs to one stream, a step appends
  the segment to what is pending for its stream, hands out all of it or keeps all of it, and
  leaves the other streams alone. From one step, the locale derives the law for any sequence of
  segments: what was handed out for a stream, followed by what is still pending, is what was
  pending at first followed by every segment of the stream, in order.
\<close>

locale stream_sink =
  fixes feed :: "'t \<Rightarrow> 's \<Rightarrow> 't \<times> ('k \<times> 'b list) option"
    and key :: "'s \<Rightarrow> 'k"
    and bytes :: "'s \<Rightarrow> 'b list"
    and pending :: "'t \<Rightarrow> 'k \<Rightarrow> 'b list"
  assumes feed_kept: "feed t s = (t', None) \<Longrightarrow>
      pending t' k = (if k = key s then pending t k @ bytes s else pending t k)"
    and feed_flushed: "feed t s = (t', Some (k', d)) \<Longrightarrow>
      k' = key s \<and> d = pending t k' @ bytes s \<and> pending t' k = (if k = k' then [] else pending t k)"
begin

lemma feeds_conserve:
  "feeds feed t ss = (t', out) \<Longrightarrow> of_stream k out @ pending t' k = pending t k @ sent key bytes k ss"
proof (induction ss arbitrary: t t' out)
  case Nil
  then show ?case by (simp add: of_stream_def sent_def)
next
  case (Cons s ss)
  obtain t1 r where feed: "feed t s = (t1, r)" by fastforce
  obtain t2 rs where rest: "feeds feed t1 ss = (t2, rs)" by fastforce
  have IH: "of_stream k rs @ pending t2 k = pending t1 k @ sent key bytes k ss"
    using Cons.IH [OF rest] .
  show ?case
  proof (cases r)
    case None
    with Cons.prems feed rest IH feed_kept [of t s t1 k] show ?thesis
      by (auto simp: sent_def)
  next
    case (Some x)
    obtain k' d where x: "x = (k', d)" by fastforce
    with Some Cons.prems feed rest IH feed_flushed [of t s t1 k' d k] show ?thesis
      by (auto simp: sent_def of_stream_def)
  qed
qed

end

text \<open>A sink whose invariant bounds what is pending for each stream between two steps.\<close>

locale bounded_sink = stream_sink feed key bytes pending
  for feed :: "'t \<Rightarrow> 's \<Rightarrow> 't \<times> ('k \<times> 'b list) option"
    and key bytes pending +
  fixes inv :: "'t \<Rightarrow> bool"
    and limit :: "'t \<Rightarrow> nat"
  assumes feed_inv: "inv t \<Longrightarrow> inv (fst (feed t s))"
    and feed_limit: "limit (fst (feed t s)) = limit t"
    and inv_bound: "inv t \<Longrightarrow> 0 < limit t \<Longrightarrow> length (pending t k) < limit t"
begin

lemma feeds_inv: "inv t \<Longrightarrow> inv (fst (feeds feed t ss))"
proof (induction ss arbitrary: t)
  case (Cons s ss)
  then show ?case using feed_inv [of t s] by (simp split: prod.split) (metis fst_conv)
qed simp

lemma feeds_limit: "limit (fst (feeds feed t ss)) = limit t"
proof (induction ss arbitrary: t)
  case (Cons s ss)
  then show ?case using feed_limit [of t s] by (simp split: prod.split) (metis fst_conv)
qed simp

lemma feeds_bounded: "inv t \<Longrightarrow> 0 < limit t \<Longrightarrow> length (pending (fst (feeds feed t ss)) k) < limit t"
  using feeds_inv [of t ss] feeds_limit [of t ss] inv_bound by metis

end

section \<open>One step of the tracker\<close>

text \<open>A TCP segment as \<open>process_packet\<close> hands it to \<open>feed\<close>.\<close>

record segment =
  seg_src_ip :: rstr
  seg_src_port :: u16
  seg_dst_ip :: rstr
  seg_dst_port :: u16
  seg_payload :: "u8 list"

definition seg_key :: "segment \<Rightarrow> StreamKey" where
  "seg_key s = StreamKey_new (seg_src_ip s) (seg_src_port s) (seg_dst_ip s) (seg_dst_port s)"

definition feed_segment :: "TcpStreamTracker \<Rightarrow> segment \<Rightarrow> TcpStreamTracker \<times> (StreamKey \<times> u8 list) option" where
  "feed_segment t s = TcpStreamTracker_feed t (seg_src_ip s) (seg_src_port s) (seg_dst_ip s)
     (seg_dst_port s) (seg_payload s)"

definition pending :: "TcpStreamTracker \<Rightarrow> StreamKey \<Rightarrow> u8 list" where
  "pending t k = (case streams t k of None \<Rightarrow> [] | Some s \<Rightarrow> stream_data s)"

text \<open>
  The invariant between two calls: a stream is filed under its own key, holds less than a
  flush would take, and counts between zero and as many packets as it holds bytes.
\<close>

definition stream_inv :: "nat \<Rightarrow> StreamKey \<Rightarrow> TcpStream \<Rightarrow> bool" where
  "stream_inv threshold k s \<longleftrightarrow> stream_key s = k \<and> (stream_data s \<noteq> [] \<longrightarrow> \<not> should_flush threshold (stream_data s)) \<and>
     (packet_count s = 0 \<longleftrightarrow> stream_data s = []) \<and> packet_count s \<le> length (stream_data s)"

definition tracker_inv :: "TcpStreamTracker \<Rightarrow> bool" where
  "tracker_inv t \<longleftrightarrow> (\<forall>k s. streams t k = Some s \<longrightarrow> stream_inv (flush_threshold t) k s)"

lemma tracker_inv_new: "tracker_inv TcpStreamTracker_new"
  by (simp add: tracker_inv_def TcpStreamTracker_new_def)

lemma tracker_inv_clear: "tracker_inv (TcpStreamTracker_clear t)"
  by (simp add: tracker_inv_def TcpStreamTracker_clear_def)

lemmas feed_defs = feed_segment_def TcpStreamTracker_feed_def seg_key_def pending_def TcpStream_new_def

lemma length_grows: "p \<noteq> [] \<Longrightarrow> n \<le> length d \<Longrightarrow> n < length d + length p"
  by (cases p) auto

lemma feed_segment_inv: "tracker_inv t \<Longrightarrow> tracker_inv (fst (feed_segment t s))"
  by (cases "streams t (seg_key s)")
    (auto simp: tracker_inv_def stream_inv_def feed_defs Let_def length_grows Suc_le_eq
      split: if_splits option.splits)

interpretation tracker: bounded_sink feed_segment seg_key seg_payload pending tracker_inv flush_threshold
proof (unfold_locales, goal_cases)
  case (1 t s t' k)
  then show ?case by (auto simp: feed_defs Let_def split: if_splits option.splits)
next
  case (2 t s t' k' d k)
  then show ?case by (auto simp: feed_defs Let_def split: if_splits option.splits)
next
  case (3 t s)
  then show ?case by (rule feed_segment_inv)
next
  case (4 t s)
  show ?case by (simp add: feed_defs Let_def)
next
  case (5 t k)
  then show ?case
    by (fastforce simp: tracker_inv_def stream_inv_def should_flush_def pending_def split: option.split)
qed

section \<open>Properties\<close>

text \<open>
  C37: the key of a stream identifies the connection and not the direction: two segments have
  the same key exactly when they have the same two endpoints, in either order.
\<close>

theorem StreamKey_identifies_connection:
  "StreamKey_new a p b q = StreamKey_new a' p' b' q' \<longleftrightarrow>
    ((a, p) = (a', p') \<and> (b, q) = (b', q')) \<or> ((a, p) = (b', q') \<and> (b, q) = (a', p'))"
proof -
  have "(a, p) < (b, q) \<or> (a, p) = (b, q) \<or> (b, q) < (a, p)"
    and "(a', p') < (b', q') \<or> (a', p') = (b', q') \<or> (b', q') < (a', p')"
    by auto
  then show ?thesis by (elim disjE) (auto simp: StreamKey_new_def)
qed

text \<open>
  C17: reassembly loses, duplicates and reorders nothing. Over any sequence of segments fed to a
  fresh tracker, for every stream, the flushed chunks of the stream in order, followed by what
  the tracker still holds for it, are exactly the payloads of its segments in arrival order.
\<close>

theorem tracker_conserves_bytes:
  "of_stream k (snd (feeds feed_segment TcpStreamTracker_new segs)) @
     pending (fst (feeds feed_segment TcpStreamTracker_new segs)) k = sent seg_key seg_payload k segs"
  using tracker.feeds_conserve [of TcpStreamTracker_new segs _ _ k]
  by (simp add: pending_def TcpStreamTracker_new_def split: option.split)

text \<open>
  After any sequence of segments the tracker is well-formed, and it holds fewer than 4096
  bytes for every stream: whatever reaches the threshold has been flushed.
\<close>

theorem tracker_stays_bounded:
  "tracker_inv (fst (feeds feed_segment TcpStreamTracker_new segs)) \<and>
    length (pending (fst (feeds feed_segment TcpStreamTracker_new segs)) k) < 4096"
  using tracker.feeds_inv [OF tracker_inv_new, of segs]
    tracker.feeds_bounded [OF tracker_inv_new, of segs k]
  by (simp add: TcpStreamTracker_new_def)

text \<open>
  A step hands out data exactly when the stream's data with the new segment reaches the
  threshold or begins with an HTTP method or status line and contains a line feed; it hands out
  all of it under the stream's key, and then holds nothing for the stream.
\<close>

theorem feed_flushes_iff:
  "snd (feed_segment t s) =
    (if seg_payload s \<noteq> [] \<and> should_flush (flush_threshold t) (pending t (seg_key s) @ seg_payload s)
     then Some (seg_key s, pending t (seg_key s) @ seg_payload s) else None)"
  by (auto simp: feed_defs Let_def split: option.split)

end
