(* ===== verification/Hexdump.thy ===== *)
theory Hexdump
  imports Utf8
begin

text \<open>
  The hexadecimal dump (\<open>netzer-core/src/hexdump.rs\<close>): rows of sixteen bytes with an offset
  column, a hexadecimal column in two groups of eight, and an ASCII column. The loop over
  \<open>data.chunks(16)\<close> is \<open>hexdump_loop\<close>; the loops inside a row are folds over its bytes.
\<close>

section \<open>Model\<close>

definition hex_columns :: "u8 list \<Rightarrow> rstr" where
  \<comment> \<open>\<open>for (i, byte) in chunk.iter().enumerate()\<close>\<close>
  "hex_columns chunk = concat (map (\<lambda>(i, byte).
     (if i = 8 then lit '' '' else []) @ fmt_hex2 byte @ lit '' '') (enumerate 0 chunk))"

definition hex_padding :: "u8 list \<Rightarrow> rstr" where
  \<comment> \<open>\<open>for i in 0..missing\<close>\<close>
  "hex_padding chunk = concat (map (\<lambda>i.
     (if length chunk + i = 8 then lit '' '' else []) @ lit ''   '') [0 ..< 16 - length chunk])"

definition is_ascii_graphic :: "u8 \<Rightarrow> bool" where
  "is_ascii_graphic b \<longleftrightarrow> 0x21 \<le> unat b \<and> unat b \<le> 0x7E"

definition ascii_column :: "u8 list \<Rightarrow> rstr" where
  "ascii_column chunk = map (\<lambda>b. if is_ascii_graphic b \<or> b = 32 then b else 46) chunk"

definition hexdump_row :: "nat \<Rightarrow> u8 list \<Rightarrow> rstr" where
  "hexdump_row offset chunk =
     lit ''  '' @ fmt_hex_pad 4 offset @ lit ''  '' @
     hex_columns chunk @ hex_padding chunk @ lit '' '' @ ascii_column chunk @ [10]"

text \<open>\<open>data.chunks(16)\<close>: successive pieces of sixteen bytes, the last one maybe shorter.\<close>

fun chunks :: "nat \<Rightarrow> 'a list \<Rightarrow> 'a list list" where
  "chunks n xs = (if n = 0 \<or> xs = [] then [] else take n xs # chunks n (drop n xs))"

declare chunks.simps [simp del]

primrec hexdump_loop :: "nat \<Rightarrow> u8 list list \<Rightarrow> rstr \<Rightarrow> rstr" where
  "hexdump_loop offset [] out = out"
| "hexdump_loop offset (chunk # cs) out =
     hexdump_loop (offset + length chunk) cs (out @ hexdump_row offset chunk)"

definition hexdump :: "u8 list \<Rightarrow> rstr" where
  "hexdump data = hexdump_loop 0 (chunks 16 data) []"

section \<open>Chunks\<close>

lemma chunks_Nil [simp]: "chunks n [] = []"
  by (simp add: chunks.simps)

lemma chunks_Cons: "\<lbrakk>xs \<noteq> []; 0 < n\<rbrakk> \<Longrightarrow> chunks n xs = take n xs # chunks n (drop n xs)"
  by (simp add: chunks.simps)

lemma concat_chunks: "0 < n \<Longrightarrow> concat (chunks n xs) = xs"
proof (induction n xs rule: chunks.induct)
  case (1 n xs)
  then show ?case by (cases "xs = []") (auto simp: chunks_Cons)
qed

lemma chunks_lengths: "c \<in> set (chunks n xs) \<Longrightarrow> 0 < length c \<and> length c \<le> n"
proof (induction n xs rule: chunks.induct)
  case (1 n xs)
  then show ?case by (cases "n = 0 \<or> xs = []") (auto simp: chunks.simps [of n xs])
qed

lemma length_chunks: "0 < n \<Longrightarrow> length (chunks n xs) = (length xs + n - 1) div n"
proof (induction n xs rule: chunks.induct)
  case (1 n xs)
  show ?case
  proof (cases "xs = []")
    case True
    with 1 show ?thesis by simp
  next
    case False
    have "length (chunks n xs) = Suc ((length (drop n xs) + n - 1) div n)"
      using 1 False by (simp add: chunks_Cons)
    also have "\<dots> = (length xs + n - 1) div n"
    proof (cases "n \<le> length xs")
      case True
      then have "length xs + n - 1 = (length (drop n xs) + n - 1) + n" using "1.prems" by simp
      then show ?thesis using "1.prems" by (simp only: div_add_self2)
    next
      case short: False
      have "length xs + n - 1 = (length xs - 1) + n" using False by (cases xs) auto
      moreover have "(length xs - 1) div n = 0" using short by simp
      moreover have "length (drop n xs) + n - 1 = n - 1" "(n - 1) div n = 0"
        using short "1.prems" by simp_all
      ultimately show ?thesis using "1.prems" by (simp only: div_add_self2)
    qed
    finally show ?thesis .
  qed
qed

section \<open>Rows\<close>

text \<open>The sixteen cells of the hexadecimal area, the ninth preceded by the gap.\<close>

definition gap :: "nat \<Rightarrow> rstr" where
  "gap j = (if j = 8 then lit '' '' else [])"

definition cell :: "u8 list \<Rightarrow> nat \<Rightarrow> rstr" where
  "cell chunk j = gap j @ (if j < length chunk then fmt_hex2 (chunk ! j) @ lit '' '' else lit ''   '')"

lemma enumerate_0_eq: "enumerate 0 xs = map (\<lambda>i. (i, xs ! i)) [0 ..< length xs]"
  by (rule nth_equalityI) (auto simp: nth_enumerate_eq)

lemma hex_columns_eq: "hex_columns chunk = concat (map (cell chunk) [0 ..< length chunk])"
  by (auto simp: hex_columns_def enumerate_0_eq cell_def gap_def intro!: arg_cong [of _ _ concat])

lemma hex_padding_eq:
  assumes "length chunk \<le> 16"
  shows "hex_padding chunk = concat (map (cell chunk) [length chunk ..< 16])"
proof -
  have "[length chunk ..< 16] = map (\<lambda>i. length chunk + i) [0 ..< 16 - length chunk]"
    using assms by (intro nth_equalityI) auto
  then show ?thesis
    by (simp add: hex_padding_def cell_def gap_def comp_def add.commute)
qed

lemma hex_area_eq:
  assumes "length chunk \<le> 16"
  shows "hex_columns chunk @ hex_padding chunk = concat (map (cell chunk) [0 ..< 16])"
proof -
  have "[0 ..< 16] = [0 ..< length chunk] @ [length chunk ..< 16]"
    using assms upt_add_eq_append [of 0 "length chunk" "16 - length chunk"] by simp
  then show ?thesis by (simp only: hex_columns_eq hex_padding_eq [OF assms] map_append concat_append)
qed

lemma length_cell: "length (cell chunk j) = (if j = 8 then 4 else 3)"
  by (simp add: cell_def gap_def)

lemma length_hex_area:
  "length chunk \<le> 16 \<Longrightarrow> length (hex_columns chunk @ hex_padding chunk) = 49"
  by (simp only: hex_area_eq length_concat map_map comp_def length_cell) (simp add: upt_conv_Cons)

lemma hexdump_loop_append: "hexdump_loop offset cs out = out @ hexdump_loop offset cs []"
proof (induction cs arbitrary: offset out)
  case (Cons c cs)
  show ?case
    using Cons.IH [of "offset + length c" "out @ hexdump_row offset c"]
      Cons.IH [of "offset + length c" "hexdump_row offset c"] by simp
qed simp

lemma hexdump_loop_Cons:
  "hexdump_loop offset (c # cs) [] = hexdump_row offset c @ hexdump_loop (offset + length c) cs []"
  using hexdump_loop_append [of "offset + length c" cs "hexdump_row offset c"] by simp

section \<open>Printable output\<close>

definition printable :: "u8 \<Rightarrow> bool" where
  "printable b \<longleftrightarrow> 0x20 \<le> unat b \<and> unat b \<le> 0x7E"

lemma printable_hex_digit: "n < 16 \<Longrightarrow> printable (hex_digit n)"
  by (simp add: printable_def hex_digit_def unat_word_ariths unat_of_nat)

lemma printable_hex_digits: "list_all printable (hex_digits n)"
proof (induction n rule: hex_digits.induct)
  case (1 n)
  then show ?case
    by (cases "n < 16") (simp_all add: hex_digits.simps [of n] printable_hex_digit)
qed

lemma list_all_concat_map: "list_all P (concat (map f xs)) \<longleftrightarrow> list_all (\<lambda>x. list_all P (f x)) xs"
  by (induction xs) auto

lemma printable_numerals [simp]: "printable 32" "printable 46" "printable 48"
  by (simp_all add: printable_def)

lemma list_all_replicate: "P x \<Longrightarrow> list_all P (replicate n x)"
  by (induction n) auto

lemma printable_fmt_hex_pad: "list_all printable (fmt_hex_pad w n)"
  by (simp add: fmt_hex_pad_def printable_hex_digits list_all_replicate)

lemma printable_cell: "list_all printable (cell chunk j)"
  by (simp add: cell_def gap_def fmt_hex2_def printable_fmt_hex_pad lit_def)

lemma printable_ascii: "list_all printable (ascii_column chunk)"
  by (auto simp: ascii_column_def list_all_iff printable_def is_ascii_graphic_def)

lemma hexdump_row_eq:
  assumes "length chunk \<le> 16"
  shows "hexdump_row offset chunk = lit ''  '' @ fmt_hex_pad 4 offset @ lit ''  '' @
    concat (map (cell chunk) [0 ..< 16]) @ lit '' '' @ ascii_column chunk @ [10]"
  using hex_area_eq [OF assms] by (simp add: hexdump_row_def)

lemma hexdump_row_line:
  assumes "length chunk \<le> 16"
  obtains l where "hexdump_row offset chunk = l @ [10]" "list_all printable l"
proof
  let ?l = "lit ''  '' @ fmt_hex_pad 4 offset @ lit ''  '' @ concat (map (cell chunk) [0 ..< 16]) @
    lit '' '' @ ascii_column chunk"
  show "hexdump_row offset chunk = ?l @ [10]" by (simp add: hexdump_row_eq [OF assms])
  show "list_all printable ?l"
    by (simp only: list_all_append list_all_concat_map printable_cell printable_ascii
        printable_fmt_hex_pad) (simp add: lit_def list_all_iff)
qed

section \<open>Specification: reading a dump back\<close>

function lines_of :: "rstr \<Rightarrow> rstr list" where
  "lines_of s = (if s = [] then [] else takeWhile (\<lambda>c. c \<noteq> 10) s # lines_of (drop 1 (dropWhile (\<lambda>c. c \<noteq> 10) s)))"
  by pat_completeness auto
termination
proof (relation "measure length")
  fix s :: rstr assume "s \<noteq> []"
  then have "length (dropWhile (\<lambda>c. c \<noteq> 10) s) - 1 < length s"
    using length_dropWhile_le [of "\<lambda>c. c \<noteq> 10" s] by (cases s) auto
  then show "(drop 1 (dropWhile (\<lambda>c. c \<noteq> 10) s), s) \<in> measure length" by simp
qed simp

declare lines_of.simps [simp del]

fun read_cells :: "nat list \<Rightarrow> rstr \<Rightarrow> u8 list" where
  "read_cells [] s = []"
| "read_cells (j # js) s =
    (case (if j = 8 then drop 1 s else s) of
       a # b # c # s' \<Rightarrow>
         if a = 32 then [] else of_nat (16 * hex_val a + hex_val b) # read_cells js s'
     | _ \<Rightarrow> [])"

definition read_row :: "rstr \<Rightarrow> u8 list" where
  \<comment> \<open>skip the offset column, then read the sixteen cells\<close>
  "read_row l = read_cells [0 ..< 16] (drop 2 (dropWhile (\<lambda>c. c \<noteq> 32) (drop 2 l)))"

definition read_dump :: "rstr \<Rightarrow> u8 list" where
  "read_dump s = concat (map read_row (lines_of s))"

lemma hex_digit_not_space: "n < 16 \<Longrightarrow> hex_digit n \<noteq> 32"
  by (auto simp: hex_digit_def word_unat_eq_iff unat_word_ariths unat_of_nat split: if_splits)

lemma hex2_value: "of_nat (16 * hex_val (hex_digit (unat b div 16)) + hex_val (hex_digit (unat b mod 16))) = (b :: u8)"
  using unat_u8_less [of b] by (simp add: less_mult_imp_div_less)

lemma read_cells_step:
  "read_cells (j # js) (cell chunk j @ t) =
    (if j < length chunk then chunk ! j # read_cells js t else [])"
proof (cases "j < length chunk")
  case True
  have "unat (chunk ! j) div 16 < 16"
    using unat_u8_less [of "chunk ! j"] by (simp add: less_mult_imp_div_less)
  then obtain x y where "fmt_hex2 (chunk ! j) = [x, y]" "x \<noteq> 32"
      "of_nat (16 * hex_val x + hex_val y) = chunk ! j"
    using hex2_value hex_digit_not_space fmt_hex2_eq by blast
  then show ?thesis using True by (simp add: cell_def gap_def lit_def)
next
  case False
  then show ?thesis by (simp add: cell_def gap_def lit_def)
qed

lemma read_cells_correct:
  assumes "length chunk \<le> 16" "k \<le> 16"
  shows "read_cells [k ..< 16] (concat (map (cell chunk) [k ..< 16]) @ t) = drop k chunk"
  using assms(2)
proof (induction "16 - k" arbitrary: k)
  case 0
  then show ?case using assms(1) by simp
next
  case (Suc n)
  then have k: "k < 16" "n = 16 - Suc k" by simp_all
  then have IH: "read_cells [Suc k ..< 16] (concat (map (cell chunk) [Suc k ..< 16]) @ t) = drop (Suc k) chunk"
    using Suc.hyps(1) by simp
  have "read_cells [k ..< 16] (concat (map (cell chunk) [k ..< 16]) @ t) =
    read_cells (k # [Suc k ..< 16]) (cell chunk k @ concat (map (cell chunk) [Suc k ..< 16]) @ t)"
    using k by (simp add: upt_conv_Cons)
  also have "\<dots> = (if k < length chunk then chunk ! k # drop (Suc k) chunk else [])"
    by (simp only: read_cells_step IH)
  also have "\<dots> = drop k chunk" by (simp add: Cons_nth_drop_Suc)
  finally show ?case .
qed

lemma dropWhile_no_space: "list_all (\<lambda>c. c \<noteq> 32) xs \<Longrightarrow> dropWhile (\<lambda>c. c \<noteq> 32) (xs @ 32 # t) = 32 # t"
  by (induction xs) auto

lemma hex_digits_no_space: "list_all (\<lambda>c. c \<noteq> 32) (hex_digits n)"
proof (induction n rule: hex_digits.induct)
  case (1 n)
  then show ?case
    by (cases "n < 16") (simp_all add: hex_digits.simps [of n] hex_digit_not_space)
qed

lemma fmt_hex_pad_no_space: "list_all (\<lambda>c. c \<noteq> 32) (fmt_hex_pad w n)"
  by (simp add: fmt_hex_pad_def hex_digits_no_space list_all_replicate)

lemma read_row_correct:
  assumes "length chunk \<le> 16"
  shows "read_row (butlast (hexdump_row offset chunk)) = chunk"
proof -
  have "butlast (hexdump_row offset chunk) = 32 # 32 # fmt_hex_pad 4 offset @ 32 # 32 #
      concat (map (cell chunk) [0 ..< 16]) @ lit '' '' @ ascii_column chunk"
    using assms by (simp add: hexdump_row_eq lit_def butlast_append)
  then show ?thesis
    using read_cells_correct [OF assms, of 0]
    by (simp add: read_row_def dropWhile_no_space [OF fmt_hex_pad_no_space])
qed

lemma lines_of_Cons:
  assumes "list_all printable l"
  shows "lines_of (l @ 10 # t) = l # lines_of t"
proof -
  have "\<forall>c \<in> set l. c \<noteq> 10" using assms by (auto simp: list_all_iff printable_def)
  then show ?thesis
    by (subst lines_of.simps) (simp add: takeWhile_append2 dropWhile_append2)
qed

lemma read_dump_loop:
  assumes "\<forall>c \<in> set cs. length c \<le> 16"
  shows "read_dump (hexdump_loop offset cs []) = concat cs"
  using assms
proof (induction cs arbitrary: offset)
  case Nil
  show ?case by (simp add: read_dump_def lines_of.simps)
next
  case (Cons c cs)
  then have c: "length c \<le> 16" by simp
  obtain l where l: "hexdump_row offset c = l @ [10]" "list_all printable l"
    using hexdump_row_line [OF c] .
  have "read_row l = c" using read_row_correct [OF c, of offset] l(1) by simp
  moreover have "hexdump_loop offset (c # cs) [] = l @ 10 # hexdump_loop (offset + length c) cs []"
    by (simp only: hexdump_loop_Cons l(1)) simp
  ultimately show ?case
    using Cons.IH [of "offset + length c"] Cons.prems l(2)
    by (simp add: lines_of_Cons read_dump_def del: hexdump_loop.simps)
qed

section \<open>Rows at their offsets\<close>

lemma hexdump_loop_rows:
  "hexdump_loop (16 * k) (chunks 16 data) [] =
    concat (map (\<lambda>i. hexdump_row (16 * (k + i)) (take 16 (drop (16 * i) data))) [0 ..< (length data + 15) div 16])"
proof (induction data arbitrary: k rule: length_induct)
  case (1 data)
  show ?case
  proof (cases "data = []")
    case False
    let ?n = "\<lambda>d. (length d + 15) div 16"
    let ?row = "\<lambda>k d i. hexdump_row (16 * (k + i)) (take 16 (drop (16 * i) d))"
    have n: "?n data = Suc (?n (drop 16 data))"
      using length_chunks [of 16 data] length_chunks [of 16 "drop 16 data"] False
      by (simp add: chunks_Cons add.commute)
    have IH: "hexdump_loop (16 * Suc k) (chunks 16 (drop 16 data)) [] =
        concat (map (?row (Suc k) (drop 16 data)) [0 ..< ?n (drop 16 data)])"
    proof -
      have "length (drop 16 data) < length data" using False by simp
      then show ?thesis using 1 by blast
    qed
    have off: "hexdump_loop (16 * k + length (take 16 data)) (chunks 16 (drop 16 data)) [] =
        hexdump_loop (16 * Suc k) (chunks 16 (drop 16 data)) []"
      by (cases "16 \<le> length data") (simp_all add: min_def add.commute)
    have rows: "map (?row k data) [0 ..< ?n data] = ?row k data 0 # map (?row (Suc k) (drop 16 data)) [0 ..< ?n (drop 16 data)]"
      unfolding n by (simp add: upt_conv_Cons map_Suc_upt [symmetric] comp_def ac_simps del: upt_Suc)
    have "chunks 16 data = take 16 data # chunks 16 (drop 16 data)" by (rule chunks_Cons [OF False]) simp
    then show ?thesis by (simp only: rows hexdump_loop_Cons off IH) simp
  qed simp
qed

section \<open>Properties\<close>

text \<open>
  C36: the dump is lossless: reading the hexadecimal cells of its lines gives back the bytes of
  the packet, for every length, partial last row included.
\<close>

theorem hexdump_roundtrip: "read_dump (hexdump data) = data"
  using read_dump_loop [of "chunks 16 data" 0] chunks_lengths [of _ 16 data]
  by (auto simp: hexdump_def concat_chunks)

text \<open>
  Row \<open>i\<close> of the dump shows the bytes from \<open>16 * i\<close> under the offset \<open>16 * i\<close>; there is a
  row for every sixteen bytes begun, and the hexadecimal area of each row is 49 characters wide,
  so that the ASCII columns of all rows line up.
\<close>

theorem hexdump_rows:
  "hexdump data = concat (map (\<lambda>i. hexdump_row (16 * i) (take 16 (drop (16 * i) data)))
      [0 ..< (length data + 15) div 16]) \<and>
    length (hex_columns (take 16 (drop (16 * i) data)) @ hex_padding (take 16 (drop (16 * i) data))) = 49"
  using hexdump_loop_rows [of 0 data] length_hex_area [of "take 16 (drop (16 * i) data)"]
  by (simp add: hexdump_def)

text \<open>
  Whatever bytes the packet holds, the dump consists of printable ASCII characters and the
  line feeds that end its rows, so it cannot carry control sequences to the terminal.
\<close>

theorem hexdump_printable: "list_all (\<lambda>c. printable c \<or> c = 10) (hexdump data)"
proof -
  have row: "list_all (\<lambda>c. printable c \<or> c = 10) (hexdump_row offset c)" if c: "length c \<le> 16" for offset c
  proof -
    obtain l where "hexdump_row offset c = l @ [10]" "list_all printable l"
      using hexdump_row_line [OF c] .
    then show ?thesis by (simp add: list_all_iff)
  qed
  show ?thesis
    using hexdump_loop_rows [of 0 data] by (simp add: hexdump_def list_all_concat_map row list.pred_True)
qed

end
