(* ===== verification/Strings.thy ===== *)
theory Strings
  imports Utf8
begin

text \<open>
  More of Rust's string library, as the command line program uses it: the white space of
  \<open>trim_start\<close> and \<open>split_whitespace\<close> (the Unicode property \<open>White_Space\<close>), \<open>splitn\<close> and
  \<open>join\<close>, \<open>replace\<close> of one character, and the padding of \<open>{:<n}\<close>, which counts characters.
\<close>

section \<open>Characters\<close>

definition code_point :: "rstr \<Rightarrow> nat" where
  \<comment> \<open>the scalar value of the first character of a well-formed string\<close>
  "code_point s =
    (let x = byte_at s 0; y = byte_at s 1 - 0x80; z = byte_at s 2 - 0x80; w = byte_at s 3 - 0x80 in
     if x < 0x80 then x
     else if x < 0xE0 then (x - 0xC0) * 64 + y
     else if x < 0xF0 then ((x - 0xE0) * 64 + y) * 64 + z
     else (((x - 0xF0) * 64 + y) * 64 + z) * 64 + w)"

definition is_whitespace :: "nat \<Rightarrow> bool" where
  "is_whitespace c \<longleftrightarrow> 9 \<le> c \<and> c \<le> 13 \<or> c \<in> {0x20, 0x85, 0xA0, 0x1680} \<or> 0x2000 \<le> c \<and> c \<le> 0x200A \<or>
     c \<in> {0x2028, 0x2029, 0x202F, 0x205F, 0x3000}"

definition char_count :: "rstr \<Rightarrow> nat" where
  "char_count s = length (char_starts s)"

definition pad_right :: "nat \<Rightarrow> rstr \<Rightarrow> rstr" where
  \<comment> \<open>\<open>format!("{:<n}", s)\<close>\<close>
  "pad_right n s = s @ replicate (n - char_count s) 32"

section \<open>Splitting\<close>

fun trim_start :: "rstr \<Rightarrow> rstr" where
  "trim_start [] = []"
| "trim_start (b # s) =
    (if is_whitespace (code_point (b # s)) then trim_start (drop (snd (utf8_step (b # s)) - 1) s) else b # s)"

fun split_ws :: "rstr \<Rightarrow> rstr \<Rightarrow> rstr list" where
  "split_ws cur [] = (if cur = [] then [] else [cur])"
| "split_ws cur (b # s) =
    (let n = snd (utf8_step (b # s)); rest = drop (n - 1) s in
     if is_whitespace (code_point (b # s)) then (if cur = [] then [] else [cur]) @ split_ws [] rest
     else split_ws (cur @ take n (b # s)) rest)"

definition split_whitespace :: "rstr \<Rightarrow> rstr list" where
  "split_whitespace s = split_ws [] s"

fun splitn :: "nat \<Rightarrow> u8 \<Rightarrow> rstr \<Rightarrow> rstr list" where
  "splitn 0 c s = []"
| "splitn (Suc 0) c s = [s]"
| "splitn (Suc (Suc n)) c s =
    (if c \<in> set s
     then takeWhile (\<lambda>x. x \<noteq> c) s # splitn (Suc n) c (tl (dropWhile (\<lambda>x. x \<noteq> c) s))
     else [s])"

fun join :: "rstr \<Rightarrow> rstr list \<Rightarrow> rstr" where
  "join sep [] = []"
| "join sep [p] = p"
| "join sep (p # ps) = p @ sep @ join sep ps"

definition replace_byte :: "u8 \<Rightarrow> rstr \<Rightarrow> rstr \<Rightarrow> rstr" where
  \<comment> \<open>\<open>s.replace(c, r)\<close> for an ASCII character, which is a byte of its own in UTF-8\<close>
  "replace_byte c r s = concat (map (\<lambda>b. if b = c then r else [b]) s)"

section \<open>Facts\<close>

lemma join_Cons: "ps \<noteq> [] \<Longrightarrow> join sep (p # ps) = p @ sep @ join sep ps"
  by (cases ps) simp_all

lemma splitn_nonempty: "0 < n \<Longrightarrow> splitn n c s \<noteq> []"
  by (cases "(n, c, s)" rule: splitn.cases) auto

lemma takeWhile_sep: "c \<in> set s \<Longrightarrow> takeWhile (\<lambda>x. x \<noteq> c) s @ c # tl (dropWhile (\<lambda>x. x \<noteq> c) s) = s"
  by (induction s) auto

text \<open>Splitting at a separator loses nothing: joining the pieces gives the string back.\<close>

lemma join_splitn: "0 < n \<Longrightarrow> join [c] (splitn n c s) = s"
  by (induction n c s rule: splitn.induct) (simp_all add: join_Cons splitn_nonempty takeWhile_sep)

lemma length_splitn: "2 \<le> n \<Longrightarrow> 2 \<le> length (splitn n c s) \<longleftrightarrow> c \<in> set s"
proof (induction n c s rule: splitn.induct)
  case (3 n c s)
  have "0 < length (splitn (Suc n) c t)" for t
    using splitn_nonempty [of "Suc n" c t] by simp
  then show ?case by (simp add: Suc_le_eq)
qed simp_all

lemma join_tl_splitn:
  assumes "2 \<le> n" "c \<in> set s"
  shows "join [c] (tl (splitn n c s)) = tl (dropWhile (\<lambda>x. x \<noteq> c) s)"
proof -
  have n: "n = Suc (Suc (n - 2))" using assms(1) by simp
  show ?thesis
    by (subst n) (simp only: splitn.simps assms(2) if_True list.sel join_splitn zero_less_Suc)
qed

lemma replace_byte_append [simp]: "replace_byte c r (s @ t) = replace_byte c r s @ replace_byte c r t"
  by (simp add: replace_byte_def)

lemma replace_byte_Nil [simp]: "replace_byte c r [] = []"
  by (simp add: replace_byte_def)

lemma replace_byte_Cons: "replace_byte c r (b # s) = (if b = c then r else [b]) @ replace_byte c r s"
  by (simp add: replace_byte_def)

lemma ascii_byte_not_cont: "list_all is_ascii s \<Longrightarrow> \<not> is_cont (byte_at s i)"
  by (cases "i < length s") (simp_all add: byte_at_def is_cont_def is_ascii_def list_all_length not_le)

lemma char_starts_ascii: "list_all is_ascii s \<Longrightarrow> char_starts s = [0 ..< length s]"
  by (simp add: char_starts_def ascii_byte_not_cont)

lemma char_count_ascii [simp]: "list_all is_ascii s \<Longrightarrow> char_count s = length s"
  by (simp add: char_count_def char_starts_ascii)

lemma char_count_le: "char_count s \<le> length s"
  using length_filter_le [of _ "[0 ..< length s]"] by (simp add: char_count_def char_starts_def)

text \<open>Visible ASCII characters, which no splitting function cuts at, and ASCII spaces.\<close>

definition visible :: "u8 \<Rightarrow> bool" where
  "visible b \<longleftrightarrow> 33 \<le> unat b \<and> unat b \<le> 126"

lemma visible_ascii: "visible b \<Longrightarrow> is_ascii b"
  by (simp add: visible_def is_ascii_def)

lemma code_point_ascii: "is_ascii b \<Longrightarrow> code_point (b # s) = unat b"
  by (simp add: code_point_def is_ascii_def byte_at_def)

lemma visible_not_whitespace: "visible b \<Longrightarrow> \<not> is_whitespace (code_point (b # s))"
  by (simp add: code_point_ascii visible_ascii) (auto simp: visible_def is_whitespace_def)

lemma space_whitespace: "is_whitespace (code_point (32 # s))"
  by (simp add: code_point_ascii is_ascii_def is_whitespace_def)

lemma trim_start_visible: "visible b \<Longrightarrow> trim_start (b # s) = b # s"
  by (simp add: visible_not_whitespace)

lemma split_ws_token:
  "list_all visible tok \<Longrightarrow> split_ws cur (tok @ 32 # s) = (if cur @ tok = [] then [] else [cur @ tok]) @ split_ws [] s"
proof (induction tok arbitrary: cur)
  case Nil
  have "utf8_step (32 # s) = (True, 1)" by (rule utf8_step_ascii) (simp add: is_ascii_def)
  then show ?case by (simp add: space_whitespace)
next
  case (Cons b tok)
  have "utf8_step (b # tok @ 32 # s) = (True, 1)"
    using Cons.prems by (intro utf8_step_ascii) (simp add: visible_ascii)
  then show ?case using Cons by (simp add: visible_not_whitespace)
qed

end
