(* ===== verification/Export.thy ===== *)
theory Export
  imports Strings
begin

text \<open>
  The export formats of the command line program (\<open>netzer-cli/src/main.rs\<close>, lines 69 to 205):
  the pcap file of \<open>PcapWriter\<close>, the JSON lines of \<open>JsonWriter\<close> and of the web messages, and
  the text helpers \<open>truncate\<close>, \<open>escape_json\<close> and \<open>to_hex_string\<close>. A file is the bytes written
  to it; what a write achieves is up to the disk, a parameter: \<open>None\<close> when all is written,
  \<open>Some k\<close> when the call fails after \<open>k\<close> bytes.
\<close>

section \<open>Files\<close>

type_synonym disk = "u8 list \<Rightarrow> u8 list \<Rightarrow> nat option"

definition write_all :: "disk \<Rightarrow> u8 list \<Rightarrow> u8 list \<Rightarrow> u8 list \<times> bool" where
  \<comment> \<open>the file after the call, and whether the call returned \<open>Ok\<close>\<close>
  "write_all disk file data =
    (case disk file data of
       None \<Rightarrow> (file @ data, True)
     | Some k \<Rightarrow> (file @ take k data, False))"

text \<open>\<open>header[a..b].copy_from_slice(bytes)\<close>, which panics unless the lengths agree.\<close>

definition copy_into :: "'a list \<Rightarrow> nat \<Rightarrow> nat \<Rightarrow> 'a list \<Rightarrow> 'a list option" where
  "copy_into xs a b ys =
    (if a \<le> b \<and> b \<le> length xs \<and> length ys = b - a then Some (take a xs @ ys @ drop b xs) else None)"

section \<open>The pcap writer\<close>

record PcapWriter =
  pcap_file :: "u8 list"

definition pcap_header :: "bool \<Rightarrow> u8 list option" where
  "pcap_header big = do {
     let header = replicate 24 0;
     header \<leftarrow> copy_into header 0 4 (to_ne_bytes big (0xa1b2c3d4 :: u32));
     header \<leftarrow> copy_into header 4 6 (to_ne_bytes big (2 :: u16));
     header \<leftarrow> copy_into header 6 8 (to_ne_bytes big (4 :: u16));
     header \<leftarrow> copy_into header 16 20 (to_ne_bytes big (65535 :: u32));
     copy_into header 20 24 (to_ne_bytes big (1 :: u32))
   }"

text \<open>
  \<open>create\<close>: the outer option is the panic, \<open>Inl ()\<close> an \<open>Err\<close>. The flag \<open>opened\<close> is the result
  of \<open>File::create\<close>.
\<close>

definition PcapWriter_create :: "bool \<Rightarrow> disk \<Rightarrow> bool \<Rightarrow> (unit + PcapWriter) option" where
  "PcapWriter_create big disk opened =
    (if \<not> opened then Some (Inl ())
     else do {
       header \<leftarrow> pcap_header big;
       let (file, ok) = write_all disk [] header;
       Some (if ok then Inr \<lparr>pcap_file = file\<rparr> else Inl ())
     })"

text \<open>
  \<open>write_packet\<close> at a time given as seconds and microseconds since the epoch, or \<open>None\<close> when
  the clock stands before the epoch. It returns the writer and whether the result is \<open>Ok\<close>.
\<close>

definition record_header :: "bool \<Rightarrow> (u64 \<times> u32) option \<Rightarrow> u8 list \<Rightarrow> u8 list option" where
  "record_header big now data = do {
     let (secs, micros) = (case now of None \<Rightarrow> (0, 0) | Some d \<Rightarrow> d);
     let sec = (ucast secs :: u32);
     let usec = micros;
     let len = (of_nat (length data) :: u32);
     let header = replicate 16 0;
     header \<leftarrow> copy_into header 0 4 (to_ne_bytes big sec);
     header \<leftarrow> copy_into header 4 8 (to_ne_bytes big usec);
     header \<leftarrow> copy_into header 8 12 (to_ne_bytes big len);
     copy_into header 12 16 (to_ne_bytes big len)
   }"

definition PcapWriter_write_packet ::
  "bool \<Rightarrow> disk \<Rightarrow> (u64 \<times> u32) option \<Rightarrow> PcapWriter \<Rightarrow> u8 list \<Rightarrow> (PcapWriter \<times> bool) option" where
  "PcapWriter_write_packet big disk now w data = do {
     header \<leftarrow> record_header big now data;
     let (file, ok) = write_all disk (pcap_file w) header;
     if \<not> ok then Some (w\<lparr>pcap_file := file\<rparr>, False)
     else let (file, ok) = write_all disk file data in Some (w\<lparr>pcap_file := file\<rparr>, ok)
   }"

section \<open>JSON lines and text helpers\<close>

definition escape_json :: "rstr \<Rightarrow> rstr" where
  "escape_json s = replace_byte 34 [92, 34] (replace_byte 92 [92, 92] s)"

record JsonWriter =
  json_file :: "u8 list"

definition JsonWriter_create :: "bool \<Rightarrow> unit + JsonWriter" where
  "JsonWriter_create opened = (if opened then Inr \<lparr>json_file = []\<rparr> else Inl ())"

text \<open>The part that a JSON line and a web message have in common, up to the size.\<close>

definition json_fields :: "rstr \<Rightarrow> rstr \<Rightarrow> rstr \<Rightarrow> rstr \<Rightarrow> rstr \<Rightarrow> nat \<Rightarrow> rstr" where
  "json_fields time proto src dst info sz =
     lit ''{\"timestamp\":\"'' @ escape_json time @ lit ''\",\"proto\":\"'' @ escape_json proto @
     lit ''\",\"src\":\"'' @ escape_json src @ lit ''\",\"dst\":\"'' @ escape_json dst @
     lit ''\",\"info\":\"'' @ escape_json info @ lit ''\",\"size\":'' @ fmt_dec sz"

definition json_line :: "rstr \<Rightarrow> rstr \<Rightarrow> rstr \<Rightarrow> rstr \<Rightarrow> rstr \<Rightarrow> nat \<Rightarrow> rstr" where
  "json_line time proto src dst info sz = json_fields time proto src dst info sz @ lit ''}'' @ [10]"

definition JsonWriter_write_packet ::
  "disk \<Rightarrow> JsonWriter \<Rightarrow> rstr \<Rightarrow> rstr \<Rightarrow> rstr \<Rightarrow> rstr \<Rightarrow> rstr \<Rightarrow> nat \<Rightarrow> JsonWriter \<times> bool" where
  "JsonWriter_write_packet disk w time proto src dst info sz =
    (let (file, ok) = write_all disk (json_file w) (json_line time proto src dst info sz)
     in (w\<lparr>json_file := file\<rparr>, ok))"

definition truncate_str :: "rstr \<Rightarrow> nat \<Rightarrow> rstr option" where
  \<comment> \<open>\<open>truncate\<close>; \<open>idx - 3\<close> below zero panics, or wraps and makes the slice panic\<close>
  "truncate_str s max_chars =
    (case char_indices_nth s max_chars of
       None \<Rightarrow> Some s
     | Some idx \<Rightarrow>
         if idx < 3 then None
         else do { p \<leftarrow> str_slice_to s (idx - 3); Some (p @ lit ''...'') })"

definition to_hex_string :: "u8 list \<Rightarrow> rstr" where
  "to_hex_string bytes = (let limit = min (length bytes) 256 in concat (map fmt_hex2 (take limit bytes)))"

section \<open>Headers\<close>

lemma pcap_header_eq:
  "pcap_header big = Some (to_ne_bytes big (0xa1b2c3d4 :: u32) @ to_ne_bytes big (2 :: u16) @
     to_ne_bytes big (4 :: u16) @ replicate 8 0 @ to_ne_bytes big (65535 :: u32) @ to_ne_bytes big (1 :: u32))"
  by (simp add: pcap_header_def copy_into_def)

lemma record_header_eq:
  "record_header big now data = Some
    (let (secs, micros) = (case now of None \<Rightarrow> (0, 0) | Some d \<Rightarrow> d); len = (of_nat (length data) :: u32)
     in to_ne_bytes big (ucast secs :: u32) @ to_ne_bytes big micros @ to_ne_bytes big len @ to_ne_bytes big len)"
  by (cases now) (auto simp: record_header_def copy_into_def Let_def)

section \<open>Specification: a pcap reader\<close>

text \<open>A reader of classic pcap files in the byte order of the machine: seconds, microseconds, bytes.\<close>

function read_records :: "bool \<Rightarrow> u8 list \<Rightarrow> (u32 \<times> u32 \<times> u8 list) list option" where
  "read_records big bs =
    (if bs = [] then Some []
     else if length bs < 16 then None
     else
       let sec = from_ne_bytes big (take 4 bs);
           usec = from_ne_bytes big (take 4 (drop 4 bs));
           caplen = unat (from_ne_bytes big (take 4 (drop 8 bs)) :: u32)
       in if length bs < 16 + caplen then None
          else map_option ((#) (sec, usec, take caplen (drop 16 bs))) (read_records big (drop (16 + caplen) bs)))"
  by pat_completeness auto
termination by (relation "measure (\<lambda>(big, bs). length bs)") auto

declare read_records.simps [simp del]

definition read_pcap :: "bool \<Rightarrow> u8 list \<Rightarrow> (u32 \<times> u32 \<times> u8 list) list option" where
  "read_pcap big bs =
    (if 24 \<le> length bs \<and> from_ne_bytes big (take 4 bs) = (0xa1b2c3d4 :: u32) \<and>
        from_ne_bytes big (take 2 (drop 4 bs)) = (2 :: u16) \<and> from_ne_bytes big (take 2 (drop 6 bs)) = (4 :: u16) \<and>
        from_ne_bytes big (take 4 (drop 20 bs)) = (1 :: u32)
     then read_records big (drop 24 bs) else None)"

text \<open>A session of the writer: create the file, then one record per packet, errors ignored.\<close>

definition pcap_step :: "bool \<Rightarrow> disk \<Rightarrow> PcapWriter option \<Rightarrow> (u64 \<times> u32) option \<times> u8 list \<Rightarrow> PcapWriter option" where
  "pcap_step big disk w p =
    do { w \<leftarrow> w; (w, ok) \<leftarrow> PcapWriter_write_packet big disk (fst p) w (snd p); Some w }"

definition pcap_session :: "bool \<Rightarrow> disk \<Rightarrow> ((u64 \<times> u32) option \<times> u8 list) list \<Rightarrow> PcapWriter option" where
  "pcap_session big disk ps =
    (case PcapWriter_create big disk True of
       Some (Inr w) \<Rightarrow> foldl (pcap_step big disk) (Some w) ps
     | _ \<Rightarrow> None)"

text \<open>What the reader should find for a packet.\<close>

fun pcap_entry :: "(u64 \<times> u32) option \<times> u8 list \<Rightarrow> u32 \<times> u32 \<times> u8 list" where
  "pcap_entry (None, data) = (0, 0, data)"
| "pcap_entry (Some (secs, micros), data) = (ucast secs, micros, data)"

definition pcap_record :: "bool \<Rightarrow> (u64 \<times> u32) option \<times> u8 list \<Rightarrow> u8 list" where
  "pcap_record big p = the (record_header big (fst p) (snd p)) @ snd p"

lemma read_records_record:
  assumes "length (snd p) < 2 ^ 32"
  shows "read_records big (pcap_record big p @ rest) = map_option ((#) (pcap_entry p)) (read_records big rest)"
proof -
  obtain now data where p: "p = (now, data)" by fastforce
  obtain secs micros where t: "(case now of None \<Rightarrow> (0, 0) | Some d \<Rightarrow> d) = (secs, micros)" by fastforce
  have entry: "pcap_entry p = (ucast secs, micros, data)"
    using t unfolding p by (cases now) auto
  have rec: "pcap_record big p @ rest = to_ne_bytes big (ucast secs :: u32) @ to_ne_bytes big micros @
      to_ne_bytes big (of_nat (length data) :: u32) @ to_ne_bytes big (of_nat (length data) :: u32) @ data @ rest"
    unfolding p pcap_record_def record_header_eq by (simp add: t Let_def)
  have len: "unat (of_nat (length data) :: u32) = length data"
    using assms by (simp add: p unat_of_nat)
  have "pcap_record big p @ rest \<noteq> []" unfolding rec by simp
  then show ?thesis
    unfolding read_records.simps [of big "pcap_record big p @ rest"]
    unfolding rec by (simp add: len entry Let_def)
qed

lemma write_packet_full_disk:
  "PcapWriter_write_packet big (\<lambda>_ _. None) now w data =
    Some (w\<lparr>pcap_file := pcap_file w @ pcap_record big (now, data)\<rparr>, True)"
  by (simp add: PcapWriter_write_packet_def pcap_record_def record_header_eq write_all_def Let_def)

lemma pcap_steps_full_disk:
  "foldl (pcap_step big (\<lambda>_ _. None)) (Some w) ps =
    Some (w\<lparr>pcap_file := pcap_file w @ concat (map (pcap_record big) ps)\<rparr>)"
  by (induction ps arbitrary: w) (simp_all add: pcap_step_def write_packet_full_disk)

lemma read_records_all:
  "list_all (\<lambda>p. length (snd p) < 2 ^ 32) ps \<Longrightarrow>
    read_records big (concat (map (pcap_record big) ps)) = Some (map pcap_entry ps)"
  by (induction ps) (simp_all add: read_records_record read_records.simps [of big "[]"])

section \<open>Specification: a JSON reader\<close>

text \<open>
  The rest of a JSON string after its opening quote, and what follows the closing one: no raw
  control character, and the two-character escapes (the writer produces no other).
\<close>

fun simple_escape :: "u8 \<Rightarrow> u8 option" where
  "simple_escape c =
    (if c = 34 then Some 34 else if c = 92 then Some 92 else if c = 47 then Some 47
     else if c = 98 then Some 8 else if c = 102 then Some 12 else if c = 110 then Some 10
     else if c = 114 then Some 13 else if c = 116 then Some 9 else None)"

fun json_string :: "rstr \<Rightarrow> (rstr \<times> rstr) option" where
  "json_string [] = None"
| "json_string (c # s) =
    (if c = 34 then Some ([], s)
     else if unat c < 32 then None
     else if c = 92 then
       (case s of [] \<Rightarrow> None
        | e # s' \<Rightarrow> do { c' \<leftarrow> simple_escape e; (t, rest) \<leftarrow> json_string s'; Some (c' # t, rest) })
     else do { (t, rest) \<leftarrow> json_string s; Some (c # t, rest) })"

definition expect :: "rstr \<Rightarrow> rstr \<Rightarrow> rstr option" where
  "expect p s = (if starts_with s p then Some (drop (length p) s) else None)"

definition json_number :: "rstr \<Rightarrow> (nat \<times> rstr) option" where
  "json_number s = (let d = takeWhile dec_digit s in
     if d = [] then None else Some (dec_value d, drop (length d) s))"

definition read_fields :: "rstr \<Rightarrow> (rstr list \<times> nat \<times> rstr) option" where
  "read_fields s = do {
     s \<leftarrow> expect (lit ''{\"timestamp\":\"'') s;
     (time, s) \<leftarrow> json_string s;
     s \<leftarrow> expect (lit '',\"proto\":\"'') s;
     (proto, s) \<leftarrow> json_string s;
     s \<leftarrow> expect (lit '',\"src\":\"'') s;
     (src, s) \<leftarrow> json_string s;
     s \<leftarrow> expect (lit '',\"dst\":\"'') s;
     (dst, s) \<leftarrow> json_string s;
     s \<leftarrow> expect (lit '',\"info\":\"'') s;
     (info, s) \<leftarrow> json_string s;
     s \<leftarrow> expect (lit '',\"size\":'') s;
     (n, s) \<leftarrow> json_number s;
     Some ([time, proto, src, dst, info], n, s)
   }"

definition read_line :: "rstr \<Rightarrow> (rstr list \<times> nat \<times> rstr) option" where
  "read_line s = do { (fields, n, s) \<leftarrow> read_fields s; s \<leftarrow> expect (lit ''}'' @ [10]) s; Some (fields, n, s) }"

definition no_control :: "rstr \<Rightarrow> bool" where
  "no_control s \<longleftrightarrow> list_all (\<lambda>c. 32 \<le> unat c) s"

lemma escape_json_Nil [simp]: "escape_json [] = []"
  by (simp add: escape_json_def)

lemma escape_json_Cons:
  "escape_json (c # s) = (if c = 34 then [92, 34] else if c = 92 then [92, 92] else [c]) @ escape_json s"
  by (simp add: escape_json_def replace_byte_Cons)

lemma json_string_escape:
  "json_string (escape_json s @ 34 # rest) = (if no_control s then Some (s, rest) else None)"
  by (induction s) (auto simp: escape_json_Cons no_control_def)

lemma expect_append [simp]: "expect p (p @ s) = Some s"
  by (simp add: expect_def)

lemma json_number_fmt_dec:
  assumes "\<not> dec_digit c"
  shows "json_number (fmt_dec n @ c # s) = Some (n, c # s)"
proof -
  have "takeWhile dec_digit (fmt_dec n @ c # s) = fmt_dec n"
    using assms fmt_dec_digits [of n] by (simp add: list_all_iff takeWhile_append2)
  then show ?thesis by (simp add: json_number_def)
qed

lemma read_fields_json:
  assumes "\<not> dec_digit c"
  shows "read_fields (json_fields time proto src dst info sz @ c # s) =
    (if list_all no_control [time, proto, src, dst, info]
     then Some ([time, proto, src, dst, info], sz, c # s) else None)"
proof -
  have quote: "lit ''\",\"proto\":\"'' = 34 # lit '',\"proto\":\"''" "lit ''\",\"src\":\"'' = 34 # lit '',\"src\":\"''"
    "lit ''\",\"dst\":\"'' = 34 # lit '',\"dst\":\"''" "lit ''\",\"info\":\"'' = 34 # lit '',\"info\":\"''"
    "lit ''\",\"size\":'' = 34 # lit '',\"size\":''"
    by (simp_all add: lit_def)
  show ?thesis
    unfolding read_fields_def json_fields_def quote
    by (auto simp: json_string_escape json_number_fmt_dec [OF assms])
qed

section \<open>Text helpers\<close>

fun unhex :: "rstr \<Rightarrow> u8 list" where
  "unhex (h # l # s) = of_nat (16 * hex_val h + hex_val l) # unhex s"
| "unhex s = []"

lemma unhex_fmt_hex2 [simp]: "unhex (fmt_hex2 b @ s) = b # unhex s"
proof -
  have "unat b div 16 < 16" using unat_u8_less [of b] by (simp add: less_mult_imp_div_less)
  then have "of_nat (16 * hex_val (hex_digit (unat b div 16)) + hex_val (hex_digit (unat b mod 16))) = b"
    by (simp del: of_nat_add of_nat_mult)
  then show ?thesis by (simp add: fmt_hex2_eq del: of_nat_add of_nat_mult)
qed

lemma unhex_bytes: "unhex (concat (map fmt_hex2 bs)) = bs"
  by (induction bs) simp_all

lemma char_indices_nth_ascii:
  "list_all is_ascii s \<Longrightarrow> char_indices_nth s k = (if k < length s then Some k else None)"
  by (simp add: char_indices_nth_def char_starts_ascii rs_index_def)

lemma char_boundary_ascii: "list_all is_ascii s \<Longrightarrow> i \<le> length s \<Longrightarrow> is_char_boundary s i"
  by (auto simp: is_char_boundary_def ascii_byte_not_cont)

lemma char_starts_nth_ge:
  assumes "k < char_count s"
  shows "k \<le> char_starts s ! k" "char_starts s ! k < length s"
proof -
  have "sorted_wrt (<) (char_starts s)"
    unfolding char_starts_def by (rule sorted_wrt_filter) simp
  then show "k \<le> char_starts s ! k"
    using assms sorted_wrt_less_idx unfolding char_count_def by blast
  have "char_starts s ! k \<in> set (char_starts s)"
    using assms unfolding char_count_def by (rule nth_mem)
  then show "char_starts s ! k < length s"
    by (simp add: char_starts_def)
qed

lemma truncate_str_eq:
  assumes "3 \<le> m"
  shows "truncate_str s m =
    (if char_count s \<le> m then Some s
     else if is_char_boundary s (char_starts s ! m - 3) then Some (take (char_starts s ! m - 3) s @ lit ''...'')
     else None)"
  using assms char_starts_nth_ge [of m s]
  by (auto simp: truncate_str_def char_indices_nth_def rs_index_def char_count_def str_slice_to_def not_le)

text \<open>The names that \<open>truncate\<close> panics on: longer than the limit, and the cut is inside a character.\<close>

definition cut_splits_char :: "rstr \<Rightarrow> nat \<Rightarrow> bool" where
  "cut_splits_char s m \<longleftrightarrow> m < char_count s \<and> \<not> is_char_boundary s (char_starts s ! m - 3)"

lemma truncate_str_None_iff: "3 \<le> m \<Longrightarrow> truncate_str s m = None \<longleftrightarrow> cut_splits_char s m"
  by (simp add: truncate_str_eq cut_splits_char_def not_le)

lemma read_line_json:
  "read_line (json_line time proto src dst info sz @ rest) =
    (if list_all no_control [time, proto, src, dst, info]
     then Some ([time, proto, src, dst, info], sz, rest) else None)"
proof -
  have line: "json_line time proto src dst info sz @ rest =
      json_fields time proto src dst info sz @ 125 # ([10] @ rest)"
    by (simp add: json_line_def lit_def)
  have brace: "\<not> dec_digit 125" by (simp add: dec_digit_def)
  have "expect (lit ''}'' @ [10]) (125 # ([10] @ rest)) = Some rest"
    using expect_append [of "lit ''}'' @ [10]" rest] by (simp add: lit_def)
  then show ?thesis
    unfolding read_line_def line read_fields_json [OF brace] by simp
qed

section \<open>Properties\<close>

text \<open>
  The pcap file of a session on a disk that takes every write, in either byte order, is read
  back by a pcap reader as exactly the packets captured, in order, with their times (the seconds
  modulo \<open>2 ^ 32\<close>, since the writer casts them to \<open>u32\<close>).
\<close>

theorem pcap_session_roundtrip:
  assumes "list_all (\<lambda>p. length (snd p) < 2 ^ 32) ps"
  shows "\<exists>w. pcap_session big (\<lambda>_ _. None) ps = Some w \<and> read_pcap big (pcap_file w) = Some (map pcap_entry ps)"
  using read_records_all [OF assms]
  by (simp add: pcap_session_def PcapWriter_create_def pcap_header_eq write_all_def Let_def
      pcap_steps_full_disk read_pcap_def)

theorem pcap_session_roundtrip_witness:
  "\<exists>w. pcap_session True (\<lambda>_ _. None) [(Some (5, 7), [1, 2, 3]), (None, [])] = Some w \<and>
    read_pcap True (pcap_file w) = Some [(5, 7, [1, 2, 3]), (0, 0, [])]"
  using pcap_session_roundtrip [of "[(Some (5, 7), [1, 2, 3]), (None, [])]" True] by simp

text \<open>
  C31: a line of the JSON export, read by a JSON reader, gives back the five strings and the size
  exactly when no field holds a control character. With a control character in a field the line
  is not JSON: \<open>escape_json\<close> escapes quotes and backslashes only.
\<close>

theorem json_line_readable_iff:
  "read_line (json_line time proto src dst info sz @ rest) =
    (if list_all no_control [time, proto, src, dst, info]
     then Some ([time, proto, src, dst, info], sz, rest) else None)"
  by (rule read_line_json)

text \<open>
  C32: cutting a name to \<open>m\<close> characters panics exactly when the name is longer and the byte three
  before its character number \<open>m\<close> is inside a character: the cut is three bytes, not three
  characters, before it. Otherwise the name is left alone or cut there, with an ellipsis.
\<close>

theorem truncate_str_verdict:
  assumes "3 \<le> m"
  shows "truncate_str s m =
    (if char_count s \<le> m then Some s
     else if is_char_boundary s (char_starts s ! m - 3) then Some (take (char_starts s ! m - 3) s @ lit ''...'')
     else None) \<and>
    (list_all is_ascii s \<longrightarrow> truncate_str s m = Some (if length s \<le> m then s else take (m - 3) s @ lit ''...''))"
  using truncate_str_eq [OF assms, of s] by (auto simp: char_starts_ascii char_boundary_ascii)

theorem truncate_str_verdict_witness:
  "truncate_str (replicate 32 97 @ [0xC3, 0xA9] @ replicate 4 97) 35 = None"
proof -
  let ?s = "replicate 32 97 @ [0xC3, 0xA9] @ replicate 4 97 :: rstr"
  have "\<not> char_count ?s \<le> 35" "\<not> is_char_boundary ?s (char_starts ?s ! 35 - 3)"
    by code_simp+
  then show ?thesis using truncate_str_verdict [of 35 ?s] by simp
qed

text \<open>
  The hexadecimal payload of a web message decodes to the first 256 bytes of the packet.
\<close>

theorem to_hex_string_roundtrip: "unhex (to_hex_string bytes) = take 256 bytes"
  by (simp add: to_hex_string_def unhex_bytes Let_def min_def)

end
