(* ===== verification/Header_Interface.thy ===== *)
theory Header_Interface
  imports Prelude
begin

text \<open>
  The contract that the header parsers of \<open>netzer-core\<close> share. Ethernet, IPv4, IPv6, TCP,
  UDP and ICMP all have a \<open>parse(buffer) -> Result<(Self, &[u8]), ParseError>\<close> that checks a
  minimum length, works out the length the header declares, and splits the buffer in two
  without copying. The locale states that contract once; each parser's theory interprets it
  on its own definitions, so the lemmas below hold for every one of them.

  \<open>bytes\<close> reads the \<open>buffer\<close> field of the header, \<open>min_len\<close> is the \<open>_LEN\<close> constant of the
  module, and \<open>hdr_len\<close> is the declared header length (constant for the fixed headers, four
  times the IHL or data offset nibble for IPv4 and TCP).
\<close>

locale header_parser =
  fixes parse :: "u8 list \<Rightarrow> ('h \<times> u8 list) parse_result"
    and bytes :: "'h \<Rightarrow> u8 list"
    and min_len :: nat
    and hdr_len :: "u8 list \<Rightarrow> nat"
  assumes parse_short: "length b < min_len \<Longrightarrow> parse b = Some (Inl BufferTooShort)"
    and parse_invalid: "\<lbrakk>min_len \<le> length b; length b < hdr_len b \<or> hdr_len b < min_len\<rbrakk>
      \<Longrightarrow> parse b = Some (Inl InvalidFormat)"
    and parse_valid: "\<lbrakk>min_len \<le> hdr_len b; hdr_len b \<le> length b\<rbrakk>
      \<Longrightarrow> \<exists>h. bytes h = take (hdr_len b) b \<and> parse b = Some (Inr (h, drop (hdr_len b) b))"
    and hdr_len_append: "min_len \<le> length b \<Longrightarrow> hdr_len (b @ c) = hdr_len b"
    and bytes_inject: "bytes h = bytes h' \<Longrightarrow> h = h'"
begin

lemma parse_cases:
  obtains (short) "length b < min_len" "parse b = Some (Inl BufferTooShort)"
  | (invalid) "min_len \<le> length b" "length b < hdr_len b \<or> hdr_len b < min_len"
      "parse b = Some (Inl InvalidFormat)"
  | (valid) h where "min_len \<le> hdr_len b" "hdr_len b \<le> length b" "bytes h = take (hdr_len b) b"
      "parse b = Some (Inr (h, drop (hdr_len b) b))"
proof (cases "length b < min_len")
  case True
  then show ?thesis using short parse_short by blast
next
  case False
  then have min: "min_len \<le> length b" by simp
  show ?thesis
  proof (cases "length b < hdr_len b \<or> hdr_len b < min_len")
    case True
    then show ?thesis using min invalid parse_invalid by blast
  next
    case False
    then have "min_len \<le> hdr_len b" "hdr_len b \<le> length b" by auto
    then show ?thesis using valid parse_valid by blast
  qed
qed

lemma no_panic: "parse b \<noteq> None"
  by (cases rule: parse_cases [of b]) auto

lemma ok_iff:
  "parse b = Some (Inr (h, p)) \<longleftrightarrow>
    min_len \<le> hdr_len b \<and> hdr_len b \<le> length b \<and> bytes h = take (hdr_len b) b \<and> p = drop (hdr_len b) b"
  by (cases rule: parse_cases [of b]) (auto intro: bytes_inject)

lemma too_short_iff: "parse b = Some (Inl BufferTooShort) \<longleftrightarrow> length b < min_len"
  by (cases rule: parse_cases [of b]) auto

lemma invalid_iff:
  "parse b = Some (Inl InvalidFormat) \<longleftrightarrow>
    min_len \<le> length b \<and> (length b < hdr_len b \<or> hdr_len b < min_len)"
  by (cases rule: parse_cases [of b]) auto

lemma split: "parse b = Some (Inr (h, p)) \<Longrightarrow> bytes h @ p = b"
  by (auto simp: ok_iff)

lemma bytes_length: "parse b = Some (Inr (h, p)) \<Longrightarrow> min_len \<le> length (bytes h)"
  by (auto simp: ok_iff)

text \<open>More bytes after a parsed packet end up in the payload and change nothing else.\<close>

lemma append: "parse b = Some (Inr (h, p)) \<Longrightarrow> parse (b @ c) = Some (Inr (h, p @ c))"
  by (auto simp: ok_iff hdr_len_append)

text \<open>The bytes of an accepted header alone parse to that header, with nothing left.\<close>

lemma parse_bytes:
  assumes "parse b = Some (Inr (h, p))"
  shows "parse (bytes h) = Some (Inr (h, []))"
proof -
  have ok: "min_len \<le> hdr_len b" "hdr_len b \<le> length b" "bytes h = take (hdr_len b) b"
    using assms by (auto simp: ok_iff)
  have "hdr_len (take (hdr_len b) b @ drop (hdr_len b) b) = hdr_len (take (hdr_len b) b)"
    using ok by (intro hdr_len_append) simp
  then show ?thesis using ok by (simp add: ok_iff)
qed

end

end
