(* ===== verification/Link_Layer.thy ===== *)
theory Link_Layer
  imports Header_Interface
begin

text \<open>
  The link layer of \<open>netzer-core\<close>: \<open>MacAddress\<close> (\<open>mac.rs\<close>), \<open>EtherType\<close> and
  \<open>EthernetFrame\<close> (\<open>ethernet.rs\<close>), and the address types the ARP parser needs. A header struct
  holds the slice of the buffer it was cut from; its accessors read fields at fixed offsets.
\<close>

section \<open>MAC addresses\<close>

text \<open>\<open>MacAddress([u8; 6])\<close>: the list has six bytes, which every accessor guarantees.\<close>

datatype MacAddress = MacAddress "u8 list"

fun display_MacAddress :: "MacAddress \<Rightarrow> rstr" where
  "display_MacAddress (MacAddress m) =
     fmt_hex2 (m ! 0) @ lit '':'' @ fmt_hex2 (m ! 1) @ lit '':'' @ fmt_hex2 (m ! 2) @ lit '':'' @
     fmt_hex2 (m ! 3) @ lit '':'' @ fmt_hex2 (m ! 4) @ lit '':'' @ fmt_hex2 (m ! 5)"

fun wf_MacAddress :: "MacAddress \<Rightarrow> bool" where
  "wf_MacAddress (MacAddress m) \<longleftrightarrow> length m = 6"

section \<open>Ethernet\<close>

abbreviation (input) ETHERNET_HEADER_LEN :: nat where
  "ETHERNET_HEADER_LEN \<equiv> 14"

datatype EtherType = Ipv4 | Ipv6 | Arp | OtherEtherType u16

definition EtherType_from :: "u16 \<Rightarrow> EtherType" where
  "EtherType_from val =
    (if val = 0x0800 then Ipv4
     else if val = 0x0806 then Arp
     else if val = 0x86DD then Ipv6
     else OtherEtherType val)"

record EthernetFrame =
  eth_buffer :: "u8 list"

definition EthernetFrame_parse :: "u8 list \<Rightarrow> (EthernetFrame \<times> u8 list) parse_result" where
  "EthernetFrame_parse buffer =
    (if length buffer < ETHERNET_HEADER_LEN then Some (Inl BufferTooShort)
     else do {
       hdr \<leftarrow> rs_slice_to buffer ETHERNET_HEADER_LEN;
       payload \<leftarrow> rs_slice_from buffer ETHERNET_HEADER_LEN;
       Some (Inr (\<lparr>eth_buffer = hdr\<rparr>, payload))
     })"

definition EthernetFrame_destination :: "EthernetFrame \<Rightarrow> MacAddress option" where
  "EthernetFrame_destination f = do { mac \<leftarrow> rs_field (eth_buffer f) 0 6; Some (MacAddress mac) }"

definition EthernetFrame_source :: "EthernetFrame \<Rightarrow> MacAddress option" where
  "EthernetFrame_source f = do { mac \<leftarrow> rs_field (eth_buffer f) 6 12; Some (MacAddress mac) }"

definition EthernetFrame_ethertype :: "EthernetFrame \<Rightarrow> EtherType option" where
  "EthernetFrame_ethertype f =
    do { bytes \<leftarrow> rs_field (eth_buffer f) 12 14; Some (EtherType_from (from_be_bytes bytes)) }"

interpretation eth: header_parser EthernetFrame_parse eth_buffer ETHERNET_HEADER_LEN
    "\<lambda>_. ETHERNET_HEADER_LEN"
  by unfold_locales (auto simp: EthernetFrame_parse_def rust_simps intro: EthernetFrame.equality)

section \<open>ARP\<close>

text \<open>\<open>Ipv4Address([u8; 4])\<close> of \<open>ipv4.rs\<close>, which ARP shares with IPv4.\<close>

datatype Ipv4Address = Ipv4Address "u8 list"

fun display_Ipv4Address :: "Ipv4Address \<Rightarrow> rstr" where
  "display_Ipv4Address (Ipv4Address a) =
     fmt_dec (unat (a ! 0)) @ lit ''.'' @ fmt_dec (unat (a ! 1)) @ lit ''.'' @
     fmt_dec (unat (a ! 2)) @ lit ''.'' @ fmt_dec (unat (a ! 3))"

fun wf_Ipv4Address :: "Ipv4Address \<Rightarrow> bool" where
  "wf_Ipv4Address (Ipv4Address a) \<longleftrightarrow> length a = 4"

abbreviation (input) ARP_HEADER_LEN :: nat where
  "ARP_HEADER_LEN \<equiv> 28"

record ArpPacket =
  arp_buffer :: "u8 list"

definition ArpPacket_parse :: "u8 list \<Rightarrow> ArpPacket parse_result" where
  "ArpPacket_parse buffer =
    (if length buffer < ARP_HEADER_LEN then Some (Inl BufferTooShort)
     else do { hdr \<leftarrow> rs_slice_to buffer ARP_HEADER_LEN; Some (Inr \<lparr>arp_buffer = hdr\<rparr>) })"

definition ArpPacket_hardware_type :: "ArpPacket \<Rightarrow> u16 option" where
  "ArpPacket_hardware_type p = do { bytes \<leftarrow> rs_field (arp_buffer p) 0 2; Some (from_be_bytes bytes) }"

definition ArpPacket_protocol_type :: "ArpPacket \<Rightarrow> u16 option" where
  "ArpPacket_protocol_type p = do { bytes \<leftarrow> rs_field (arp_buffer p) 2 4; Some (from_be_bytes bytes) }"

definition ArpPacket_opcode :: "ArpPacket \<Rightarrow> u16 option" where
  "ArpPacket_opcode p = do { bytes \<leftarrow> rs_field (arp_buffer p) 6 8; Some (from_be_bytes bytes) }"

definition ArpPacket_sender_mac :: "ArpPacket \<Rightarrow> MacAddress option" where
  "ArpPacket_sender_mac p = do { bytes \<leftarrow> rs_field (arp_buffer p) 8 14; Some (MacAddress bytes) }"

definition ArpPacket_sender_ip :: "ArpPacket \<Rightarrow> Ipv4Address option" where
  "ArpPacket_sender_ip p = do { bytes \<leftarrow> rs_field (arp_buffer p) 14 18; Some (Ipv4Address bytes) }"

definition ArpPacket_target_mac :: "ArpPacket \<Rightarrow> MacAddress option" where
  "ArpPacket_target_mac p = do { bytes \<leftarrow> rs_field (arp_buffer p) 18 24; Some (MacAddress bytes) }"

definition ArpPacket_target_ip :: "ArpPacket \<Rightarrow> Ipv4Address option" where
  "ArpPacket_target_ip p = do { bytes \<leftarrow> rs_field (arp_buffer p) 24 28; Some (Ipv4Address bytes) }"

section \<open>Addresses\<close>

lemma EtherType_from_numerals [simp]:
  "EtherType_from 0x0800 = Ipv4" "EtherType_from 0x0806 = Arp" "EtherType_from 0x86DD = Ipv6"
  by (simp_all add: EtherType_from_def)

lemma length_6_conv: "length xs = 6 \<longleftrightarrow> (\<exists>a b c d e f. xs = [a, b, c, d, e, f])"
  by (auto simp: numeral_eq_Suc length_Suc_conv)

lemma length_4_conv: "length xs = 4 \<longleftrightarrow> (\<exists>a b c d. xs = [a, b, c, d])"
  by (auto simp: numeral_eq_Suc length_Suc_conv)

lemma not_dec_digit_dot: "\<not> dec_digit (of_char CHR ''.'')"
  by (simp add: dec_digit_def)

lemmas fmt_dec_dot_inject =
  digits_append_inject [OF fmt_dec_digits fmt_dec_digits not_dec_digit_dot]

lemma display_MacAddress_inject:
  "\<lbrakk>wf_MacAddress m; wf_MacAddress m'\<rbrakk> \<Longrightarrow> display_MacAddress m = display_MacAddress m' \<longleftrightarrow> m = m'"
  by (cases m; cases m') (auto simp: length_6_conv)

lemma display_Ipv4Address_inject:
  "\<lbrakk>wf_Ipv4Address a; wf_Ipv4Address a'\<rbrakk> \<Longrightarrow> display_Ipv4Address a = display_Ipv4Address a' \<longleftrightarrow> a = a'"
  by (cases a; cases a') (auto simp: length_4_conv lit_def fmt_dec_dot_inject word_unat_eq_iff simp del: of_char_Char)

section \<open>Accessors\<close>

lemma EthernetFrame_accessors:
  "14 \<le> length (eth_buffer f) \<Longrightarrow>
    EthernetFrame_destination f = Some (MacAddress (take 6 (eth_buffer f))) \<and>
    EthernetFrame_source f = Some (MacAddress (take 6 (drop 6 (eth_buffer f)))) \<and>
    EthernetFrame_ethertype f = Some (EtherType_from (from_be_bytes (take 2 (drop 12 (eth_buffer f)))))"
  by (simp add: EthernetFrame_destination_def EthernetFrame_source_def EthernetFrame_ethertype_def
      rust_simps)

lemma ArpPacket_parse_eq:
  "ArpPacket_parse b = Some (if length b < 28 then Inl BufferTooShort else Inr \<lparr>arp_buffer = take 28 b\<rparr>)"
  by (simp add: ArpPacket_parse_def rust_simps)

lemmas ArpPacket_accessor_defs =
  ArpPacket_hardware_type_def ArpPacket_protocol_type_def ArpPacket_opcode_def ArpPacket_sender_mac_def
  ArpPacket_sender_ip_def ArpPacket_target_mac_def ArpPacket_target_ip_def

section \<open>The unit tests of the crate\<close>

text \<open>The tests of \<open>mac.rs\<close> and \<open>ethernet.rs\<close> hold of the model.\<close>

lemma test_mac_display:
  "display_MacAddress (MacAddress [0x00, 0x1A, 0x2B, 0x3C, 0x4D, 0x5E]) = lit ''00:1a:2b:3c:4d:5e''"
  by code_simp

lemma test_ethernet_parse_success:
  "case EthernetFrame_parse [0x00, 0x11, 0x22, 0x33, 0x44, 0x55, 0xaa, 0xbb, 0xcc, 0xdd, 0xee, 0xff,
      0x08, 0x00, 0xde, 0xad, 0xbe, 0xef] of
    Some (Inr (frame, payload)) \<Rightarrow>
      EthernetFrame_destination frame = Some (MacAddress [0x00, 0x11, 0x22, 0x33, 0x44, 0x55]) \<and>
      EthernetFrame_source frame = Some (MacAddress [0xaa, 0xbb, 0xcc, 0xdd, 0xee, 0xff]) \<and>
      EthernetFrame_ethertype frame = Some Ipv4 \<and> payload = [0xde, 0xad, 0xbe, 0xef]
  | _ \<Rightarrow> False"
  by code_simp

lemma test_ethernet_parse_too_short: "EthernetFrame_parse (replicate 10 0) = Some (Inl BufferTooShort)"
  by code_simp

end
