(* ===== verification/Internet_Layer.thy ===== *)
theory Internet_Layer
  imports Link_Layer
begin

text \<open>
  The network layer of \<open>netzer-core\<close>: \<open>Ipv4Header\<close> (\<open>ipv4.rs\<close>) with its variable header
  length, and \<open>Ipv6Header\<close> (\<open>ipv6.rs\<close>) with its fixed one.
\<close>

section \<open>IPv4\<close>

abbreviation (input) IPV4_HEADER_MIN_LEN :: nat where
  "IPV4_HEADER_MIN_LEN \<equiv> 20"

record Ipv4Header =
  ipv4_buffer :: "u8 list"

definition Ipv4Header_parse :: "u8 list \<Rightarrow> (Ipv4Header \<times> u8 list) parse_result" where
  "Ipv4Header_parse buffer =
    (if length buffer < IPV4_HEADER_MIN_LEN then Some (Inl BufferTooShort)
     else do {
       b0 \<leftarrow> rs_index buffer 0;
       let header_len = unat (b0 AND 0x0F) * 4;
       if length buffer < header_len \<or> header_len < IPV4_HEADER_MIN_LEN
       then Some (Inl InvalidFormat)
       else do {
         hdr \<leftarrow> rs_slice_to buffer header_len;
         payload \<leftarrow> rs_slice_from buffer header_len;
         Some (Inr (\<lparr>ipv4_buffer = hdr\<rparr>, payload))
       }
     })"

definition Ipv4Header_source :: "Ipv4Header \<Rightarrow> Ipv4Address option" where
  "Ipv4Header_source h = do { ip \<leftarrow> rs_field (ipv4_buffer h) 12 16; Some (Ipv4Address ip) }"

definition Ipv4Header_destination :: "Ipv4Header \<Rightarrow> Ipv4Address option" where
  "Ipv4Header_destination h = do { ip \<leftarrow> rs_field (ipv4_buffer h) 16 20; Some (Ipv4Address ip) }"

definition Ipv4Header_protocol :: "Ipv4Header \<Rightarrow> u8 option" where
  "Ipv4Header_protocol h = rs_index (ipv4_buffer h) 9"

text \<open>The header length that the IHL nibble declares.\<close>

definition ihl_len :: "u8 list \<Rightarrow> nat" where
  "ihl_len b = 4 * unat ((b ! 0) AND 0x0F)"

lemma Ipv4Header_parse_eq:
  "Ipv4Header_parse b =
    Some (if length b < 20 then Inl BufferTooShort
          else if length b < ihl_len b \<or> ihl_len b < 20 then Inl InvalidFormat
          else Inr (\<lparr>ipv4_buffer = take (ihl_len b) b\<rparr>, drop (ihl_len b) b))"
proof (cases "length b < 20")
  case False
  then have "0 < length b" by linarith
  with False show ?thesis
    by (auto simp: Ipv4Header_parse_def ihl_len_def rs_index_def Let_def rust_simps mult.commute)
qed (simp add: Ipv4Header_parse_def)

interpretation ip4: header_parser Ipv4Header_parse ipv4_buffer IPV4_HEADER_MIN_LEN ihl_len
proof (unfold_locales, goal_cases)
  case (4 b c)
  then have "0 < length b" by linarith
  then show ?case by (simp add: ihl_len_def nth_append)
qed (auto simp: Ipv4Header_parse_eq intro: Ipv4Header.equality)

section \<open>IPv6\<close>

abbreviation (input) IPV6_HEADER_LEN :: nat where
  "IPV6_HEADER_LEN \<equiv> 40"

text \<open>\<open>Ipv6Address([u8; 16])\<close>: the list has sixteen bytes. Its display has eight full groups.\<close>

datatype Ipv6Address = Ipv6Address "u8 list"

fun display_Ipv6Address :: "Ipv6Address \<Rightarrow> rstr" where
  "display_Ipv6Address (Ipv6Address a) =
     fmt_hex2 (a ! 0) @ fmt_hex2 (a ! 1) @ lit '':'' @ fmt_hex2 (a ! 2) @ fmt_hex2 (a ! 3) @ lit '':'' @
     fmt_hex2 (a ! 4) @ fmt_hex2 (a ! 5) @ lit '':'' @ fmt_hex2 (a ! 6) @ fmt_hex2 (a ! 7) @ lit '':'' @
     fmt_hex2 (a ! 8) @ fmt_hex2 (a ! 9) @ lit '':'' @ fmt_hex2 (a ! 10) @ fmt_hex2 (a ! 11) @ lit '':'' @
     fmt_hex2 (a ! 12) @ fmt_hex2 (a ! 13) @ lit '':'' @ fmt_hex2 (a ! 14) @ fmt_hex2 (a ! 15)"

fun wf_Ipv6Address :: "Ipv6Address \<Rightarrow> bool" where
  "wf_Ipv6Address (Ipv6Address a) \<longleftrightarrow> length a = 16"

record Ipv6Header =
  ipv6_buffer :: "u8 list"

definition Ipv6Header_parse :: "u8 list \<Rightarrow> (Ipv6Header \<times> u8 list) parse_result" where
  "Ipv6Header_parse buffer =
    (if length buffer < IPV6_HEADER_LEN then Some (Inl BufferTooShort)
     else do {
       hdr \<leftarrow> rs_slice_to buffer IPV6_HEADER_LEN;
       payload \<leftarrow> rs_slice_from buffer IPV6_HEADER_LEN;
       Some (Inr (\<lparr>ipv6_buffer = hdr\<rparr>, payload))
     })"

definition Ipv6Header_source :: "Ipv6Header \<Rightarrow> Ipv6Address option" where
  "Ipv6Header_source h = do { ip \<leftarrow> rs_field (ipv6_buffer h) 8 24; Some (Ipv6Address ip) }"

definition Ipv6Header_destination :: "Ipv6Header \<Rightarrow> Ipv6Address option" where
  "Ipv6Header_destination h = do { ip \<leftarrow> rs_field (ipv6_buffer h) 24 40; Some (Ipv6Address ip) }"

definition Ipv6Header_next_header :: "Ipv6Header \<Rightarrow> u8 option" where
  "Ipv6Header_next_header h = rs_index (ipv6_buffer h) 6"

interpretation ip6: header_parser Ipv6Header_parse ipv6_buffer IPV6_HEADER_LEN "\<lambda>_. IPV6_HEADER_LEN"
  by unfold_locales (auto simp: Ipv6Header_parse_def rust_simps intro: Ipv6Header.equality)

lemma length_16_conv:
  "length xs = 16 \<longleftrightarrow> (\<exists>a b c d e f g h i j k l m n p q. xs = [a, b, c, d, e, f, g, h, i, j, k, l, m, n, p, q])"
  by (auto simp: numeral_eq_Suc length_Suc_conv)

lemma display_Ipv6Address_inject:
  assumes "wf_Ipv6Address a" "wf_Ipv6Address a'"
  shows "display_Ipv6Address a = display_Ipv6Address a' \<longleftrightarrow> a = a'"
  using assms by (cases a; cases a') (auto simp: length_16_conv)

section \<open>Accessors of accepted headers\<close>

lemma Ipv4Header_accessors:
  "20 \<le> length (ipv4_buffer h) \<Longrightarrow>
    Ipv4Header_source h = Some (Ipv4Address (take 4 (drop 12 (ipv4_buffer h)))) \<and>
    Ipv4Header_destination h = Some (Ipv4Address (take 4 (drop 16 (ipv4_buffer h)))) \<and>
    Ipv4Header_protocol h = Some (ipv4_buffer h ! 9)"
  by (simp add: Ipv4Header_source_def Ipv4Header_destination_def Ipv4Header_protocol_def rust_simps)

lemma Ipv6Header_accessors:
  "40 \<le> length (ipv6_buffer h) \<Longrightarrow>
    Ipv6Header_source h = Some (Ipv6Address (take 16 (drop 8 (ipv6_buffer h)))) \<and>
    Ipv6Header_destination h = Some (Ipv6Address (take 16 (drop 24 (ipv6_buffer h)))) \<and>
    Ipv6Header_next_header h = Some (ipv6_buffer h ! 6)"
  by (simp add: Ipv6Header_source_def Ipv6Header_destination_def Ipv6Header_next_header_def rust_simps)

end
