(* ===== verification/Transport_Layer.thy ===== *)
theory Transport_Layer
  imports Internet_Layer
begin

text \<open>
  The transport layer of \<open>netzer-core\<close>: \<open>TcpHeader\<close> (\<open>tcp.rs\<close>) with the data offset,
  \<open>UdpHeader\<close> (\<open>udp.rs\<close>) and \<open>IcmpHeader\<close> (\<open>icmp.rs\<close>).
\<close>

section \<open>TCP\<close>

abbreviation (input) TCP_HEADER_MIN_LEN :: nat where
  "TCP_HEADER_MIN_LEN \<equiv> 20"

record TcpHeader =
  tcp_buffer :: "u8 list"

definition TcpHeader_parse :: "u8 list \<Rightarrow> (TcpHeader \<times> u8 list) parse_result" where
  "TcpHeader_parse buffer =
    (if length buffer < TCP_HEADER_MIN_LEN then Some (Inl BufferTooShort)
     else do {
       b12 \<leftarrow> rs_index buffer 12;
       let header_len = unat (drop_bit 4 b12) * 4;
       if length buffer < header_len \<or> header_len < TCP_HEADER_MIN_LEN
       then Some (Inl InvalidFormat)
       else do {
         hdr \<leftarrow> rs_slice_to buffer header_len;
         payload \<leftarrow> rs_slice_from buffer header_len;
         Some (Inr (\<lparr>tcp_buffer = hdr\<rparr>, payload))
       }
     })"

definition TcpHeader_source_port :: "TcpHeader \<Rightarrow> u16 option" where
  "TcpHeader_source_port h = do { bytes \<leftarrow> rs_field (tcp_buffer h) 0 2; Some (from_be_bytes bytes) }"

definition TcpHeader_destination_port :: "TcpHeader \<Rightarrow> u16 option" where
  "TcpHeader_destination_port h = do { bytes \<leftarrow> rs_field (tcp_buffer h) 2 4; Some (from_be_bytes bytes) }"

text \<open>The header length that the data offset nibble declares.\<close>

definition data_offset_len :: "u8 list \<Rightarrow> nat" where
  "data_offset_len b = 4 * unat (drop_bit 4 (b ! 12))"

lemma TcpHeader_parse_eq:
  "TcpHeader_parse b =
    Some (if length b < 20 then Inl BufferTooShort
          else if length b < data_offset_len b \<or> data_offset_len b < 20 then Inl InvalidFormat
          else Inr (\<lparr>tcp_buffer = take (data_offset_len b) b\<rparr>, drop (data_offset_len b) b))"
  by (auto simp: TcpHeader_parse_def data_offset_len_def Let_def rust_simps mult.commute)

interpretation tcp: header_parser TcpHeader_parse tcp_buffer TCP_HEADER_MIN_LEN data_offset_len
  by unfold_locales
    (auto simp: TcpHeader_parse_eq data_offset_len_def nth_append intro: TcpHeader.equality)

section \<open>UDP\<close>

abbreviation (input) UDP_HEADER_LEN :: nat where
  "UDP_HEADER_LEN \<equiv> 8"

record UdpHeader =
  udp_buffer :: "u8 list"

definition UdpHeader_parse :: "u8 list \<Rightarrow> (UdpHeader \<times> u8 list) parse_result" where
  "UdpHeader_parse buffer =
    (if length buffer < UDP_HEADER_LEN then Some (Inl BufferTooShort)
     else do {
       hdr \<leftarrow> rs_slice_to buffer UDP_HEADER_LEN;
       payload \<leftarrow> rs_slice_from buffer UDP_HEADER_LEN;
       Some (Inr (\<lparr>udp_buffer = hdr\<rparr>, payload))
     })"

definition UdpHeader_source_port :: "UdpHeader \<Rightarrow> u16 option" where
  "UdpHeader_source_port h = do { bytes \<leftarrow> rs_field (udp_buffer h) 0 2; Some (from_be_bytes bytes) }"

definition UdpHeader_destination_port :: "UdpHeader \<Rightarrow> u16 option" where
  "UdpHeader_destination_port h = do { bytes \<leftarrow> rs_field (udp_buffer h) 2 4; Some (from_be_bytes bytes) }"

interpretation udp: header_parser UdpHeader_parse udp_buffer UDP_HEADER_LEN "\<lambda>_. UDP_HEADER_LEN"
  by unfold_locales (auto simp: UdpHeader_parse_def rust_simps intro: UdpHeader.equality)

section \<open>ICMP\<close>

abbreviation (input) ICMP_HEADER_LEN :: nat where
  "ICMP_HEADER_LEN \<equiv> 8"

record IcmpHeader =
  icmp_buffer :: "u8 list"

definition IcmpHeader_parse :: "u8 list \<Rightarrow> (IcmpHeader \<times> u8 list) parse_result" where
  "IcmpHeader_parse buffer =
    (if length buffer < ICMP_HEADER_LEN then Some (Inl BufferTooShort)
     else do {
       hdr \<leftarrow> rs_slice_to buffer ICMP_HEADER_LEN;
       payload \<leftarrow> rs_slice_from buffer ICMP_HEADER_LEN;
       Some (Inr (\<lparr>icmp_buffer = hdr\<rparr>, payload))
     })"

definition IcmpHeader_icmp_type :: "IcmpHeader \<Rightarrow> u8 option" where
  "IcmpHeader_icmp_type h = rs_index (icmp_buffer h) 0"

definition IcmpHeader_code :: "IcmpHeader \<Rightarrow> u8 option" where
  "IcmpHeader_code h = rs_index (icmp_buffer h) 1"

interpretation icmp: header_parser IcmpHeader_parse icmp_buffer ICMP_HEADER_LEN "\<lambda>_. ICMP_HEADER_LEN"
  by unfold_locales (auto simp: IcmpHeader_parse_def rust_simps intro: IcmpHeader.equality)

section \<open>Accessors of accepted headers\<close>

lemma TcpHeader_accessors:
  "20 \<le> length (tcp_buffer h) \<Longrightarrow>
    TcpHeader_source_port h = Some (from_be_bytes (take 2 (tcp_buffer h))) \<and>
    TcpHeader_destination_port h = Some (from_be_bytes (take 2 (drop 2 (tcp_buffer h))))"
  by (simp add: TcpHeader_source_port_def TcpHeader_destination_port_def rust_simps)

lemma UdpHeader_accessors:
  "8 \<le> length (udp_buffer h) \<Longrightarrow>
    UdpHeader_source_port h = Some (from_be_bytes (take 2 (udp_buffer h))) \<and>
    UdpHeader_destination_port h = Some (from_be_bytes (take 2 (drop 2 (udp_buffer h))))"
  by (simp add: UdpHeader_source_port_def UdpHeader_destination_port_def rust_simps)

lemma IcmpHeader_accessors:
  assumes "8 \<le> length (icmp_buffer h)"
  shows "IcmpHeader_icmp_type h = Some (icmp_buffer h ! 0) \<and> IcmpHeader_code h = Some (icmp_buffer h ! 1)"
proof -
  have "0 < length (icmp_buffer h)" "1 < length (icmp_buffer h)" using assms by linarith+
  then show ?thesis by (simp add: IcmpHeader_icmp_type_def IcmpHeader_code_def rs_index_def)
qed

end
