(* ===== verification/Handlers.thy ===== *)
theory Handlers
  imports Dns Tls Tcp_Stream Hexdump Export Transport_Layer
begin

text \<open>
  The protocol handlers of the command line program (\<open>netzer-cli/src/main.rs\<close>, lines 179 to
  534): what each prints, logs and broadcasts for a packet. The program's outputs are the fields
  of \<open>world\<close>; a handler returns the world after it, or \<open>None\<close> when it panics, which it only ever
  does before its first output. The terminal colours come from the crate \<open>colored\<close>: \<open>paint\<close> is
  a parameter.
\<close>

section \<open>Outputs\<close>

datatype style = BrightBlack | BrightRed | BrightGreen | BrightYellow | BrightBlue | BrightMagenta |
  BrightCyan | BrightWhite | Bold | Italic

record env =
  paint :: "style list \<Rightarrow> rstr \<Rightarrow> rstr"
  pcap_disk :: disk
  json_disk :: disk
  big_endian :: bool
  show_hexdump :: bool

record world =
  stdout :: rstr
  pcap_writer :: "PcapWriter option"
  json_writer :: "JsonWriter option"
  stream_tracker :: "TcpStreamTracker option"
  web_messages :: "rstr list option"

definition println :: "rstr \<Rightarrow> world \<Rightarrow> world" where
  "println s w = w\<lparr>stdout := stdout w @ s @ [10]\<rparr>"

definition bar :: rstr where
  \<comment> \<open>a vertical bar of the box drawing block (U+2502) between two spaces\<close>
  "bar = [32, 0xE2, 0x94, 0x82, 32]"

definition print_packet_line :: "env \<Rightarrow> rstr \<Rightarrow> rstr \<Rightarrow> rstr \<Rightarrow> rstr \<Rightarrow> rstr \<Rightarrow> nat \<Rightarrow> world \<Rightarrow> world" where
  "print_packet_line env time_str proto src dst info sz w =
    (let time_colored = paint env [BrightBlack] (pad_right 14 time_str);
         src_colored = paint env [BrightGreen] (pad_right 21 src);
         dst_colored = paint env [BrightRed] (pad_right 21 dst);
         size_colored = paint env [BrightYellow] (pad_right 6 (fmt_dec sz @ lit '' B''))
     in println (lit '' '' @ time_colored @ bar @ proto @ bar @ src_colored @ bar @ dst_colored @ bar @
          info @ bar @ size_colored) w)"

text \<open>\<open>if let Some(writer) = json_writer { let _ = writer.write_packet(...); }\<close>\<close>

definition log_json :: "env \<Rightarrow> rstr \<Rightarrow> rstr \<Rightarrow> rstr \<Rightarrow> rstr \<Rightarrow> rstr \<Rightarrow> nat \<Rightarrow> world \<Rightarrow> world" where
  "log_json env time_str proto src dst info sz w =
    (case json_writer w of
       None \<Rightarrow> w
     | Some writer \<Rightarrow>
         w\<lparr>json_writer := Some (fst (JsonWriter_write_packet (json_disk env) writer time_str proto src dst info sz))\<rparr>)"

text \<open>\<open>if let Some(server) = web_server { server.broadcast(&msg); }\<close>\<close>

definition web_message :: "rstr \<Rightarrow> rstr \<Rightarrow> rstr \<Rightarrow> rstr \<Rightarrow> rstr \<Rightarrow> nat \<Rightarrow> rstr \<Rightarrow> rstr" where
  "web_message time_str proto src dst info sz raw_hex =
    json_fields time_str proto src dst info sz @ lit '',\"payload\":\"'' @ raw_hex @ lit ''\"}''"

definition broadcast_web :: "rstr \<Rightarrow> world \<Rightarrow> world" where
  "broadcast_web msg w =
    (case web_messages w of None \<Rightarrow> w | Some ms \<Rightarrow> w\<lparr>web_messages := Some (ms @ [msg])\<rparr>)"

section \<open>TCP\<close>

definition http_methods :: "rstr list" where
  "http_methods = [lit ''GET '', lit ''POST '', lit ''PUT '', lit ''DELETE '', lit ''PATCH '',
     lit ''OPTIONS '', lit ''HEAD '']"

definition encrypted :: rstr where
  "encrypted = lit ''[ENCRYPTED]''"

text \<open>The text for the packet, and whether it is TLS, and whether it is HTTP.\<close>

definition tcp_info :: "u16 \<Rightarrow> u8 list \<Rightarrow> (rstr \<times> bool \<times> bool) option" where
  "tcp_info dst_port tcp_payload =
    (if dst_port = 443 then do {
       r \<leftarrow> TlsClientHello_parse tcp_payload;
       case r of
         Inr tls \<Rightarrow> do { domain_buf \<leftarrow> truncate_str (sni tls) 35; Some (domain_buf, True, False) }
       | Inl _ \<Rightarrow> Some (encrypted, False, False)
     }
     else
       let trimmed = trim_start (from_utf8_lossy tcp_payload) in
       if list_ex (starts_with trimmed) http_methods then
         let parts = split_whitespace trimmed in
         if 2 \<le> length parts then Some (parts ! 0 @ lit '' '' @ parts ! 1, False, True)
         else Some (lit ''[HTTP Request]'', False, True)
       else if starts_with trimmed (lit ''HTTP/'') then
         let parts = splitn 3 32 trimmed in
         if 2 \<le> length parts then Some (join (lit '' '') (tl parts), False, True)
         else Some (lit ''[HTTP Response]'', False, True)
       else Some (encrypted, False, False))"

definition endpoint :: "rstr \<Rightarrow> u16 \<Rightarrow> rstr" where
  \<comment> \<open>\<open>format!("{}:{}", ip, port)\<close>\<close>
  "endpoint ip port = ip @ lit '':'' @ fmt_dec (unat port)"

definition handle_tcp :: "env \<Rightarrow> rstr \<Rightarrow> rstr \<Rightarrow> u8 list \<Rightarrow> rstr \<Rightarrow> nat \<Rightarrow> rstr \<Rightarrow> world \<Rightarrow> world option" where
  "handle_tcp env src_ip dst_ip payload time_str sz raw_hex w = do {
     parsed \<leftarrow> TcpHeader_parse payload;
     case parsed of
       Inl _ \<Rightarrow> Some w
     | Inr (tcp_header, tcp_payload) \<Rightarrow> do {
         src_port \<leftarrow> TcpHeader_source_port tcp_header;
         dst_port \<leftarrow> TcpHeader_destination_port tcp_header;
         let src = endpoint src_ip src_port;
         let dst = endpoint dst_ip dst_port;
         (info_raw, is_tls, is_http) \<leftarrow> tcp_info dst_port tcp_payload;
         let proto_colored =
           (if is_tls then paint env [BrightMagenta, Bold] (pad_right 5 (lit ''TLS''))
            else if is_http then paint env [BrightGreen, Bold] (pad_right 5 (lit ''HTTP''))
            else paint env [BrightCyan, Bold] (pad_right 5 (lit ''TCP'')));
         let info_colored =
           (if info_raw = encrypted then paint env [BrightBlack] (pad_right 35 info_raw)
            else if is_http then paint env [BrightGreen] (pad_right 35 info_raw)
            else paint env [BrightMagenta, Bold] (pad_right 35 info_raw));
         let proto_name = (if is_tls then lit ''TLS'' else if is_http then lit ''HTTP'' else lit ''TCP'');
         let w = print_packet_line env time_str proto_colored src dst info_colored sz w;
         let w = log_json env time_str proto_name src dst info_raw sz w;
         Some (broadcast_web (web_message time_str proto_name src dst info_raw sz raw_hex) w)
       }
   }"

section \<open>UDP\<close>

definition udp_info :: "u16 \<Rightarrow> u16 \<Rightarrow> u8 list \<Rightarrow> (rstr \<times> bool) option" where
  "udp_info src_port dst_port udp_payload =
    (if dst_port = 53 \<or> src_port = 53 then do {
       r \<leftarrow> DnsQuery_parse udp_payload;
       case r of
         Inr dns \<Rightarrow> do { d \<leftarrow> truncate_str (domain_name dns) 30; Some (lit ''DNS: '' @ d, True) }
       | Inl _ \<Rightarrow> Some (lit ''DNS'', True)
     }
     else Some (lit ''-'', False))"

definition handle_udp :: "env \<Rightarrow> rstr \<Rightarrow> rstr \<Rightarrow> u8 list \<Rightarrow> rstr \<Rightarrow> nat \<Rightarrow> rstr \<Rightarrow> world \<Rightarrow> world option" where
  "handle_udp env src_ip dst_ip payload time_str sz raw_hex w = do {
     parsed \<leftarrow> UdpHeader_parse payload;
     case parsed of
       Inl _ \<Rightarrow> Some w
     | Inr (udp_header, udp_payload) \<Rightarrow> do {
         src_port \<leftarrow> UdpHeader_source_port udp_header;
         dst_port \<leftarrow> UdpHeader_destination_port udp_header;
         let src = endpoint src_ip src_port;
         let dst = endpoint dst_ip dst_port;
         (info_raw, is_dns) \<leftarrow> udp_info src_port dst_port udp_payload;
         let proto_colored = paint env [BrightBlue, Bold] (pad_right 5 (lit ''UDP''));
         let info_colored =
           (if is_dns then paint env [BrightYellow, Bold] (pad_right 35 info_raw)
            else paint env [BrightBlack] (pad_right 35 info_raw));
         let w = print_packet_line env time_str proto_colored src dst info_colored sz w;
         let w = log_json env time_str (lit ''UDP'') src dst info_raw sz w;
         let proto_name = (if is_dns then lit ''DNS'' else lit ''UDP'');
         Some (broadcast_web (web_message time_str proto_name src dst info_raw sz raw_hex) w)
       }
   }"

section \<open>ICMP\<close>

definition icmp_info :: "u8 \<Rightarrow> u8 \<Rightarrow> rstr" where
  "icmp_info ty code =
    (if ty = 0 then lit ''Echo Reply (0)''
     else if ty = 3 then lit ''Dest Unreachable ('' @ fmt_dec (unat code) @ lit '')''
     else if ty = 8 then lit ''Echo Request (8)''
     else if ty = 11 then lit ''Time Exceeded''
     else lit ''Type '' @ fmt_dec (unat ty))"

definition handle_icmp :: "env \<Rightarrow> rstr \<Rightarrow> rstr \<Rightarrow> u8 list \<Rightarrow> rstr \<Rightarrow> nat \<Rightarrow> rstr \<Rightarrow> world \<Rightarrow> world option" where
  "handle_icmp env src_ip dst_ip payload time_str sz raw_hex w = do {
     parsed \<leftarrow> IcmpHeader_parse payload;
     case parsed of
       Inl _ \<Rightarrow> Some w
     | Inr (icmp_header, _) \<Rightarrow> do {
         ty \<leftarrow> IcmpHeader_icmp_type icmp_header;
         code \<leftarrow> IcmpHeader_code icmp_header;
         let info_raw = icmp_info ty code;
         let proto_colored = paint env [BrightRed, Bold] (pad_right 5 (lit ''ICMP''));
         let info_colored = paint env [BrightRed] (pad_right 35 info_raw);
         let w = print_packet_line env time_str proto_colored src_ip dst_ip info_colored sz w;
         let w = log_json env time_str (lit ''ICMP'') src_ip dst_ip info_raw sz w;
         Some (broadcast_web (web_message time_str (lit ''ICMP'') src_ip dst_ip info_raw sz raw_hex) w)
       }
   }"

definition icmpv6_info :: "u8 \<Rightarrow> rstr" where
  "icmpv6_info ty =
    (if ty = 1 then lit ''Dest Unreachable''
     else if ty = 2 then lit ''Packet Too Big''
     else if ty = 3 then lit ''Time Exceeded''
     else if ty = 128 then lit ''Echo Request (Ping)''
     else if ty = 129 then lit ''Echo Reply (Ping)''
     else if ty = 133 then lit ''Router Solicitation''
     else if ty = 134 then lit ''Router Advertisement''
     else if ty = 135 then lit ''Neighbor Solicitation''
     else if ty = 136 then lit ''Neighbor Advertisement''
     else lit ''Type '' @ fmt_dec (unat ty))"

definition handle_icmpv6 :: "env \<Rightarrow> rstr \<Rightarrow> rstr \<Rightarrow> u8 list \<Rightarrow> rstr \<Rightarrow> nat \<Rightarrow> rstr \<Rightarrow> world \<Rightarrow> world option" where
  "handle_icmpv6 env src_ip dst_ip payload time_str sz raw_hex w = do {
     parsed \<leftarrow> IcmpHeader_parse payload;
     case parsed of
       Inl _ \<Rightarrow> Some w
     | Inr (icmp_header, _) \<Rightarrow> do {
         ty \<leftarrow> IcmpHeader_icmp_type icmp_header;
         let info_raw = icmpv6_info ty;
         let proto_colored = paint env [BrightRed, Bold] (pad_right 5 (lit ''ICMP6''));
         let info_colored = paint env [BrightRed] (pad_right 35 info_raw);
         let w = print_packet_line env time_str proto_colored src_ip dst_ip info_colored sz w;
         let w = log_json env time_str (lit ''ICMPv6'') src_ip dst_ip info_raw sz w;
         Some (broadcast_web (web_message time_str (lit ''ICMP6'') src_ip dst_ip info_raw sz raw_hex) w)
       }
   }"

section \<open>ARP\<close>

definition arp_info :: "ArpPacket \<Rightarrow> rstr option" where
  "arp_info arp = do {
     opcode \<leftarrow> ArpPacket_opcode arp;
     if opcode = 1 then do {
       target \<leftarrow> ArpPacket_target_ip arp;
       sender \<leftarrow> ArpPacket_sender_ip arp;
       Some (lit ''Who has '' @ display_Ipv4Address target @ lit ''? Tell '' @ display_Ipv4Address sender)
     }
     else if opcode = 2 then do {
       sender \<leftarrow> ArpPacket_sender_ip arp;
       mac \<leftarrow> ArpPacket_sender_mac arp;
       Some (display_Ipv4Address sender @ lit '' is at '' @ display_MacAddress mac)
     }
     else Some (lit ''Opcode '' @ fmt_dec (unat opcode))
   }"

definition handle_arp :: "env \<Rightarrow> u8 list \<Rightarrow> rstr \<Rightarrow> nat \<Rightarrow> rstr \<Rightarrow> world \<Rightarrow> world option" where
  "handle_arp env payload time_str sz raw_hex w = do {
     parsed \<leftarrow> ArpPacket_parse payload;
     case parsed of
       Inl _ \<Rightarrow> Some w
     | Inr arp \<Rightarrow> do {
         info_raw \<leftarrow> arp_info arp;
         sender \<leftarrow> ArpPacket_sender_mac arp;
         target \<leftarrow> ArpPacket_target_mac arp;
         let src = display_MacAddress sender;
         let dst = display_MacAddress target;
         let proto_colored = paint env [BrightYellow, Bold] (pad_right 5 (lit ''ARP''));
         shown \<leftarrow> truncate_str info_raw 35;
         let info_colored = paint env [BrightYellow] (pad_right 35 shown);
         let w = print_packet_line env time_str proto_colored src dst info_colored sz w;
         let w = log_json env time_str (lit ''ARP'') src dst info_raw sz w;
         Some (broadcast_web (web_message time_str (lit ''ARP'') src dst info_raw sz raw_hex) w)
       }
   }"

text \<open>A terminal without colours, disks that take every write, and a world with nothing enabled.\<close>

definition plain_env :: env where
  "plain_env = \<lparr>paint = (\<lambda>_ s. s), pcap_disk = (\<lambda>_ _. None), json_disk = (\<lambda>_ _. None), big_endian = False,
     show_hexdump = False\<rparr>"

definition idle_world :: "rstr list option \<Rightarrow> world" where
  "idle_world web = \<lparr>stdout = [], pcap_writer = None, json_writer = None, stream_tracker = None,
     web_messages = web\<rparr>"

section \<open>Interface: a handler of one packet\<close>

text \<open>
  What a handler makes of a packet, worked out before any output: nothing when the packet does
  not parse, or one report. A report prints one line, writes one JSON line and broadcasts one web
  message, with the same time, source, destination, text and size; the protocol names of the two
  agree but for DNS and ICMPv6.
\<close>

record packet_report =
  proto_style :: "style list"
  proto_label :: rstr
  info_style :: "style list"
  shown_info :: rstr
  json_proto :: rstr
  web_proto :: rstr
  rep_src :: rstr
  rep_dst :: rstr
  rep_info :: rstr

definition emit :: "env \<Rightarrow> rstr \<Rightarrow> nat \<Rightarrow> rstr \<Rightarrow> packet_report \<Rightarrow> world \<Rightarrow> world" where
  "emit env time_str sz raw_hex r w =
    broadcast_web (web_message time_str (web_proto r) (rep_src r) (rep_dst r) (rep_info r) sz raw_hex)
      (log_json env time_str (json_proto r) (rep_src r) (rep_dst r) (rep_info r) sz
        (print_packet_line env time_str (paint env (proto_style r) (pad_right 5 (proto_label r)))
          (rep_src r) (rep_dst r) (paint env (info_style r) (pad_right 35 (shown_info r))) sz w))"

definition emit_option :: "env \<Rightarrow> rstr \<Rightarrow> nat \<Rightarrow> rstr \<Rightarrow> packet_report option \<Rightarrow> world \<Rightarrow> world" where
  "emit_option env time_str sz raw_hex r w = (case r of None \<Rightarrow> w | Some r \<Rightarrow> emit env time_str sz raw_hex r w)"

definition same_proto :: "packet_report \<Rightarrow> bool" where
  "same_proto r \<longleftrightarrow> json_proto r = web_proto r \<or>
     (json_proto r, web_proto r) \<in> {(lit ''UDP'', lit ''DNS''), (lit ''ICMPv6'', lit ''ICMP6'')}"

lemma emit_fields [simp]:
  "pcap_writer (emit env time_str sz raw_hex r w) = pcap_writer w"
  "stream_tracker (emit env time_str sz raw_hex r w) = stream_tracker w"
  "web_messages (emit env time_str sz raw_hex r w) = map_option (\<lambda>ms. ms @
     [web_message time_str (web_proto r) (rep_src r) (rep_dst r) (rep_info r) sz raw_hex]) (web_messages w)"
  "json_writer (emit env time_str sz raw_hex r w) = map_option (\<lambda>j. fst (JsonWriter_write_packet (json_disk env) j
     time_str (json_proto r) (rep_src r) (rep_dst r) (rep_info r) sz)) (json_writer w)"
  by (simp_all add: emit_def broadcast_web_def log_json_def print_packet_line_def println_def Let_def
      split: option.split)

lemma emit_option_fields [simp]:
  "pcap_writer (emit_option env time_str sz raw_hex r w) = pcap_writer w"
  "stream_tracker (emit_option env time_str sz raw_hex r w) = stream_tracker w"
  by (simp_all add: emit_option_def split: option.split)

locale packet_handler =
  fixes handle :: "env \<Rightarrow> rstr \<Rightarrow> nat \<Rightarrow> rstr \<Rightarrow> world \<Rightarrow> world option"
    and rep :: "packet_report option option"
  assumes handle_eq: "handle env time_str sz raw_hex w =
      map_option (\<lambda>r. emit_option env time_str sz raw_hex r w) rep"
    and protocols: "rep = Some (Some r) \<Longrightarrow> same_proto r"
begin

lemma panic_iff: "handle env time_str sz raw_hex w = None \<longleftrightarrow> rep = None"
  by (simp add: handle_eq)

lemma keeps_tracker: "handle env time_str sz raw_hex w = Some w' \<Longrightarrow> stream_tracker w' = stream_tracker w"
  by (auto simp: handle_eq)

lemma keeps_pcap: "handle env time_str sz raw_hex w = Some w' \<Longrightarrow> pcap_writer w' = pcap_writer w"
  by (auto simp: handle_eq)

lemma one_report: "handle env time_str sz raw_hex w = Some w' \<Longrightarrow>
    w' = w \<or> (\<exists>r. same_proto r \<and> w' = emit env time_str sz raw_hex r w)"
  using protocols by (auto simp: handle_eq emit_option_def split: option.splits)

end

section \<open>The reports of the five handlers\<close>

definition tcp_report :: "rstr \<Rightarrow> rstr \<Rightarrow> u8 list \<Rightarrow> packet_report option option" where
  "tcp_report src_ip dst_ip payload = do {
     parsed \<leftarrow> TcpHeader_parse payload;
     case parsed of
       Inl _ \<Rightarrow> Some None
     | Inr (h, p) \<Rightarrow> do {
         src_port \<leftarrow> TcpHeader_source_port h;
         dst_port \<leftarrow> TcpHeader_destination_port h;
         (info, is_tls, is_http) \<leftarrow> tcp_info dst_port p;
         let name = (if is_tls then lit ''TLS'' else if is_http then lit ''HTTP'' else lit ''TCP'');
         Some (Some \<lparr>proto_style = [if is_tls then BrightMagenta else if is_http then BrightGreen else BrightCyan, Bold],
           proto_label = name,
           info_style = (if info = encrypted then [BrightBlack] else if is_http then [BrightGreen]
             else [BrightMagenta, Bold]),
           shown_info = info, json_proto = name, web_proto = name,
           rep_src = endpoint src_ip src_port, rep_dst = endpoint dst_ip dst_port, rep_info = info\<rparr>)
       }
   }"

definition udp_report :: "rstr \<Rightarrow> rstr \<Rightarrow> u8 list \<Rightarrow> packet_report option option" where
  "udp_report src_ip dst_ip payload = do {
     parsed \<leftarrow> UdpHeader_parse payload;
     case parsed of
       Inl _ \<Rightarrow> Some None
     | Inr (h, p) \<Rightarrow> do {
         src_port \<leftarrow> UdpHeader_source_port h;
         dst_port \<leftarrow> UdpHeader_destination_port h;
         (info, is_dns) \<leftarrow> udp_info src_port dst_port p;
         Some (Some \<lparr>proto_style = [BrightBlue, Bold], proto_label = lit ''UDP'',
           info_style = (if is_dns then [BrightYellow, Bold] else [BrightBlack]), shown_info = info,
           json_proto = lit ''UDP'', web_proto = (if is_dns then lit ''DNS'' else lit ''UDP''),
           rep_src = endpoint src_ip src_port, rep_dst = endpoint dst_ip dst_port, rep_info = info\<rparr>)
       }
   }"

definition icmp_report :: "rstr \<Rightarrow> rstr \<Rightarrow> u8 list \<Rightarrow> packet_report option" where
  "icmp_report src_ip dst_ip payload =
    (if length payload < 8 then None
     else let info = icmp_info (payload ! 0) (payload ! 1) in
       Some \<lparr>proto_style = [BrightRed, Bold], proto_label = lit ''ICMP'', info_style = [BrightRed],
         shown_info = info, json_proto = lit ''ICMP'', web_proto = lit ''ICMP'',
         rep_src = src_ip, rep_dst = dst_ip, rep_info = info\<rparr>)"

definition icmpv6_report :: "rstr \<Rightarrow> rstr \<Rightarrow> u8 list \<Rightarrow> packet_report option" where
  "icmpv6_report src_ip dst_ip payload =
    (if length payload < 8 then None
     else let info = icmpv6_info (payload ! 0) in
       Some \<lparr>proto_style = [BrightRed, Bold], proto_label = lit ''ICMP6'', info_style = [BrightRed],
         shown_info = info, json_proto = lit ''ICMPv6'', web_proto = lit ''ICMP6'',
         rep_src = src_ip, rep_dst = dst_ip, rep_info = info\<rparr>)"

interpretation tcp_handler:
  packet_handler "\<lambda>env. handle_tcp env src_ip dst_ip payload" "tcp_report src_ip dst_ip payload"
  for src_ip dst_ip payload
proof (unfold_locales, goal_cases)
  case (1 env time_str sz raw_hex w)
  show ?case
    by (auto simp: handle_tcp_def tcp_report_def emit_option_def emit_def Let_def
        split: bind_splits sum.split)
next
  case (2 r)
  then show ?case
    by (auto simp: tcp_report_def same_proto_def Let_def split: bind_splits sum.splits)
qed

interpretation udp_handler:
  packet_handler "\<lambda>env. handle_udp env src_ip dst_ip payload" "udp_report src_ip dst_ip payload"
  for src_ip dst_ip payload
proof (unfold_locales, goal_cases)
  case (1 env time_str sz raw_hex w)
  show ?case
    by (auto simp: handle_udp_def udp_report_def emit_option_def emit_def Let_def
        split: bind_splits sum.split)
next
  case (2 r)
  then show ?case
    by (auto simp: udp_report_def same_proto_def Let_def split: bind_splits sum.splits)
qed

lemma IcmpHeader_fields:
  assumes "IcmpHeader_parse b = Some (Inr (h, p))"
  shows "8 \<le> length b" "IcmpHeader_icmp_type h = Some (b ! 0)" "IcmpHeader_code h = Some (b ! 1)"
proof -
  have h: "8 \<le> length b" "icmp_buffer h = take 8 b" using assms by (auto simp: icmp.ok_iff)
  then show "8 \<le> length b" by simp
  show "IcmpHeader_icmp_type h = Some (b ! 0)" "IcmpHeader_code h = Some (b ! 1)"
    using h IcmpHeader_accessors [of h] by simp_all
qed

lemma IcmpHeader_parse_cases:
  obtains "length b < 8" "IcmpHeader_parse b = Some (Inl BufferTooShort)"
  | h p where "8 \<le> length b" "IcmpHeader_parse b = Some (Inr (h, p))"
      "IcmpHeader_icmp_type h = Some (b ! 0)" "IcmpHeader_code h = Some (b ! 1)"
proof (cases rule: icmp.parse_cases [of b])
  case (valid h)
  then show ?thesis using IcmpHeader_fields [OF valid(4)] that(2) by blast
qed (use that in auto)

interpretation icmp_handler:
  packet_handler "\<lambda>env. handle_icmp env src_ip dst_ip payload" "Some (icmp_report src_ip dst_ip payload)"
  for src_ip dst_ip payload
proof (unfold_locales, goal_cases)
  case (1 env time_str sz raw_hex w)
  show ?case
    by (cases rule: IcmpHeader_parse_cases [of payload])
      (simp_all add: handle_icmp_def icmp_report_def emit_option_def emit_def Let_def)
next
  case (2 r)
  then show ?case by (auto simp: icmp_report_def same_proto_def Let_def split: if_splits)
qed

interpretation icmpv6_handler:
  packet_handler "\<lambda>env. handle_icmpv6 env src_ip dst_ip payload" "Some (icmpv6_report src_ip dst_ip payload)"
  for src_ip dst_ip payload
proof (unfold_locales, goal_cases)
  case (1 env time_str sz raw_hex w)
  show ?case
    by (cases rule: IcmpHeader_parse_cases [of payload])
      (simp_all add: handle_icmpv6_def icmpv6_report_def emit_option_def emit_def Let_def)
next
  case (2 r)
  then show ?case by (auto simp: icmpv6_report_def same_proto_def Let_def split: if_splits)
qed

text \<open>The text of an ARP packet is ASCII, so cutting it never panics.\<close>

lemma ascii_fmt_dec: "list_all is_ascii (fmt_dec n)"
  using fmt_dec_digits [of n] by (auto simp: list_all_iff dec_digit_def is_ascii_def)

lemma ascii_hex_digit: "n < 16 \<Longrightarrow> is_ascii (hex_digit n)"
  by (simp add: hex_digit_def is_ascii_def unat_word_ariths unat_of_nat)

lemma ascii_fmt_hex2: "list_all is_ascii (fmt_hex2 b)"
proof -
  have "unat b div 16 < 16" using unat_u8_less [of b] by (simp add: less_mult_imp_div_less)
  then show ?thesis by (simp add: fmt_hex2_eq ascii_hex_digit)
qed

lemma ascii_addresses:
  "list_all is_ascii (display_Ipv4Address a)" "list_all is_ascii (display_MacAddress m)"
  by (cases a; simp add: ascii_fmt_dec lit_def is_ascii_def) (cases m; simp add: ascii_fmt_hex2 lit_def is_ascii_def)

definition arp_text :: "u8 list \<Rightarrow> rstr" where
  "arp_text b =
    (let op = from_be_bytes (take 2 (drop 6 b)) :: u16;
         spa = display_Ipv4Address (Ipv4Address (take 4 (drop 14 b)));
         tpa = display_Ipv4Address (Ipv4Address (take 4 (drop 24 b)));
         sha = display_MacAddress (MacAddress (take 6 (drop 8 b))) in
     if op = 1 then lit ''Who has '' @ tpa @ lit ''? Tell '' @ spa
     else if op = 2 then spa @ lit '' is at '' @ sha
     else lit ''Opcode '' @ fmt_dec (unat op))"

definition arp_report :: "u8 list \<Rightarrow> packet_report option" where
  "arp_report b =
    (if length b < 28 then None
     else Some \<lparr>proto_style = [BrightYellow, Bold], proto_label = lit ''ARP'', info_style = [BrightYellow],
       shown_info = (if length (arp_text b) \<le> 35 then arp_text b else take 32 (arp_text b) @ lit ''...''),
       json_proto = lit ''ARP'', web_proto = lit ''ARP'',
       rep_src = display_MacAddress (MacAddress (take 6 (drop 8 b))),
       rep_dst = display_MacAddress (MacAddress (take 6 (drop 18 b))), rep_info = arp_text b\<rparr>)"

lemma ascii_arp_text: "list_all is_ascii (arp_text b)"
  by (simp add: arp_text_def Let_def ascii_addresses ascii_fmt_dec del: display_Ipv4Address.simps display_MacAddress.simps)
    (simp add: lit_def is_ascii_def)

lemma arp_info_eq: "28 \<le> length b \<Longrightarrow> arp_info \<lparr>arp_buffer = take 28 b\<rparr> = Some (arp_text b)"
  by (simp add: arp_info_def arp_text_def ArpPacket_accessor_defs rs_field_Some drop_take Let_def
      del: display_Ipv4Address.simps display_MacAddress.simps)

lemma truncate_str_ascii: "list_all is_ascii s \<Longrightarrow> 3 \<le> m \<Longrightarrow>
    truncate_str s m = Some (if length s \<le> m then s else take (m - 3) s @ lit ''...'')"
  by (auto simp: truncate_str_eq char_starts_ascii char_boundary_ascii)

interpretation arp_handler: packet_handler "\<lambda>env. handle_arp env payload" "Some (arp_report payload)"
  for payload
proof (unfold_locales, goal_cases)
  case (1 env time_str sz raw_hex w)
  show ?case
  proof (cases "length payload < 28")
    case True
    then show ?thesis by (simp add: handle_arp_def arp_report_def ArpPacket_parse_eq emit_option_def)
  next
    case False
    then have "ArpPacket_sender_mac \<lparr>arp_buffer = take 28 payload\<rparr> = Some (MacAddress (take 6 (drop 8 payload)))"
      "ArpPacket_target_mac \<lparr>arp_buffer = take 28 payload\<rparr> = Some (MacAddress (take 6 (drop 18 payload)))"
      by (simp_all add: ArpPacket_accessor_defs rs_field_Some drop_take)
    with False show ?thesis
      by (simp add: handle_arp_def arp_report_def ArpPacket_parse_eq arp_info_eq truncate_str_ascii
          ascii_arp_text emit_option_def emit_def Let_def del: display_MacAddress.simps)
  qed
next
  case (2 r)
  then show ?case by (auto simp: arp_report_def same_proto_def split: if_splits)
qed

section \<open>When the handlers panic\<close>

lemma TcpHeader_ports:
  assumes "TcpHeader_parse b = Some (Inr (h, p))"
  obtains sport dport where "TcpHeader_source_port h = Some sport" "TcpHeader_destination_port h = Some dport"
proof -
  have "20 \<le> length (tcp_buffer h)" using assms by (rule tcp.bytes_length)
  from TcpHeader_accessors [OF this] show ?thesis using that by blast
qed

lemma UdpHeader_ports:
  assumes "UdpHeader_parse b = Some (Inr (h, p))"
  obtains sport dport where "UdpHeader_source_port h = Some sport" "UdpHeader_destination_port h = Some dport"
proof -
  have "8 \<le> length (udp_buffer h)" using assms by (rule udp.bytes_length)
  from UdpHeader_accessors [OF this] show ?thesis using that by blast
qed

definition tls_fatal :: "u8 list \<Rightarrow> bool" where
  "tls_fatal p \<longleftrightarrow> empty_handshake_record p \<or>
    (case TlsClientHello_parse p of Some (Inr r) \<Rightarrow> cut_splits_char (sni r) 35 | _ \<Rightarrow> False)"

definition dns_fatal :: "u8 list \<Rightarrow> bool" where
  "dns_fatal p \<longleftrightarrow>
    (case DnsQuery_parse p of Some (Inr r) \<Rightarrow> cut_splits_char (domain_name r) 30 | _ \<Rightarrow> False)"

lemma tcp_info_None_iff: "tcp_info dport p = None \<longleftrightarrow> dport = 443 \<and> tls_fatal p"
  by (auto simp: tcp_info_def tls_fatal_def TlsClientHello_parse_None_iff [symmetric] truncate_str_None_iff [symmetric] Let_def
      split: bind_splits sum.splits)

lemma udp_info_None_iff: "udp_info sport dport p = None \<longleftrightarrow> (dport = 53 \<or> sport = 53) \<and> dns_fatal p"
  using DnsQuery_parse_no_panic [of p]
  by (auto simp: udp_info_def dns_fatal_def truncate_str_None_iff [symmetric] split: bind_splits sum.splits)

definition tcp_fatal :: "u8 list \<Rightarrow> bool" where
  "tcp_fatal b \<longleftrightarrow> (case TcpHeader_parse b of
     Some (Inr (h, p)) \<Rightarrow> TcpHeader_destination_port h = Some 443 \<and> tls_fatal p | _ \<Rightarrow> False)"

definition udp_fatal :: "u8 list \<Rightarrow> bool" where
  "udp_fatal b \<longleftrightarrow> (case UdpHeader_parse b of
     Some (Inr (h, p)) \<Rightarrow>
       (UdpHeader_destination_port h = Some 53 \<or> UdpHeader_source_port h = Some 53) \<and> dns_fatal p
   | _ \<Rightarrow> False)"

lemma tcp_report_None_iff: "tcp_report src_ip dst_ip b = None \<longleftrightarrow> tcp_fatal b"
proof (cases rule: tcp.parse_cases [of b])
  case (valid h)
  obtain sport dport where ports: "TcpHeader_source_port h = Some sport" "TcpHeader_destination_port h = Some dport"
    using TcpHeader_ports [OF valid(4)] .
  then show ?thesis
    using tcp_info_None_iff [of dport "drop (data_offset_len b) b"]
    by (auto simp: tcp_report_def tcp_fatal_def valid(4) Let_def split: bind_splits)
qed (auto simp: tcp_report_def tcp_fatal_def)

lemma udp_report_None_iff: "udp_report src_ip dst_ip b = None \<longleftrightarrow> udp_fatal b"
proof (cases rule: udp.parse_cases [of b])
  case (valid h)
  obtain sport dport where ports: "UdpHeader_source_port h = Some sport" "UdpHeader_destination_port h = Some dport"
    using UdpHeader_ports [OF valid(4)] .
  then show ?thesis
    using udp_info_None_iff [of sport dport "drop 8 b"]
    by (auto simp: udp_report_def udp_fatal_def valid(4) Let_def split: bind_splits)
qed (auto simp: udp_report_def udp_fatal_def)

section \<open>Properties\<close>

text \<open>
  Exactly which packets make a handler panic, whatever the state of the outputs. A TCP
  segment to port 443 does when its payload is an empty handshake record or names a server whose
  name cannot be cut; a UDP datagram from or to port 53 does when its query names a domain that
  cannot be cut; no ICMP, ICMPv6 or ARP packet ever does.
\<close>

theorem handlers_panic_iff:
  "(handle_tcp env src_ip dst_ip b time_str sz raw_hex w = None \<longleftrightarrow> tcp_fatal b) \<and>
   (handle_udp env src_ip dst_ip b time_str sz raw_hex w = None \<longleftrightarrow> udp_fatal b) \<and>
   handle_icmp env src_ip dst_ip b time_str sz raw_hex w \<noteq> None \<and>
   handle_icmpv6 env src_ip dst_ip b time_str sz raw_hex w \<noteq> None \<and>
   handle_arp env b time_str sz raw_hex w \<noteq> None"
  by (simp add: tcp_handler.panic_iff udp_handler.panic_iff icmp_handler.panic_iff icmpv6_handler.panic_iff
      arp_handler.panic_iff tcp_report_None_iff udp_report_None_iff del: not_None_eq)

text \<open>
  C22: a handler that returns has either done nothing at all, or made one report: one JSON line
  and one web message (to those of the two that are enabled) that carry the same time, source,
  destination, text and size. It never touches the pcap file or the stream tracker.
\<close>

theorem handlers_report_once:
  assumes "handle \<in> {handle_tcp env src_ip dst_ip b, handle_udp env src_ip dst_ip b,
      handle_icmp env src_ip dst_ip b, handle_icmpv6 env src_ip dst_ip b, handle_arp env b}"
    and "handle time_str sz raw_hex w = Some w'"
  shows "pcap_writer w' = pcap_writer w \<and> stream_tracker w' = stream_tracker w \<and>
    (w' = w \<or> (\<exists>jproto wproto src dst info.
      (jproto = wproto \<or> (jproto, wproto) \<in> {(lit ''UDP'', lit ''DNS''), (lit ''ICMPv6'', lit ''ICMP6'')}) \<and>
      json_writer w' = map_option (\<lambda>j. fst (JsonWriter_write_packet (json_disk env) j
        time_str jproto src dst info sz)) (json_writer w) \<and>
      web_messages w' = map_option (\<lambda>ms. ms @ [web_message time_str wproto src dst info sz raw_hex]) (web_messages w)))"
proof -
  note one_report = tcp_handler.one_report udp_handler.one_report icmp_handler.one_report
    icmpv6_handler.one_report arp_handler.one_report
  have "w' = w \<or> (\<exists>r. same_proto r \<and> w' = emit env time_str sz raw_hex r w)"
    using assms by (elim insertE emptyE) (simp only:, erule one_report)+
  then show ?thesis
  proof
    assume "\<exists>r. same_proto r \<and> w' = emit env time_str sz raw_hex r w"
    then obtain r where r: "same_proto r" "w' = emit env time_str sz raw_hex r w" by blast
    then show ?thesis unfolding same_proto_def by (simp only: emit_fields simp_thms) blast
  qed simp
qed

theorem handlers_report_once_witness:
  "\<exists>jproto wproto src dst info.
    (jproto = wproto \<or> (jproto, wproto) \<in> {(lit ''UDP'', lit ''DNS''), (lit ''ICMPv6'', lit ''ICMP6'')}) \<and>
    web_messages (emit plain_env (lit ''12:00:00.000'') 42 []
      (the (icmp_report (lit ''10.0.0.1'') (lit ''10.0.0.2'') (replicate 8 0)))
      (idle_world (Some []))) = Some [web_message (lit ''12:00:00.000'') wproto src dst info 42 []]"
proof -
  let ?env = plain_env
  let ?w = "idle_world (Some [])"
  let ?h = "handle_icmp ?env (lit ''10.0.0.1'') (lit ''10.0.0.2'') (replicate 8 0)"
  let ?w' = "emit ?env (lit ''12:00:00.000'') 42 []
      (the (icmp_report (lit ''10.0.0.1'') (lit ''10.0.0.2'') (replicate 8 0))) ?w"
  have run: "?h (lit ''12:00:00.000'') 42 [] ?w = Some ?w'"
    unfolding icmp_handler.handle_eq
    by (simp add: icmp_report_def emit_option_def Let_def)
  have member: "?h \<in> {handle_tcp ?env (lit ''10.0.0.1'') (lit ''10.0.0.2'') (replicate 8 0),
      handle_udp ?env (lit ''10.0.0.1'') (lit ''10.0.0.2'') (replicate 8 0), ?h,
      handle_icmpv6 ?env (lit ''10.0.0.1'') (lit ''10.0.0.2'') (replicate 8 0), handle_arp ?env (replicate 8 0)}"
    by simp
  have web: "web_messages ?w' \<noteq> web_messages ?w" by (simp add: idle_world_def)
  show ?thesis
    using handlers_report_once [OF member run] web by (elim conjE disjE) (simp, auto simp: idle_world_def)
qed

text \<open>
  C33: what the program shows of an HTTP message. A request line in visible ASCII is shown as its
  method and path. A response is shown as everything behind its first space: not the status line,
  but the whole segment, line feeds, headers and body included.
\<close>

theorem tcp_info_http:
  assumes "dst_port \<noteq> 443"
    and "meth @ [32] \<in> set http_methods" "path \<noteq> []" "list_all visible path" "utf8_valid rest"
    and "utf8_valid status"
  shows "tcp_info dst_port (meth @ [32] @ path @ [32] @ rest) = Some (meth @ [32] @ path, False, True) \<and>
    tcp_info dst_port (lit ''HTTP/1.1 '' @ status) = Some (status, False, True)"
proof
  have meth: "list_all visible meth" "meth \<noteq> []"
    using assms(2) by (auto simp: http_methods_def lit_def visible_def)
  let ?p = "meth @ [32] @ path @ [32] @ rest"
  have ascii_32: "is_ascii 32" by (simp add: is_ascii_def)
  have ascii: "list_all is_ascii (meth @ [32] @ path @ [32])"
    using meth(1) assms(4) by (auto simp: list_all_iff visible_ascii ascii_32)
  have valid: "from_utf8_lossy ?p = ?p"
    using utf8_valid_append [OF utf8_valid_ascii [OF ascii], of rest] assms(5)
    by (intro from_utf8_lossy_valid) simp
  have trim: "trim_start ?p = ?p"
    using meth by (cases meth) (simp_all add: trim_start_visible del: trim_start.simps)
  have known: "list_ex (starts_with ?p) http_methods"
    using assms(2) starts_with_append [of "meth @ [32]" "path @ [32] @ rest"]
    by (auto simp: list_ex_iff)
  have "split_whitespace ?p = meth # path # split_ws [] rest"
    using split_ws_token [OF meth(1), of "[]" "path @ 32 # rest"] split_ws_token [OF assms(4), of "[]" rest]
      meth(2) assms(3) by (simp add: split_whitespace_def)
  then show "tcp_info dst_port ?p = Some (meth @ [32] @ path, False, True)"
    unfolding tcp_info_def valid trim Let_def using assms(1) known by (simp add: lit_def)
next
  let ?p = "lit ''HTTP/1.1 '' @ status"
  have cons: "?p = 72 # lit ''TTP/1.1 '' @ status" by (simp add: lit_def)
  have "list_all is_ascii (lit ''HTTP/1.1 '')" by (simp add: lit_def is_ascii_def)
  then have valid: "from_utf8_lossy ?p = ?p"
    using assms(6) utf8_valid_append utf8_valid_ascii by (intro from_utf8_lossy_valid) blast
  have trim: "trim_start ?p = ?p"
    unfolding cons by (rule trim_start_visible) (simp add: visible_def)
  have unknown: "\<not> list_ex (starts_with ?p) http_methods"
    by (simp add: http_methods_def lit_def starts_with_def)
  have "32 \<in> set ?p" by (simp add: lit_def)
  then have "2 \<le> length (splitn 3 32 ?p)" "join [32] (tl (splitn 3 32 ?p)) = status"
    using length_splitn [of 3 32 ?p] join_tl_splitn [of 3 32 ?p] by (simp_all add: lit_def)
  moreover have "starts_with ?p (lit ''HTTP/'')" by (simp add: lit_def starts_with_def)
  moreover have "lit '' '' = [32]" by (simp add: lit_def)
  ultimately show "tcp_info dst_port ?p = Some (status, False, True)"
    unfolding tcp_info_def valid trim Let_def using assms(1) unknown by simp
qed

theorem tcp_info_http_witness:
  "tcp_info 80 (lit ''GET'' @ [32] @ lit ''/index'' @ [32] @ lit ''HTTP/1.1'') =
      Some (lit ''GET'' @ [32] @ lit ''/index'', False, True) \<and>
    tcp_info 80 (lit ''HTTP/1.1 '' @ [50, 48, 48, 13, 10]) = Some ([50, 48, 48, 13, 10], False, True)"
proof (rule tcp_info_http)
  show "lit ''GET'' @ [32] \<in> set http_methods" by (simp add: http_methods_def lit_def)
qed (simp_all add: lit_def visible_def is_ascii_def utf8_valid_ascii)

end
