(* ===== verification/Packet_Spec.thy ===== *)
theory Packet_Spec
  imports Transport_Layer
begin

text \<open>
  What the header parsers of \<open>netzer-core\<close> promise, stated against a reference encoder: the
  wire format of Ethernet II, ARP, IPv4 (with options), IPv6, TCP (with options), UDP and ICMP
  as functions from field values to bytes. The encoder is a specification and not code of the
  repository; the properties say that the parsers invert it, which fields they read, which
  buffers they accept, and that no buffer whatever makes them panic.
\<close>

section \<open>Reference encoder\<close>

definition enc_ethernet :: "u8 list \<Rightarrow> u8 list \<Rightarrow> u16 \<Rightarrow> u8 list \<Rightarrow> u8 list" where
  "enc_ethernet dst src ety payload = dst @ src @ to_be_bytes ety @ payload"

definition enc_arp :: "u16 \<Rightarrow> u16 \<Rightarrow> u8 \<Rightarrow> u8 \<Rightarrow> u16 \<Rightarrow> u8 list \<Rightarrow> u8 list \<Rightarrow> u8 list \<Rightarrow> u8 list \<Rightarrow> u8 list" where
  "enc_arp hw proto hlen plen op sha spa tha tpa =
    to_be_bytes hw @ to_be_bytes proto @ [hlen, plen] @ to_be_bytes op @ sha @ spa @ tha @ tpa"

text \<open>
  The fields of an IPv4 header between the first byte and the protocol (\<open>mid\<close>, eight bytes), its
  checksum, and its options, whose length is a multiple of four and at most forty bytes.
\<close>

definition wf_options :: "u8 list \<Rightarrow> bool" where
  "wf_options opts \<longleftrightarrow> length opts mod 4 = 0 \<and> length opts \<le> 40"

definition enc_ipv4 :: "u8 list \<Rightarrow> u8 \<Rightarrow> u8 list \<Rightarrow> u8 list \<Rightarrow> u8 list \<Rightarrow> u8 list \<Rightarrow> u8 list \<Rightarrow> u8 list" where
  "enc_ipv4 mid protocol checksum src dst opts payload =
    of_nat (69 + length opts div 4) # mid @ protocol # checksum @ src @ dst @ opts @ payload"

definition enc_ipv6 :: "u8 list \<Rightarrow> u8 \<Rightarrow> u8 \<Rightarrow> u8 list \<Rightarrow> u8 list \<Rightarrow> u8 list \<Rightarrow> u8 list" where
  "enc_ipv6 flow_and_length next_header hop_limit src dst payload =
    flow_and_length @ next_header # hop_limit # src @ dst @ payload"

text \<open>
  A TCP segment: \<open>seq_ack\<close> is the sequence and acknowledgement numbers (eight bytes), \<open>rest\<close> the
  flags, window, checksum and urgent pointer (seven bytes).
\<close>

definition enc_tcp :: "u16 \<Rightarrow> u16 \<Rightarrow> u8 list \<Rightarrow> u8 list \<Rightarrow> u8 list \<Rightarrow> u8 list \<Rightarrow> u8 list" where
  "enc_tcp sport dport seq_ack rest opts payload =
    to_be_bytes sport @ to_be_bytes dport @ seq_ack @ of_nat (80 + 16 * (length opts div 4)) # rest @
    opts @ payload"

definition enc_udp :: "u16 \<Rightarrow> u16 \<Rightarrow> u16 \<Rightarrow> u16 \<Rightarrow> u8 list \<Rightarrow> u8 list" where
  "enc_udp sport dport len checksum payload =
    to_be_bytes sport @ to_be_bytes dport @ to_be_bytes len @ to_be_bytes checksum @ payload"

definition enc_icmp :: "u8 \<Rightarrow> u8 \<Rightarrow> u8 list \<Rightarrow> u8 list \<Rightarrow> u8 list" where
  "enc_icmp ty code rest payload = ty # code # rest @ payload"

section \<open>The length nibbles of the encoder\<close>

lemma wf_options_words: "wf_options opts \<Longrightarrow> \<exists>n \<le> 10. length opts = 4 * n"
  unfolding wf_options_def by (intro exI [of _ "length opts div 4"]) auto

lemma le_10_cases: "n \<le> (10 :: nat) \<Longrightarrow> n \<in> {10, 9, 8, 7, 6, 5, 4, 3, 2, 1, 0}"
  by (auto simp: numeral_eq_Suc le_Suc_eq)

lemma ihl_nibble: "n \<le> 10 \<Longrightarrow> unat (of_nat (69 + n) AND 0x0F :: u8) = 5 + n"
  by (drule le_10_cases, elim insertE) simp_all

lemma data_offset_nibble: "n \<le> 10 \<Longrightarrow> unat (drop_bit 4 (of_nat (80 + 16 * n) :: u8)) = 5 + n"
  by (drule le_10_cases, elim insertE) simp_all

lemma ihl_len_enc:
  "wf_options opts \<Longrightarrow> ihl_len (enc_ipv4 mid protocol checksum src dst opts payload) = 20 + length opts"
  by (auto dest!: wf_options_words simp: ihl_len_def enc_ipv4_def ihl_nibble simp del: of_nat_add)

lemma data_offset_len_enc:
  assumes "wf_options opts" "length seq_ack = 8"
  shows "data_offset_len (enc_tcp sport dport seq_ack rest opts payload) = 20 + length opts"
  using assms by (auto dest!: wf_options_words simp: data_offset_len_def enc_tcp_def nth_append
      data_offset_nibble simp del: of_nat_add of_nat_mult)

section \<open>Each parser inverts its encoder\<close>

lemma ethernet_roundtrip:
  assumes "length dst = 6" "length src = 6"
  shows "\<exists>f. EthernetFrame_parse (enc_ethernet dst src ety payload) = Some (Inr (f, payload)) \<and>
    EthernetFrame_destination f = Some (MacAddress dst) \<and> EthernetFrame_source f = Some (MacAddress src) \<and>
    EthernetFrame_ethertype f = Some (EtherType_from ety)"
proof -
  define f where "f = \<lparr>eth_buffer = take 14 (enc_ethernet dst src ety payload)\<rparr>"
  have buffer: "eth_buffer f = dst @ src @ to_be_bytes ety"
    using assms by (simp add: f_def enc_ethernet_def)
  then have "EthernetFrame_parse (enc_ethernet dst src ety payload) = Some (Inr (f, payload))"
    using assms by (simp add: eth.ok_iff enc_ethernet_def)
  with buffer EthernetFrame_accessors [of f] assms show ?thesis by (intro exI [of _ f]) simp
qed

lemma ipv4_roundtrip:
  assumes "length mid = 8" "length checksum = 2" "length src = 4" "length dst = 4" "wf_options opts"
  shows "\<exists>h. Ipv4Header_parse (enc_ipv4 mid protocol checksum src dst opts payload) = Some (Inr (h, payload)) \<and>
    Ipv4Header_source h = Some (Ipv4Address src) \<and> Ipv4Header_destination h = Some (Ipv4Address dst) \<and>
    Ipv4Header_protocol h = Some protocol"
proof -
  define hdr where "hdr = of_nat (69 + length opts div 4) # mid @ protocol # checksum @ src @ dst @ opts"
  define b where "b = enc_ipv4 mid protocol checksum src dst opts payload"
  have split: "b = hdr @ payload" "length hdr = 20 + length opts"
    using assms by (simp_all add: b_def enc_ipv4_def hdr_def)
  then have "Ipv4Header_parse b = Some (Inr (\<lparr>ipv4_buffer = hdr\<rparr>, payload))"
    using ihl_len_enc [OF assms(5), of mid protocol checksum src dst payload]
    by (simp add: ip4.ok_iff b_def [symmetric])
  with split Ipv4Header_accessors [of "\<lparr>ipv4_buffer = hdr\<rparr>"] assms show ?thesis
    unfolding b_def by (intro exI [of _ "\<lparr>ipv4_buffer = hdr\<rparr>"]) (simp add: nth_append hdr_def)
qed

lemma ipv6_roundtrip:
  assumes "length flow = 6" "length src = 16" "length dst = 16"
  shows "\<exists>h. Ipv6Header_parse (enc_ipv6 flow next_header hop src dst payload) = Some (Inr (h, payload)) \<and>
    Ipv6Header_source h = Some (Ipv6Address src) \<and> Ipv6Header_destination h = Some (Ipv6Address dst) \<and>
    Ipv6Header_next_header h = Some next_header"
proof -
  define h where "h = \<lparr>ipv6_buffer = take 40 (enc_ipv6 flow next_header hop src dst payload)\<rparr>"
  have buffer: "ipv6_buffer h = flow @ next_header # hop # src @ dst"
    using assms by (simp add: h_def enc_ipv6_def)
  then have "Ipv6Header_parse (enc_ipv6 flow next_header hop src dst payload) = Some (Inr (h, payload))"
    using assms by (simp add: ip6.ok_iff enc_ipv6_def)
  with buffer Ipv6Header_accessors [of h] assms show ?thesis by (intro exI [of _ h]) (simp add: nth_append)
qed

lemma tcp_roundtrip:
  assumes "length seq_ack = 8" "length rest = 7" "wf_options opts"
  shows "\<exists>h. TcpHeader_parse (enc_tcp sport dport seq_ack rest opts payload) = Some (Inr (h, payload)) \<and>
    TcpHeader_source_port h = Some sport \<and> TcpHeader_destination_port h = Some dport"
proof -
  define hdr where "hdr = to_be_bytes sport @ to_be_bytes dport @ seq_ack @
    of_nat (80 + 16 * (length opts div 4)) # rest @ opts"
  define b where "b = enc_tcp sport dport seq_ack rest opts payload"
  have split: "b = hdr @ payload" "length hdr = 20 + length opts"
    using assms by (simp_all add: b_def enc_tcp_def hdr_def)
  then have "TcpHeader_parse b = Some (Inr (\<lparr>tcp_buffer = hdr\<rparr>, payload))"
    using data_offset_len_enc [OF assms(3,1), of sport dport rest payload]
    by (simp add: tcp.ok_iff b_def [symmetric])
  with split TcpHeader_accessors [of "\<lparr>tcp_buffer = hdr\<rparr>"] assms show ?thesis
    unfolding b_def by (intro exI [of _ "\<lparr>tcp_buffer = hdr\<rparr>"]) (simp add: hdr_def)
qed

lemma udp_roundtrip:
  "\<exists>h. UdpHeader_parse (enc_udp sport dport len checksum payload) = Some (Inr (h, payload)) \<and>
    UdpHeader_source_port h = Some sport \<and> UdpHeader_destination_port h = Some dport"
proof -
  define h where "h = \<lparr>udp_buffer = take 8 (enc_udp sport dport len checksum payload)\<rparr>"
  have buffer: "udp_buffer h = to_be_bytes sport @ to_be_bytes dport @ to_be_bytes len @ to_be_bytes checksum"
    by (simp add: h_def enc_udp_def)
  then have "UdpHeader_parse (enc_udp sport dport len checksum payload) = Some (Inr (h, payload))"
    by (simp add: udp.ok_iff enc_udp_def)
  with buffer UdpHeader_accessors [of h] show ?thesis by (intro exI [of _ h]) simp
qed

lemma icmp_roundtrip:
  assumes "length rest = 6"
  shows "\<exists>h. IcmpHeader_parse (enc_icmp ty code rest payload) = Some (Inr (h, payload)) \<and>
    IcmpHeader_icmp_type h = Some ty \<and> IcmpHeader_code h = Some code"
proof -
  define h where "h = \<lparr>icmp_buffer = take 8 (enc_icmp ty code rest payload)\<rparr>"
  have buffer: "icmp_buffer h = ty # code # rest"
    using assms by (simp add: h_def enc_icmp_def)
  then have "IcmpHeader_parse (enc_icmp ty code rest payload) = Some (Inr (h, payload))"
    using assms by (simp add: icmp.ok_iff enc_icmp_def)
  with buffer IcmpHeader_accessors [of h] assms show ?thesis by (intro exI [of _ h]) simp
qed

lemma ARP_field_lengths:
  assumes "length sha = 6" "length spa = 4" "length tha = 6" "length tpa = 4"
  shows "length (enc_arp hw proto hlen plen op sha spa tha tpa) = 28"
  using assms by (simp add: enc_arp_def)

lemma take_pad: "length xs = n \<Longrightarrow> take n (xs @ pad) = xs"
  by simp

section \<open>Properties\<close>

text \<open>
  C21: no buffer makes a header parser panic, and no accessor of a header that a parser returned
  panics: every index and slice of the seven header modules is in range.
\<close>

theorem header_parsers_never_panic:
  "EthernetFrame_parse b \<noteq> None \<and> ArpPacket_parse b \<noteq> None \<and> Ipv4Header_parse b \<noteq> None \<and>
   Ipv6Header_parse b \<noteq> None \<and> TcpHeader_parse b \<noteq> None \<and> UdpHeader_parse b \<noteq> None \<and>
   IcmpHeader_parse b \<noteq> None \<and>
   (EthernetFrame_parse b = Some (Inr (f, p1)) \<longrightarrow> EthernetFrame_destination f \<noteq> None \<and>
      EthernetFrame_source f \<noteq> None \<and> EthernetFrame_ethertype f \<noteq> None) \<and>
   (ArpPacket_parse b = Some (Inr a) \<longrightarrow> ArpPacket_hardware_type a \<noteq> None \<and>
      ArpPacket_protocol_type a \<noteq> None \<and> ArpPacket_opcode a \<noteq> None \<and> ArpPacket_sender_mac a \<noteq> None \<and>
      ArpPacket_sender_ip a \<noteq> None \<and> ArpPacket_target_mac a \<noteq> None \<and> ArpPacket_target_ip a \<noteq> None) \<and>
   (Ipv4Header_parse b = Some (Inr (h4, p2)) \<longrightarrow> Ipv4Header_source h4 \<noteq> None \<and>
      Ipv4Header_destination h4 \<noteq> None \<and> Ipv4Header_protocol h4 \<noteq> None) \<and>
   (Ipv6Header_parse b = Some (Inr (h6, p3)) \<longrightarrow> Ipv6Header_source h6 \<noteq> None \<and>
      Ipv6Header_destination h6 \<noteq> None \<and> Ipv6Header_next_header h6 \<noteq> None) \<and>
   (TcpHeader_parse b = Some (Inr (t, p4)) \<longrightarrow> TcpHeader_source_port t \<noteq> None \<and>
      TcpHeader_destination_port t \<noteq> None) \<and>
   (UdpHeader_parse b = Some (Inr (u, p5)) \<longrightarrow> UdpHeader_source_port u \<noteq> None \<and>
      UdpHeader_destination_port u \<noteq> None) \<and>
   (IcmpHeader_parse b = Some (Inr (i, p6)) \<longrightarrow> IcmpHeader_icmp_type i \<noteq> None \<and> IcmpHeader_code i \<noteq> None)"
proof (intro conjI impI)
  show "EthernetFrame_parse b \<noteq> None" by (rule eth.no_panic)
  show "Ipv4Header_parse b \<noteq> None" by (rule ip4.no_panic)
  show "Ipv6Header_parse b \<noteq> None" by (rule ip6.no_panic)
  show "TcpHeader_parse b \<noteq> None" by (rule tcp.no_panic)
  show "UdpHeader_parse b \<noteq> None" by (rule udp.no_panic)
  show "IcmpHeader_parse b \<noteq> None" by (rule icmp.no_panic)
qed (auto simp: ArpPacket_parse_eq ArpPacket_accessor_defs rust_simps EthernetFrame_accessors
    Ipv4Header_accessors Ipv6Header_accessors TcpHeader_accessors UdpHeader_accessors
    IcmpHeader_accessors split: if_splits
    dest: eth.bytes_length ip4.bytes_length ip6.bytes_length tcp.bytes_length udp.bytes_length
      icmp.bytes_length)

theorem header_parsers_never_panic_witness:
  "EthernetFrame_ethertype \<lparr>eth_buffer = replicate 12 0 @ [8, 0]\<rparr> \<noteq> None"
proof -
  have "EthernetFrame_parse (replicate 12 0 @ [8, 0]) =
      Some (Inr (\<lparr>eth_buffer = replicate 12 0 @ [8, 0]\<rparr>, []))"
    by (simp add: eth.ok_iff)
  then show ?thesis
    using header_parsers_never_panic [where b = "replicate 12 0 @ [8, 0]"
        and f = "\<lparr>eth_buffer = replicate 12 0 @ [8, 0]\<rparr>" and ?p1.0 = "[]"]
    by blast
qed

text \<open>
  C38: the exact verdict of the two parsers with a variable header length. A buffer under twenty
  bytes is too short; one whose declared length (the IHL, or the TCP data offset, in words) is
  under twenty bytes or beyond the buffer is invalid; every other buffer is cut in two at the
  declared length and no byte is lost.
\<close>

theorem variable_headers_verdict:
  "(Ipv4Header_parse b = Some (Inl BufferTooShort) \<longleftrightarrow> length b < 20) \<and>
   (Ipv4Header_parse b = Some (Inl InvalidFormat) \<longleftrightarrow>
     20 \<le> length b \<and> (ihl_len b < 20 \<or> length b < ihl_len b)) \<and>
   (Ipv4Header_parse b = Some (Inr (h, p)) \<longleftrightarrow>
     20 \<le> length (ipv4_buffer h) \<and> length (ipv4_buffer h) = ihl_len b \<and> b = ipv4_buffer h @ p) \<and>
   (TcpHeader_parse b = Some (Inl BufferTooShort) \<longleftrightarrow> length b < 20) \<and>
   (TcpHeader_parse b = Some (Inl InvalidFormat) \<longleftrightarrow>
     20 \<le> length b \<and> (data_offset_len b < 20 \<or> length b < data_offset_len b)) \<and>
   (TcpHeader_parse b = Some (Inr (t, q)) \<longleftrightarrow>
     20 \<le> length (tcp_buffer t) \<and> length (tcp_buffer t) = data_offset_len b \<and> b = tcp_buffer t @ q)"
  by (auto simp: ip4.too_short_iff ip4.invalid_iff ip4.ok_iff tcp.too_short_iff tcp.invalid_iff tcp.ok_iff)

text \<open>
  C20: the parsers recover a TCP segment in IPv4 in Ethernet: addresses, EtherType, protocol and
  ports, for every choice of options. The payload they hand on is the segment's data followed by
  whatever stands behind the packet in the frame: the IPv4 total length is never consulted, so
  the padding of a short Ethernet frame is taken for application data.
\<close>

theorem tcp_ipv4_frame_roundtrip:
  assumes "length dmac = 6" "length smac = 6"
    and "length mid = 8" "length checksum = 2" "length src = 4" "length dst = 4" "wf_options ip_opts"
    and "length seq_ack = 8" "length rest = 7" "wf_options tcp_opts"
  shows "\<exists>f p1 h p2 t.
    EthernetFrame_parse (enc_ethernet dmac smac 0x0800 (enc_ipv4 mid 6 checksum src dst ip_opts
      (enc_tcp sport dport seq_ack rest tcp_opts payload)) @ padding) = Some (Inr (f, p1)) \<and>
    EthernetFrame_destination f = Some (MacAddress dmac) \<and> EthernetFrame_source f = Some (MacAddress smac) \<and>
    EthernetFrame_ethertype f = Some Ipv4 \<and>
    Ipv4Header_parse p1 = Some (Inr (h, p2)) \<and> Ipv4Header_protocol h = Some 6 \<and>
    Ipv4Header_source h = Some (Ipv4Address src) \<and> Ipv4Header_destination h = Some (Ipv4Address dst) \<and>
    TcpHeader_parse p2 = Some (Inr (t, payload @ padding)) \<and>
    TcpHeader_source_port t = Some sport \<and> TcpHeader_destination_port t = Some dport"
proof -
  define seg where "seg = enc_tcp sport dport seq_ack rest tcp_opts (payload @ padding)"
  define dgram where "dgram = enc_ipv4 mid 6 checksum src dst ip_opts seg"
  have frame: "enc_ethernet dmac smac 0x0800 (enc_ipv4 mid 6 checksum src dst ip_opts
      (enc_tcp sport dport seq_ack rest tcp_opts payload)) @ padding = enc_ethernet dmac smac 0x0800 dgram"
    by (simp add: enc_ethernet_def enc_ipv4_def enc_tcp_def dgram_def seg_def)
  show ?thesis
    using ethernet_roundtrip [OF assms(1,2), of "0x0800" dgram]
      ipv4_roundtrip [OF assms(3-7), of 6 seg] tcp_roundtrip [OF assms(8-10), of sport dport "payload @ padding"]
    unfolding frame by (fold dgram_def seg_def) (auto; blast)
qed

theorem tcp_ipv4_frame_roundtrip_witness:
  "\<exists>f p1 h p2 t.
    EthernetFrame_parse (enc_ethernet (replicate 6 1) (replicate 6 2) 0x0800
      (enc_ipv4 (replicate 8 0) 6 [0, 0] [10, 0, 0, 1] [10, 0, 0, 2] [1, 1, 1, 0]
        (enc_tcp 49152 80 (replicate 8 0) (replicate 7 0) [] [71, 69, 84])) @ [0, 0, 0]) = Some (Inr (f, p1)) \<and>
    EthernetFrame_destination f = Some (MacAddress (replicate 6 1)) \<and>
    EthernetFrame_source f = Some (MacAddress (replicate 6 2)) \<and>
    EthernetFrame_ethertype f = Some Ipv4 \<and>
    Ipv4Header_parse p1 = Some (Inr (h, p2)) \<and> Ipv4Header_protocol h = Some 6 \<and>
    Ipv4Header_source h = Some (Ipv4Address [10, 0, 0, 1]) \<and>
    Ipv4Header_destination h = Some (Ipv4Address [10, 0, 0, 2]) \<and>
    TcpHeader_parse p2 = Some (Inr (t, [71, 69, 84] @ [0, 0, 0])) \<and>
    TcpHeader_source_port t = Some 49152 \<and> TcpHeader_destination_port t = Some 80"
  by (rule tcp_ipv4_frame_roundtrip) (simp_all add: wf_options_def)

text \<open>
  The same for a UDP datagram in IPv6 in Ethernet.
\<close>

theorem udp_ipv6_frame_roundtrip:
  assumes "length dmac = 6" "length smac = 6" "length flow = 6" "length src = 16" "length dst = 16"
  shows "\<exists>f p1 h p2 u.
    EthernetFrame_parse (enc_ethernet dmac smac 0x86DD (enc_ipv6 flow 17 hop src dst
      (enc_udp sport dport len checksum payload))) = Some (Inr (f, p1)) \<and>
    EthernetFrame_ethertype f = Some Ipv6 \<and>
    Ipv6Header_parse p1 = Some (Inr (h, p2)) \<and> Ipv6Header_next_header h = Some 17 \<and>
    Ipv6Header_source h = Some (Ipv6Address src) \<and> Ipv6Header_destination h = Some (Ipv6Address dst) \<and>
    UdpHeader_parse p2 = Some (Inr (u, payload)) \<and>
    UdpHeader_source_port u = Some sport \<and> UdpHeader_destination_port u = Some dport"
  using ethernet_roundtrip [OF assms(1,2), of "0x86DD" "enc_ipv6 flow 17 hop src dst
      (enc_udp sport dport len checksum payload)"]
    ipv6_roundtrip [OF assms(3-5), of 17 hop "enc_udp sport dport len checksum payload"]
    udp_roundtrip [of sport dport len checksum payload]
  by (auto; blast)

theorem udp_ipv6_frame_roundtrip_witness:
  "\<exists>f p1 h p2 u.
    EthernetFrame_parse (enc_ethernet (replicate 6 1) (replicate 6 2) 0x86DD
      (enc_ipv6 (replicate 6 0) 17 64 (replicate 16 3) (replicate 16 4)
        (enc_udp 5353 53 12 0 [1, 2, 3, 4]))) = Some (Inr (f, p1)) \<and>
    EthernetFrame_ethertype f = Some Ipv6 \<and>
    Ipv6Header_parse p1 = Some (Inr (h, p2)) \<and> Ipv6Header_next_header h = Some 17 \<and>
    Ipv6Header_source h = Some (Ipv6Address (replicate 16 3)) \<and>
    Ipv6Header_destination h = Some (Ipv6Address (replicate 16 4)) \<and>
    UdpHeader_parse p2 = Some (Inr (u, [1, 2, 3, 4])) \<and>
    UdpHeader_source_port u = Some 5353 \<and> UdpHeader_destination_port u = Some 53"
  by (rule udp_ipv6_frame_roundtrip) simp_all

text \<open>
  C40: the ARP parser recovers every field of a packet, whatever follows it in the frame, and
  refuses nothing but a buffer under twenty-eight bytes.
\<close>

theorem arp_roundtrip:
  assumes "length sha = 6" "length spa = 4" "length tha = 6" "length tpa = 4"
  shows "\<exists>a. ArpPacket_parse (enc_arp hw proto hlen plen op sha spa tha tpa @ padding) = Some (Inr a) \<and>
    ArpPacket_hardware_type a = Some hw \<and> ArpPacket_protocol_type a = Some proto \<and>
    ArpPacket_opcode a = Some op \<and>
    ArpPacket_sender_mac a = Some (MacAddress sha) \<and> ArpPacket_sender_ip a = Some (Ipv4Address spa) \<and>
    ArpPacket_target_mac a = Some (MacAddress tha) \<and> ArpPacket_target_ip a = Some (Ipv4Address tpa)"
proof -
  define b where "b = enc_arp hw proto hlen plen op sha spa tha tpa"
  have len: "length b = 28" using assms unfolding b_def by (rule ARP_field_lengths)
  then have parse: "ArpPacket_parse (b @ padding) = Some (Inr \<lparr>arp_buffer = b\<rparr>)"
    by (simp add: ArpPacket_parse_eq)
  have "take 2 b = to_be_bytes hw" "take 2 (drop 2 b) = to_be_bytes proto" "take 2 (drop 6 b) = to_be_bytes op"
    "take 6 (drop 8 b) = sha" "take 4 (drop 14 b) = spa" "take 6 (drop 18 b) = tha" "take 4 (drop 24 b) = tpa"
    using assms by (simp_all add: b_def enc_arp_def)
  with parse len show ?thesis
    unfolding b_def [symmetric]
    using assms by (intro exI [of _ "\<lparr>arp_buffer = b\<rparr>"]) (simp add: ArpPacket_accessor_defs rust_simps)
qed

theorem arp_roundtrip_witness:
  "\<exists>a. ArpPacket_parse (enc_arp 1 0x0800 6 4 1 (replicate 6 2) [10, 0, 0, 1] (replicate 6 0) [10, 0, 0, 2] @ [0]) =
      Some (Inr a) \<and>
    ArpPacket_hardware_type a = Some 1 \<and> ArpPacket_protocol_type a = Some 0x0800 \<and>
    ArpPacket_opcode a = Some 1 \<and>
    ArpPacket_sender_mac a = Some (MacAddress (replicate 6 2)) \<and>
    ArpPacket_sender_ip a = Some (Ipv4Address [10, 0, 0, 1]) \<and>
    ArpPacket_target_mac a = Some (MacAddress (replicate 6 0)) \<and>
    ArpPacket_target_ip a = Some (Ipv4Address [10, 0, 0, 2])"
  by (rule arp_roundtrip) simp_all

text \<open>
  The textual form of an address determines it: two MAC addresses, two IPv4 addresses or two
  IPv6 addresses that print alike are the same. The stream tracker relies on it, since it keeps
  its connections under the printed addresses.
\<close>

theorem address_displays_injective:
  assumes "wf_MacAddress m" "wf_MacAddress m'" "wf_Ipv4Address a" "wf_Ipv4Address a'"
    and "wf_Ipv6Address x" "wf_Ipv6Address x'"
  shows "(display_MacAddress m = display_MacAddress m' \<longrightarrow> m = m') \<and>
    (display_Ipv4Address a = display_Ipv4Address a' \<longrightarrow> a = a') \<and>
    (display_Ipv6Address x = display_Ipv6Address x' \<longrightarrow> x = x')"
  using assms by (simp add: display_MacAddress_inject display_Ipv4Address_inject display_Ipv6Address_inject)

theorem address_displays_injective_witness:
  "display_Ipv4Address (Ipv4Address [1, 11, 1, 1]) \<noteq> display_Ipv4Address (Ipv4Address [11, 1, 1, 1])"
  using address_displays_injective [of "MacAddress (replicate 6 0)" "MacAddress (replicate 6 0)"
      "Ipv4Address [1, 11, 1, 1]" "Ipv4Address [11, 1, 1, 1]"
      "Ipv6Address (replicate 16 0)" "Ipv6Address (replicate 16 0)"]
  by simp

end
