(* ===== verification/Pipeline.thy ===== *)
theory Pipeline
  imports Handlers Packet_Spec
begin

text \<open>
  The path of one captured packet through the program: \<open>process_packet\<close> of
  \<open>netzer-cli/src/main.rs\<close> (lines 541 to 632) writes it to the pcap file, dumps it, parses it
  layer by layer, feeds the stream tracker and calls the handler of its protocol; and the capture
  loop of \<open>main\<close>, which does so for packet after packet. A panic ends the program: it keeps
  the outputs made so far and processes no further packet.
\<close>

section \<open>Model\<close>

datatype outcome = Done world | Panicked world

fun the_world :: "outcome \<Rightarrow> world" where
  "the_world (Done w) = w"
| "the_world (Panicked w) = w"

fun panicked :: "outcome \<Rightarrow> bool" where
  "panicked (Done w) \<longleftrightarrow> False"
| "panicked (Panicked w) \<longleftrightarrow> True"

text \<open>Continue with a value that a fallible computation gave in a world, or panic in it.\<close>

definition or_panic :: "world \<Rightarrow> 'a option \<Rightarrow> ('a \<Rightarrow> outcome) \<Rightarrow> outcome" where
  "or_panic w r k = (case r of None \<Rightarrow> Panicked w | Some x \<Rightarrow> k x)"

definition rule_line :: "nat \<Rightarrow> rstr" where
  \<comment> \<open>\<open>n\<close> horizontal bars of the box drawing block (U+2500)\<close>
  "rule_line n = concat (replicate n [0xE2, 0x94, 0x80])"

definition printable_stream :: "u8 list \<Rightarrow> rstr" where
  "printable_stream data =
    map (\<lambda>b. if is_ascii_graphic b \<or> b = 32 \<or> b = 10 \<or> b = 13 then b else 46) data"

definition follow_stream :: "env \<Rightarrow> rstr \<Rightarrow> u16 \<Rightarrow> rstr \<Rightarrow> u16 \<Rightarrow> u8 list \<Rightarrow> world \<Rightarrow> world" where
  "follow_stream env src_ip src_port dst_ip dst_port tcp_payload w =
    (case stream_tracker w of
       None \<Rightarrow> w
     | Some tracker \<Rightarrow>
         (case TcpStreamTracker_feed tracker src_ip src_port dst_ip dst_port tcp_payload of
            (tracker', None) \<Rightarrow> w\<lparr>stream_tracker := Some tracker'\<rparr>
          | (tracker', Some (_, data)) \<Rightarrow>
              println (paint env [BrightBlue] (lit '' '' @ rule_line 114))
                (println (paint env [BrightWhite] (printable_stream data))
                  (println (paint env [BrightBlue] (lit '' '' @ rule_line 3 @ lit '' Stream Reassembly '' @ rule_line 92))
                    (w\<lparr>stream_tracker := Some tracker'\<rparr>)))))"

definition process_ipv4 :: "env \<Rightarrow> u8 list \<Rightarrow> rstr \<Rightarrow> nat \<Rightarrow> rstr \<Rightarrow> world \<Rightarrow> outcome" where
  "process_ipv4 env payload time_str sz raw_hex w =
    or_panic w (Ipv4Header_parse payload) (\<lambda>r. case r of
      Inl _ \<Rightarrow> Done w
    | Inr (ipv4_header, ip_payload) \<Rightarrow>
        or_panic w (Ipv4Header_source ipv4_header) (\<lambda>source.
        or_panic w (Ipv4Header_destination ipv4_header) (\<lambda>destination.
        or_panic w (Ipv4Header_protocol ipv4_header) (\<lambda>protocol.
          let src_ip = display_Ipv4Address source; dst_ip = display_Ipv4Address destination in
          if protocol = 6 then
            or_panic w (TcpHeader_parse ip_payload) (\<lambda>r. case r of
              Inr (tcp_header, tcp_payload) \<Rightarrow>
                or_panic w (TcpHeader_source_port tcp_header) (\<lambda>src_port.
                or_panic w (TcpHeader_destination_port tcp_header) (\<lambda>dst_port.
                  let w = follow_stream env src_ip src_port dst_ip dst_port tcp_payload w in
                  or_panic w (handle_tcp env src_ip dst_ip ip_payload time_str sz raw_hex w) Done))
            | Inl _ \<Rightarrow> or_panic w (handle_tcp env src_ip dst_ip ip_payload time_str sz raw_hex w) Done)
          else if protocol = 17 then or_panic w (handle_udp env src_ip dst_ip ip_payload time_str sz raw_hex w) Done
          else if protocol = 1 then or_panic w (handle_icmp env src_ip dst_ip ip_payload time_str sz raw_hex w) Done
          else Done w))))"

definition process_ipv6 :: "env \<Rightarrow> u8 list \<Rightarrow> rstr \<Rightarrow> nat \<Rightarrow> rstr \<Rightarrow> world \<Rightarrow> outcome" where
  "process_ipv6 env payload time_str sz raw_hex w =
    or_panic w (Ipv6Header_parse payload) (\<lambda>r. case r of
      Inl _ \<Rightarrow> Done w
    | Inr (ipv6_header, ip_payload) \<Rightarrow>
        or_panic w (Ipv6Header_source ipv6_header) (\<lambda>source.
        or_panic w (Ipv6Header_destination ipv6_header) (\<lambda>destination.
        or_panic w (Ipv6Header_next_header ipv6_header) (\<lambda>next_header.
          let src_ip = display_Ipv6Address source; dst_ip = display_Ipv6Address destination in
          if next_header = 6 then or_panic w (handle_tcp env src_ip dst_ip ip_payload time_str sz raw_hex w) Done
          else if next_header = 17 then or_panic w (handle_udp env src_ip dst_ip ip_payload time_str sz raw_hex w) Done
          else if next_header = 58 then or_panic w (handle_icmpv6 env src_ip dst_ip ip_payload time_str sz raw_hex w) Done
          else Done w))))"

text \<open>
  What a packet comes with: the clock when the pcap record is written (seconds and microseconds,
  or \<open>None\<close> before the epoch), and the local time as the crate \<open>chrono\<close> prints it.
\<close>

record capture =
  now :: "(u64 \<times> u32) option"
  time_text :: rstr
  frame :: "u8 list"

definition write_pcap :: "env \<Rightarrow> capture \<Rightarrow> world \<Rightarrow> outcome" where
  "write_pcap env c w =
    (case pcap_writer w of
       None \<Rightarrow> Done w
     | Some writer \<Rightarrow>
         or_panic w (PcapWriter_write_packet (big_endian env) (pcap_disk env) (now c) writer (frame c))
           (\<lambda>(writer, _). Done (w\<lparr>pcap_writer := Some writer\<rparr>)))"

fun and_then :: "outcome \<Rightarrow> (world \<Rightarrow> outcome) \<Rightarrow> outcome" where
  "and_then (Done w) k = k w"
| "and_then (Panicked w) k = Panicked w"

definition process_packet :: "env \<Rightarrow> capture \<Rightarrow> nat \<Rightarrow> world \<Rightarrow> outcome" where
  "process_packet env c sz w =
    and_then (write_pcap env c w) (\<lambda>w.
      let w = (if show_hexdump env then println (paint env [BrightBlack] (hexdump (frame c))) w else w) in
      or_panic w (EthernetFrame_parse (frame c)) (\<lambda>r. case r of
        Inl _ \<Rightarrow> Done w
      | Inr (eth_frame, payload) \<Rightarrow>
          let time_str = time_text c; raw_hex = to_hex_string (frame c) in
          or_panic w (EthernetFrame_ethertype eth_frame) (\<lambda>ty. case ty of
            Ipv4 \<Rightarrow> process_ipv4 env payload time_str sz raw_hex w
          | Ipv6 \<Rightarrow> process_ipv6 env payload time_str sz raw_hex w
          | Arp \<Rightarrow> or_panic w (handle_arp env payload time_str sz raw_hex w) Done
          | OtherEtherType _ \<Rightarrow> Done w)))"

text \<open>The capture loop over the packets received, each with its whole length as its size.\<close>

fun capture_loop :: "env \<Rightarrow> capture list \<Rightarrow> world \<Rightarrow> outcome" where
  "capture_loop env [] w = Done w"
| "capture_loop env (c # cs) w = and_then (process_packet env c (length (frame c)) w) (capture_loop env cs)"

section \<open>Specification: what a frame holds\<close>

text \<open>The IPv4 packet of a frame: printed addresses, protocol, payload; the same for IPv6; a TCP segment.\<close>

definition ipv4_view :: "u8 list \<Rightarrow> (rstr \<times> rstr \<times> u8 \<times> u8 list) option" where
  "ipv4_view b = (case Ipv4Header_parse b of
     Some (Inr (h, q)) \<Rightarrow> do {
       s \<leftarrow> Ipv4Header_source h; d \<leftarrow> Ipv4Header_destination h; p \<leftarrow> Ipv4Header_protocol h;
       Some (display_Ipv4Address s, display_Ipv4Address d, p, q) }
   | _ \<Rightarrow> None)"

definition ipv6_view :: "u8 list \<Rightarrow> (rstr \<times> rstr \<times> u8 \<times> u8 list) option" where
  "ipv6_view b = (case Ipv6Header_parse b of
     Some (Inr (h, q)) \<Rightarrow> do {
       s \<leftarrow> Ipv6Header_source h; d \<leftarrow> Ipv6Header_destination h; p \<leftarrow> Ipv6Header_next_header h;
       Some (display_Ipv6Address s, display_Ipv6Address d, p, q) }
   | _ \<Rightarrow> None)"

definition tcp_view :: "u8 list \<Rightarrow> (u16 \<times> u16 \<times> u8 list) option" where
  "tcp_view b = (case TcpHeader_parse b of
     Some (Inr (h, q)) \<Rightarrow> do { s \<leftarrow> TcpHeader_source_port h; d \<leftarrow> TcpHeader_destination_port h; Some (s, d, q) }
   | _ \<Rightarrow> None)"

definition eth_view :: "u8 list \<Rightarrow> (EtherType \<times> u8 list) option" where
  "eth_view b = (case EthernetFrame_parse b of
     Some (Inr (f, q)) \<Rightarrow> do { ty \<leftarrow> EthernetFrame_ethertype f; Some (ty, q) }
   | _ \<Rightarrow> None)"

text \<open>The segments that a frame gives to the stream tracker: TCP over IPv4 only.\<close>

definition frame_segments :: "u8 list \<Rightarrow> segment list" where
  "frame_segments b = (case eth_view b of
     Some (Ipv4, p) \<Rightarrow>
       (case ipv4_view p of
          Some (src, dst, proto, q) \<Rightarrow>
            (if proto = 6 then
               (case tcp_view q of
                  Some (sport, dport, d) \<Rightarrow>
                    [\<lparr>seg_src_ip = src, seg_src_port = sport, seg_dst_ip = dst, seg_dst_port = dport, seg_payload = d\<rparr>]
                | None \<Rightarrow> [])
             else [])
        | None \<Rightarrow> [])
   | _ \<Rightarrow> [])"

text \<open>The frames that stop the program.\<close>

definition frame_fatal :: "u8 list \<Rightarrow> bool" where
  "frame_fatal b \<longleftrightarrow> (case eth_view b of
     Some (Ipv4, p) \<Rightarrow>
       (case ipv4_view p of
          Some (_, _, proto, q) \<Rightarrow> proto = 6 \<and> tcp_fatal q \<or> proto = 17 \<and> udp_fatal q
        | None \<Rightarrow> False)
   | Some (Ipv6, p) \<Rightarrow>
       (case ipv6_view p of
          Some (_, _, proto, q) \<Rightarrow> proto = 6 \<and> tcp_fatal q \<or> proto = 17 \<and> udp_fatal q
        | None \<Rightarrow> False)
   | _ \<Rightarrow> False)"

section \<open>The layers, through these views\<close>

lemma or_panic_simps [simp]: "or_panic w None k = Panicked w" "or_panic w (Some x) k = k x"
  by (simp_all add: or_panic_def)

lemma process_ipv4_eq:
  "process_ipv4 env payload time_str sz raw_hex w =
    (case ipv4_view payload of
       None \<Rightarrow> Done w
     | Some (src, dst, proto, q) \<Rightarrow>
         if proto = 6 then
           let w = (case tcp_view q of None \<Rightarrow> w
             | Some (sport, dport, d) \<Rightarrow> follow_stream env src sport dst dport d w) in
           or_panic w (handle_tcp env src dst q time_str sz raw_hex w) Done
         else if proto = 17 then or_panic w (handle_udp env src dst q time_str sz raw_hex w) Done
         else if proto = 1 then or_panic w (handle_icmp env src dst q time_str sz raw_hex w) Done
         else Done w)"
proof (cases rule: ip4.parse_cases [of payload])
  case (valid h)
  have "20 \<le> length (ipv4_buffer h)" using ip4.bytes_length [OF valid(4)] .
  note acc = Ipv4Header_accessors [OF this]
  let ?q = "drop (ihl_len payload) payload"
  show ?thesis
  proof (cases rule: tcp.parse_cases [of ?q])
    case tcp: (valid t)
    then obtain sport dport where
      "TcpHeader_source_port t = Some sport" "TcpHeader_destination_port t = Some dport"
      using TcpHeader_ports [OF tcp(4)] by blast
    then show ?thesis
      by (simp add: process_ipv4_def ipv4_view_def tcp_view_def valid(4) tcp(4) acc Let_def)
  qed (simp_all add: process_ipv4_def ipv4_view_def tcp_view_def valid(4) acc Let_def)
qed (simp_all add: process_ipv4_def ipv4_view_def)

lemma process_ipv6_eq:
  "process_ipv6 env payload time_str sz raw_hex w =
    (case ipv6_view payload of
       None \<Rightarrow> Done w
     | Some (src, dst, proto, q) \<Rightarrow>
         if proto = 6 then or_panic w (handle_tcp env src dst q time_str sz raw_hex w) Done
         else if proto = 17 then or_panic w (handle_udp env src dst q time_str sz raw_hex w) Done
         else if proto = 58 then or_panic w (handle_icmpv6 env src dst q time_str sz raw_hex w) Done
         else Done w)"
proof (cases rule: ip6.parse_cases [of payload])
  case (valid h)
  have "40 \<le> length (ipv6_buffer h)" using ip6.bytes_length [OF valid(4)] .
  note acc = Ipv6Header_accessors [OF this]
  show ?thesis by (simp add: process_ipv6_def ipv6_view_def valid(4) acc Let_def)
qed (simp_all add: process_ipv6_def ipv6_view_def)

lemmas handler_eqs = tcp_handler.handle_eq udp_handler.handle_eq icmp_handler.handle_eq
  icmpv6_handler.handle_eq arp_handler.handle_eq

lemma handler_outcome [simp]:
  "panicked (or_panic w (map_option (\<lambda>r. emit_option env time_str sz raw_hex r w) rep) Done) \<longleftrightarrow> rep = None"
  "stream_tracker (the_world (or_panic w (map_option (\<lambda>r. emit_option env time_str sz raw_hex r w) rep) Done)) =
     stream_tracker w"
  "pcap_writer (the_world (or_panic w (map_option (\<lambda>r. emit_option env time_str sz raw_hex r w) rep) Done)) =
     pcap_writer w"
  by (cases rep; simp)+

lemma follow_stream_fields [simp]:
  "stream_tracker (follow_stream env src sport dst dport d w) =
     map_option (\<lambda>t. fst (feeds feed_segment t
       [\<lparr>seg_src_ip = src, seg_src_port = sport, seg_dst_ip = dst, seg_dst_port = dport, seg_payload = d\<rparr>]))
       (stream_tracker w)"
  "pcap_writer (follow_stream env src sport dst dport d w) = pcap_writer w"
  by (simp_all add: follow_stream_def feed_segment_def println_def split: option.split prod.split)

definition pcap_append :: "env \<Rightarrow> capture \<Rightarrow> PcapWriter \<Rightarrow> PcapWriter" where
  "pcap_append env c p = fst (the (PcapWriter_write_packet (big_endian env) (pcap_disk env) (now c) p (frame c)))"

lemma PcapWriter_write_packet_total: "\<exists>p'. PcapWriter_write_packet big disk t p d = Some p'"
  by (simp add: PcapWriter_write_packet_def record_header_eq Let_def split: prod.split)

lemma write_pcap_eq: "write_pcap env c w = Done (w\<lparr>pcap_writer := map_option (pcap_append env c) (pcap_writer w)\<rparr>)"
proof (cases "pcap_writer w")
  case (Some p)
  obtain p' ok where "PcapWriter_write_packet (big_endian env) (pcap_disk env) (now c) p (frame c) = Some (p', ok)"
    using PcapWriter_write_packet_total by fastforce
  then show ?thesis by (simp add: write_pcap_def Some pcap_append_def)
qed (simp add: write_pcap_def)

text \<open>The packet after its pcap record and its dump.\<close>

definition started :: "env \<Rightarrow> capture \<Rightarrow> world \<Rightarrow> world" where
  "started env c w =
    (let w = w\<lparr>pcap_writer := map_option (pcap_append env c) (pcap_writer w)\<rparr>
     in if show_hexdump env then println (paint env [BrightBlack] (hexdump (frame c))) w else w)"

lemma started_fields [simp]:
  "stream_tracker (started env c w) = stream_tracker w"
  "pcap_writer (started env c w) = map_option (pcap_append env c) (pcap_writer w)"
  by (simp_all add: started_def Let_def println_def)

lemma process_packet_eq:
  "process_packet env c sz w =
    (case eth_view (frame c) of
       Some (Ipv4, p) \<Rightarrow> process_ipv4 env p (time_text c) sz (to_hex_string (frame c)) (started env c w)
     | Some (Ipv6, p) \<Rightarrow> process_ipv6 env p (time_text c) sz (to_hex_string (frame c)) (started env c w)
     | Some (Arp, p) \<Rightarrow>
         or_panic (started env c w)
           (handle_arp env p (time_text c) sz (to_hex_string (frame c)) (started env c w)) Done
     | _ \<Rightarrow> Done (started env c w))"
proof (cases rule: eth.parse_cases [of "frame c"])
  case (valid f)
  have "14 \<le> length (eth_buffer f)" using eth.bytes_length [OF valid(4)] .
  note acc = EthernetFrame_accessors [OF this]
  show ?thesis
    by (simp add: process_packet_def write_pcap_eq eth_view_def valid(4) acc Let_def started_def
        split: EtherType.split)
qed (simp_all add: process_packet_def write_pcap_eq eth_view_def Let_def started_def)

lemma process_packet_panicked: "panicked (process_packet env c sz w) \<longleftrightarrow> frame_fatal (frame c)"
  by (simp add: process_packet_eq frame_fatal_def process_ipv4_eq process_ipv6_eq handler_eqs
      tcp_report_None_iff udp_report_None_iff Let_def split: option.split prod.split EtherType.split)

lemma process_packet_tracker:
  "stream_tracker (the_world (process_packet env c sz w)) =
    map_option (\<lambda>t. fst (feeds feed_segment t (frame_segments (frame c)))) (stream_tracker w)"
  by (simp add: process_packet_eq frame_segments_def process_ipv4_eq process_ipv6_eq handler_eqs
      Let_def option.map_ident split: option.split prod.split EtherType.split)

lemma process_packet_pcap:
  "pcap_writer (the_world (process_packet env c sz w)) = map_option (pcap_append env c) (pcap_writer w)"
  by (simp add: process_packet_eq process_ipv4_eq process_ipv6_eq handler_eqs
      Let_def split: option.split prod.split EtherType.split)

section \<open>The capture loop\<close>

text \<open>The packets that the loop gets to: up to the first fatal one, which it still begins.\<close>

fun processed :: "capture list \<Rightarrow> capture list" where
  "processed [] = []"
| "processed (c # cs) = c # (if frame_fatal (frame c) then [] else processed cs)"

lemma and_then_eq: "and_then r k = (if panicked r then r else k (the_world r))"
  by (cases r) simp_all

lemma capture_loop_Cons:
  "capture_loop env (c # cs) w =
    (if frame_fatal (frame c) then process_packet env c (length (frame c)) w
     else capture_loop env cs (the_world (process_packet env c (length (frame c)) w)))"
  by (simp add: and_then_eq process_packet_panicked)

declare capture_loop.simps(2) [simp del]

lemma capture_loop_panicked: "panicked (capture_loop env cs w) \<longleftrightarrow> (\<exists>c \<in> set cs. frame_fatal (frame c))"
  by (induction cs arbitrary: w) (simp_all add: capture_loop_Cons process_packet_panicked)

lemma capture_loop_append:
  "capture_loop env (cs @ ds) w =
    (if panicked (capture_loop env cs w) then capture_loop env cs w
     else capture_loop env ds (the_world (capture_loop env cs w)))"
  by (induction cs arbitrary: w) (simp_all add: capture_loop_Cons process_packet_panicked)

lemma feeds_append: "fst (feeds feed t (xs @ ys)) = fst (feeds feed (fst (feeds feed t xs)) ys)"
proof (induction xs arbitrary: t)
  case (Cons x xs)
  have step: "fst (feeds feed t (x # zs)) = fst (feeds feed (fst (feed t x)) zs)" for zs
    by (simp split: prod.split)
  show ?case unfolding append_Cons step by (rule Cons.IH)
qed simp

definition segments :: "capture list \<Rightarrow> segment list" where
  "segments cs = concat (map (\<lambda>c. frame_segments (frame c)) cs)"

lemma capture_loop_tracker_eq:
  "stream_tracker (the_world (capture_loop env cs w)) =
    map_option (\<lambda>t. fst (feeds feed_segment t (segments (processed cs)))) (stream_tracker w)"
  by (induction cs arbitrary: w)
    (simp_all add: capture_loop_Cons process_packet_tracker segments_def feeds_append option.map_comp comp_def
      option.map_ident)

lemma capture_loop_pcap_eq:
  "pcap_writer (the_world (capture_loop env cs w)) =
    map_option (\<lambda>p. foldl (\<lambda>p c. pcap_append env c p) p (processed cs)) (pcap_writer w)"
  by (induction cs arbitrary: w)
    (simp_all add: capture_loop_Cons process_packet_pcap option.map_comp comp_def option.map_ident)

lemma pcap_append_full_disk:
  assumes "pcap_disk env = (\<lambda>_ _. None)"
  shows "foldl (\<lambda>p c. pcap_append env c p) p cs =
    p\<lparr>pcap_file := pcap_file p @ concat (map (\<lambda>c. pcap_record (big_endian env) (now c, frame c)) cs)\<rparr>"
  by (induction cs arbitrary: p) (simp_all add: pcap_append_def assms write_packet_full_disk)

section \<open>Properties\<close>

text \<open>
  C2: one packet makes \<open>process_packet\<close> panic, and so ends the program, exactly when it is fatal:
  TCP over IPv4 or IPv6 to port 443 whose payload is an empty handshake record or names a server
  that \<open>truncate\<close> would cut inside a character, or UDP from or to port 53 that asks for such a
  name. The state of the program and its options do not matter. A capture ends by itself exactly
  when one of its packets is fatal.
\<close>

theorem process_packet_panics_iff:
  "(panicked (process_packet env c sz w) \<longleftrightarrow> frame_fatal (frame c)) \<and>
   (panicked (capture_loop env cs w) \<longleftrightarrow> list_ex (\<lambda>c. frame_fatal (frame c)) cs)"
  by (simp add: process_packet_panicked capture_loop_panicked list_ex_iff)

text \<open>
  C1: a single crafted segment ends a capture. When a frame with a TCP segment to port 443, five
  bytes of data long, that begins a handshake record of length zero arrives, the program panics,
  with any options, after any traffic; the packets that would come after it are never seen.
\<close>

theorem crafted_segment_ends_capture:
  assumes "length dmac = 6" "length smac = 6" "length mid = 8" "length checksum = 2" "length src = 4"
    "length dst = 4" "wf_options ip_opts" "length seq_ack = 8" "length rest = 7" "wf_options tcp_opts"
    and "frame c = enc_ethernet dmac smac 0x0800 (enc_ipv4 mid 6 checksum src dst ip_opts
      (enc_tcp sport 443 seq_ack rest tcp_opts [22, major, minor, 0, 0]))"
  shows "panicked (capture_loop env (before @ c # after) w) \<and>
    capture_loop env (before @ c # after) w = capture_loop env (before @ [c]) w"
proof -
  let ?seg = "enc_tcp sport 443 seq_ack rest tcp_opts [22, major, minor, 0, 0]"
  let ?dgram = "enc_ipv4 mid 6 checksum src dst ip_opts ?seg"
  have "eth_view (frame c) = Some (Ipv4, ?dgram)"
    using ethernet_roundtrip [OF assms(1,2), of "0x0800" ?dgram] by (auto simp: eth_view_def assms(11))
  moreover have "ipv4_view ?dgram = Some (display_Ipv4Address (Ipv4Address src), display_Ipv4Address (Ipv4Address dst), 6, ?seg)"
    using ipv4_roundtrip [OF assms(3-7), of 6 ?seg] by (auto simp: ipv4_view_def)
  moreover have "tcp_fatal ?seg"
    using tcp_roundtrip [OF assms(8-10), of sport 443 "[22, major, minor, 0, 0]"]
    by (auto simp: tcp_fatal_def tls_fatal_def empty_handshake_record_def)
  ultimately have fatal: "frame_fatal (frame c)" by (simp add: frame_fatal_def)
  then show ?thesis by (simp add: capture_loop_panicked capture_loop_append capture_loop_Cons process_packet_panicked)
qed

theorem crafted_segment_ends_capture_witness:
  "panicked (capture_loop plain_env ([] @
    \<lparr>now = None, time_text = [], frame = enc_ethernet (replicate 6 1) (replicate 6 2) 0x0800
      (enc_ipv4 (replicate 8 0) 6 [0, 0] [10, 0, 0, 1] [10, 0, 0, 2] []
        (enc_tcp 49152 443 (replicate 8 0) (replicate 7 0) (replicate 12 1) [22, 3, 1, 0, 0]))\<rparr> # []) (idle_world None))"
  by (rule crafted_segment_ends_capture [THEN conjunct1]) (simp_all add: wf_options_def)

text \<open>
  C5: the stream tracker after any capture is the tracker fed with the TCP segments of the IPv4
  frames received, in order, up to the packet that ended the capture; so what it holds for a
  stream follows the conservation law of the tracker, and is under 4096 bytes.
\<close>

theorem capture_loop_tracks_streams:
  assumes "stream_tracker w = Some TcpStreamTracker_new"
  shows "\<exists>t out. stream_tracker (the_world (capture_loop env cs w)) = Some t \<and>
    feeds feed_segment TcpStreamTracker_new (segments (processed cs)) = (t, out) \<and>
    of_stream k out @ pending t k = sent seg_key seg_payload k (segments (processed cs)) \<and>
    length (pending t k) < 4096"
proof -
  obtain t out where run: "feeds feed_segment TcpStreamTracker_new (segments (processed cs)) = (t, out)"
    by fastforce
  have "pending TcpStreamTracker_new k = []" by (simp add: pending_def TcpStreamTracker_new_def)
  then have "of_stream k out @ pending t k = sent seg_key seg_payload k (segments (processed cs))"
    using tracker.feeds_conserve [OF run, of k] by simp
  moreover have "length (pending t k) < 4096"
    using tracker.feeds_bounded [OF tracker_inv_new, of "segments (processed cs)" k] run
    by (simp add: TcpStreamTracker_new_def)
  ultimately show ?thesis using run by (simp add: capture_loop_tracker_eq assms)
qed

theorem capture_loop_tracks_streams_witness:
  "\<exists>t out. stream_tracker (the_world (capture_loop plain_env
      [\<lparr>now = None, time_text = [], frame = enc_ethernet (replicate 6 1) (replicate 6 2) 0x0800
        (enc_ipv4 (replicate 8 0) 6 [0, 0] [10, 0, 0, 1] [10, 0, 0, 2] []
          (enc_tcp 49152 80 (replicate 8 0) (replicate 7 0) [] [71, 69, 84]))\<rparr>]
      ((idle_world None)\<lparr>stream_tracker := Some TcpStreamTracker_new\<rparr>))) = Some t \<and>
    length (pending t (StreamKey_new (lit ''10.0.0.1'') 49152 (lit ''10.0.0.2'') 80)) < 4096"
  using capture_loop_tracks_streams [of "(idle_world None)\<lparr>stream_tracker := Some TcpStreamTracker_new\<rparr>"
      plain_env "[\<lparr>now = None, time_text = [], frame = enc_ethernet (replicate 6 1) (replicate 6 2) 0x0800
        (enc_ipv4 (replicate 8 0) 6 [0, 0] [10, 0, 0, 1] [10, 0, 0, 2] []
          (enc_tcp 49152 80 (replicate 8 0) (replicate 7 0) [] [71, 69, 84]))\<rparr>]"
      "StreamKey_new (lit ''10.0.0.1'') 49152 (lit ''10.0.0.2'') 80"]
  by fastforce

text \<open>
  C6: with a disk that takes every write, the pcap file of a capture is read back as every packet
  that the loop got to, parsed or not, in order, and the one that ended the capture with them.
\<close>

theorem capture_pcap_complete:
  assumes "pcap_disk env = (\<lambda>_ _. None)" "list_all (\<lambda>c. length (frame c) < 2 ^ 32) cs"
    and "PcapWriter_create (big_endian env) (\<lambda>_ _. None) True = Some (Inr p)" "pcap_writer w = Some p"
  shows "\<exists>p'. pcap_writer (the_world (capture_loop env cs w)) = Some p' \<and>
    read_pcap (big_endian env) (pcap_file p') = Some (map (\<lambda>c. pcap_entry (now c, frame c)) (processed cs))"
proof -
  let ?ps = "map (\<lambda>c. (now c, frame c)) (processed cs)"
  have "set (processed cs) \<subseteq> set cs" by (induction cs) auto
  then have "list_all (\<lambda>p. length (snd p) < 2 ^ 32) ?ps"
    using assms(2) by (auto simp: list_all_iff)
  note read = read_records_all [OF this, of "big_endian env"]
  have "pcap_file p = the (pcap_header (big_endian env))"
    using assms(3) by (auto simp: PcapWriter_create_def write_all_def pcap_header_eq)
  then show ?thesis
    using read assms(4)
    by (simp add: capture_loop_pcap_eq pcap_append_full_disk [OF assms(1)] pcap_header_eq read_pcap_def
        comp_def)
qed

theorem capture_pcap_complete_witness:
  "\<exists>p'. pcap_writer (the_world (capture_loop plain_env [\<lparr>now = Some (1, 2), time_text = [], frame = [0, 1]\<rparr>]
      ((idle_world None)\<lparr>pcap_writer := Some \<lparr>pcap_file = the (pcap_header False)\<rparr>\<rparr>))) = Some p' \<and>
    read_pcap False (pcap_file p') = Some [(1, 2, [0, 1])]"
proof -
  let ?w = "(idle_world None)\<lparr>pcap_writer := Some \<lparr>pcap_file = the (pcap_header False)\<rparr>\<rparr>"
  let ?cs = "[\<lparr>now = Some (1, 2), time_text = [], frame = [0, 1]\<rparr>]"
  have big: "big_endian plain_env = False" by (simp add: plain_env_def)
  have entry: "map (\<lambda>c. pcap_entry (now c, frame c)) (processed ?cs) = [(1, 2, [0, 1])]" by simp
  have "\<exists>p'. pcap_writer (the_world (capture_loop plain_env ?cs ?w)) = Some p' \<and>
      read_pcap (big_endian plain_env) (pcap_file p') = Some (map (\<lambda>c. pcap_entry (now c, frame c)) (processed ?cs))"
    by (rule capture_pcap_complete [where p = "\<lparr>pcap_file = the (pcap_header False)\<rparr>"])
      (simp_all add: plain_env_def PcapWriter_create_def write_all_def pcap_header_eq)
  then show ?thesis by (simp only: big entry)
qed

end
