(* ===== verification/Bpf_Filter.thy ===== *)
theory Bpf_Filter
  imports Transport_Layer
begin

text \<open>
  The kernel filters of \<open>netzer-socket/src/socket.rs\<close>: the classic BPF programs that
  \<open>attach_filter_port\<close> and \<open>attach_filter_proto\<close> hand to the kernel, as lists of
  \<open>sock_filter\<close>. The machine that runs them is in the kernel: it is a parameter \<open>exec\<close>, and the
  locale \<open>cbpf_machine\<close> states what the kernel documents of the six instructions the
  programs use. The verdict of each program is then derived instruction by instruction.
\<close>

section \<open>The programs\<close>

record sock_filter =
  code :: u16
  jt :: u8
  jf :: u8
  k :: u32

definition port_filter :: "u16 \<Rightarrow> sock_filter list" where
  \<comment> \<open>\<open>attach_filter_port\<close>\<close>
  "port_filter port = [
     \<lparr>code = 0x28, jt = 0, jf = 8, k = 12\<rparr>,
     \<lparr>code = 0x15, jt = 0, jf = 8, k = 0x0800\<rparr>,
     \<lparr>code = 0x30, jt = 0, jf = 0, k = 23\<rparr>,
     \<lparr>code = 0x15, jt = 1, jf = 0, k = 6\<rparr>,
     \<lparr>code = 0x15, jt = 0, jf = 5, k = 17\<rparr>,
     \<lparr>code = 0xb1, jt = 0, jf = 0, k = 14\<rparr>,
     \<lparr>code = 0x48, jt = 0, jf = 0, k = 14\<rparr>,
     \<lparr>code = 0x15, jt = 2, jf = 0, k = ucast port\<rparr>,
     \<lparr>code = 0x48, jt = 0, jf = 0, k = 16\<rparr>,
     \<lparr>code = 0x15, jt = 0, jf = 1, k = ucast port\<rparr>,
     \<lparr>code = 0x06, jt = 0, jf = 0, k = 65535\<rparr>,
     \<lparr>code = 0x06, jt = 0, jf = 0, k = 0\<rparr>]"

text \<open>The three IPv4 protocol filters of \<open>attach_filter_proto\<close> differ in one constant.\<close>

definition ipv4_proto_filter :: "u32 \<Rightarrow> sock_filter list" where
  "ipv4_proto_filter protocol = [
     \<lparr>code = 0x28, jt = 0, jf = 3, k = 12\<rparr>,
     \<lparr>code = 0x15, jt = 0, jf = 2, k = 0x0800\<rparr>,
     \<lparr>code = 0x30, jt = 0, jf = 0, k = 23\<rparr>,
     \<lparr>code = 0x15, jt = 0, jf = 1, k = protocol\<rparr>,
     \<lparr>code = 0x06, jt = 0, jf = 0, k = 65535\<rparr>,
     \<lparr>code = 0x06, jt = 0, jf = 0, k = 0\<rparr>]"

definition arp_filter :: "sock_filter list" where
  "arp_filter = [
     \<lparr>code = 0x28, jt = 0, jf = 1, k = 12\<rparr>,
     \<lparr>code = 0x15, jt = 0, jf = 1, k = 0x0806\<rparr>,
     \<lparr>code = 0x06, jt = 0, jf = 0, k = 65535\<rparr>,
     \<lparr>code = 0x06, jt = 0, jf = 0, k = 0\<rparr>]"

text \<open>
  The match on the protocol name; \<open>None\<close> is the \<open>Unsupported protocol for BPF\<close> error. The
  source calls \<open>to_lowercase\<close>; no character outside ASCII lower-cases to a letter of the four
  names, so lower-casing the ASCII letters makes the same choice.
\<close>

definition proto_filter :: "rstr \<Rightarrow> sock_filter list option" where
  "proto_filter proto =
    (let p = map ascii_lower proto in
     if p = lit ''tcp'' then Some (ipv4_proto_filter 6)
     else if p = lit ''udp'' then Some (ipv4_proto_filter 17)
     else if p = lit ''icmp'' then Some (ipv4_proto_filter 1)
     else if p = lit ''arp'' then Some arp_filter
     else None)"

section \<open>Interface: the classic BPF machine of the kernel\<close>

definition load16 :: "u8 list \<Rightarrow> nat \<Rightarrow> u32" where
  "load16 pkt i = of_nat (be16 (pkt ! i) (pkt ! (i + 1)))"

text \<open>
  \<open>exec prog pkt pc A X\<close> is the value the program returns on the packet from instruction \<open>pc\<close>
  with accumulator \<open>A\<close> and index register \<open>X\<close>: the number of bytes to keep, zero to drop the
  packet. A load outside the packet ends the program with zero. Jump offsets count from the
  next instruction; \<open>jt\<close> and \<open>jf\<close> mean nothing except in a conditional jump. Offsets from
  \<open>2 ^ 31\<close> on are the kernel's ancillary data, of which nothing is assumed.
\<close>

locale cbpf_machine =
  fixes exec :: "sock_filter list \<Rightarrow> u8 list \<Rightarrow> nat \<Rightarrow> u32 \<Rightarrow> u32 \<Rightarrow> u32"
  assumes ld_half_abs: "\<lbrakk>pc < length prog; code (prog ! pc) = 0x28; unat (k (prog ! pc)) < 2147483648\<rbrakk> \<Longrightarrow>
      exec prog pkt pc A X =
        (if unat (k (prog ! pc)) + 2 \<le> length pkt
         then exec prog pkt (pc + 1) (load16 pkt (unat (k (prog ! pc)))) X else 0)"
    and ld_byte_abs: "\<lbrakk>pc < length prog; code (prog ! pc) = 0x30; unat (k (prog ! pc)) < 2147483648\<rbrakk> \<Longrightarrow>
      exec prog pkt pc A X =
        (if unat (k (prog ! pc)) + 1 \<le> length pkt
         then exec prog pkt (pc + 1) (ucast (pkt ! unat (k (prog ! pc)))) X else 0)"
    and ld_half_ind: "\<lbrakk>pc < length prog; code (prog ! pc) = 0x48; unat (X + k (prog ! pc)) < 2147483648\<rbrakk> \<Longrightarrow>
      exec prog pkt pc A X =
        (if unat (X + k (prog ! pc)) + 2 \<le> length pkt
         then exec prog pkt (pc + 1) (load16 pkt (unat (X + k (prog ! pc)))) X else 0)"
    and ldx_msh: "\<lbrakk>pc < length prog; code (prog ! pc) = 0xb1; unat (k (prog ! pc)) < 2147483648\<rbrakk> \<Longrightarrow>
      exec prog pkt pc A X =
        (if unat (k (prog ! pc)) + 1 \<le> length pkt
         then exec prog pkt (pc + 1) A (4 * ucast (pkt ! unat (k (prog ! pc)) AND 0x0F)) else 0)"
    and jeq: "\<lbrakk>pc < length prog; code (prog ! pc) = 0x15\<rbrakk> \<Longrightarrow>
      exec prog pkt pc A X =
        exec prog pkt (pc + 1 + unat (if A = k (prog ! pc) then jt (prog ! pc) else jf (prog ! pc))) A X"
    and ret: "\<lbrakk>pc < length prog; code (prog ! pc) = 0x06\<rbrakk> \<Longrightarrow> exec prog pkt pc A X = k (prog ! pc)"
begin

lemmas step = ld_half_abs ld_byte_abs ld_half_ind ldx_msh jeq ret

end

section \<open>A reference machine, which satisfies the interface\<close>

function ref_exec :: "sock_filter list \<Rightarrow> u8 list \<Rightarrow> nat \<Rightarrow> u32 \<Rightarrow> u32 \<Rightarrow> u32" where
  "ref_exec prog pkt pc A X =
    (if length prog \<le> pc then 0
     else let i = prog ! pc; off = unat (k i); ind = unat (X + k i) in
       if code i = 0x28 then
         (if off + 2 \<le> length pkt then ref_exec prog pkt (pc + 1) (load16 pkt off) X else 0)
       else if code i = 0x30 then
         (if off + 1 \<le> length pkt then ref_exec prog pkt (pc + 1) (ucast (pkt ! off)) X else 0)
       else if code i = 0x48 then
         (if ind + 2 \<le> length pkt then ref_exec prog pkt (pc + 1) (load16 pkt ind) X else 0)
       else if code i = 0xb1 then
         (if off + 1 \<le> length pkt then ref_exec prog pkt (pc + 1) A (4 * ucast (pkt ! off AND 0x0F)) else 0)
       else if code i = 0x15 then
         ref_exec prog pkt (pc + 1 + unat (if A = k i then jt i else jf i)) A X
       else if code i = 0x06 then k i
       else 0)"
  by pat_completeness auto
termination
  by (relation "measure (\<lambda>(prog, pkt, pc, A, X). length prog - pc)") auto

declare ref_exec.simps [simp del]

interpretation ref: cbpf_machine ref_exec
  by unfold_locales (subst ref_exec.simps, simp add: Let_def)+

section \<open>Verdicts\<close>

lemma load16_eq_iff: "n < 65536 \<Longrightarrow> load16 pkt i = of_nat n \<longleftrightarrow> be16 (pkt ! i) (pkt ! (i + 1)) = n"
proof -
  assume n: "n < 65536"
  have "be16 (pkt ! i) (pkt ! (i + 1)) < 65536" by simp
  then show ?thesis
    using n unfolding load16_def by (simp add: word_unat_eq_iff unat_of_nat del: be16_less)
qed

lemma load16_eq_port: "load16 pkt i = ucast (port :: u16) \<longleftrightarrow> be16 (pkt ! i) (pkt ! (i + 1)) = unat port"
  using load16_eq_iff [of "unat port" pkt i] unsigned_less [of port, where 'a = nat]
  by (simp add: unsigned_of_nat)

text \<open>The fields the programs look at.\<close>

definition frame_ethertype :: "u8 list \<Rightarrow> nat" where
  "frame_ethertype pkt = be16 (pkt ! 12) (pkt ! 13)"

definition frame_l4 :: "u8 list \<Rightarrow> nat" where
  \<comment> \<open>the offset of the transport header of an IPv4 frame\<close>
  "frame_l4 pkt = 14 + 4 * unat (pkt ! 14 AND 0x0F)"

lemma unat_ucast_byte [simp]: "unat (ucast (b :: u8) :: u32) = unat b"
proof -
  have "unat b < 2 ^ 32" by (rule less_trans [OF unat_u8_less]) simp
  then show ?thesis by (simp add: unsigned_ucast_eq take_bit_nat_eq_self)
qed

lemma unat_low_nibble: "unat ((b :: u8) AND 0x0F) \<le> 15"
  using word_and_le1 [of b "0x0F"] by (simp add: word_le_nat_alt)

text \<open>The index register after the \<open>ldxb\<close> instruction, and the two port offsets.\<close>

lemma msh_offset:
  assumes "n \<le> 16"
  shows "unat (4 * ucast (b AND 0x0F) + of_nat n :: u32) = 4 * unat ((b :: u8) AND 0x0F) + n"
proof -
  have "unat (ucast (b AND 0x0F) :: u32) = unat (b AND 0x0F)"
    by simp
  then show ?thesis
    using assms unat_low_nibble [of b] by (simp add: unat_word_ariths unat_of_nat)
qed

lemma frame_l4_le: "frame_l4 pkt \<le> 74"
  using unat_low_nibble [of "pkt ! 14"] by (simp add: frame_l4_def)

definition frame_src_port :: "u8 list \<Rightarrow> nat" where
  "frame_src_port pkt = be16 (pkt ! frame_l4 pkt) (pkt ! (frame_l4 pkt + 1))"

definition frame_dst_port :: "u8 list \<Rightarrow> nat" where
  "frame_dst_port pkt = be16 (pkt ! (frame_l4 pkt + 2)) (pkt ! (frame_l4 pkt + 3))"

context cbpf_machine
begin

lemma ipv4_proto_verdict:
  "exec (ipv4_proto_filter p) pkt 0 A X =
    (if length pkt < 14 then 0
     else if frame_ethertype pkt \<noteq> 0x0800 then 65535
     else if length pkt < 24 then 0
     else if ucast (pkt ! 23) = p then 65535 else 0)"
  using load16_eq_iff [of 2048 pkt 12]
  by (simp add: ipv4_proto_filter_def step frame_ethertype_def)

lemma port_verdict:
  "exec (port_filter port) pkt 0 A X =
    (if length pkt < 14 then 0
     else if frame_ethertype pkt \<noteq> 0x0800 then 65535
     else if length pkt < 24 then 0
     else if pkt ! 23 \<noteq> 6 \<and> pkt ! 23 \<noteq> 17 then 65535
     else if length pkt < frame_l4 pkt + 2 then 0
     else if frame_src_port pkt = unat port then 65535
     else if length pkt < frame_l4 pkt + 4 then 0
     else if frame_dst_port pkt = unat port then 65535 else 0)"
proof -
  have ucast8: "(ucast (b :: u8) = (numeral n :: u32)) \<longleftrightarrow> unat b = unat (numeral n :: u32)" for b n
    by (simp add: word_unat_eq_iff)
  have off: "unat (4 * ucast (pkt ! 14 AND 0x0F) + 14 :: u32) = frame_l4 pkt"
    "unat (4 * ucast (pkt ! 14 AND 0x0F) + 16 :: u32) = frame_l4 pkt + 2"
    using msh_offset [of 14 "pkt ! 14"] msh_offset [of 16 "pkt ! 14"] by (simp_all add: frame_l4_def)
  have small: "frame_l4 pkt < 2147483648" "frame_l4 pkt + 2 < 2147483648"
    using frame_l4_le [of pkt] by simp_all
  show ?thesis
    using load16_eq_iff [of 2048 pkt 12] small
    by (simp add: port_filter_def step frame_ethertype_def off load16_eq_port frame_src_port_def
        frame_dst_port_def word_unat_eq_iff [of _ 6] word_unat_eq_iff [of _ 17] ucast8 numeral_3_eq_3)
qed

lemma arp_verdict:
  "exec arp_filter pkt 0 A X =
    (if length pkt < 14 then 0 else if frame_ethertype pkt = 0x0806 then 65535 else 0)"
  using load16_eq_iff [of 2054 pkt 12]
  by (simp add: arp_filter_def step frame_ethertype_def)

end

section \<open>Frames that the parsers accept\<close>

lemma frame_of_parsers:
  assumes "EthernetFrame_parse pkt = Some (Inr (eth, p1))" "EthernetFrame_ethertype eth = Some Ipv4"
    and "Ipv4Header_parse p1 = Some (Inr (ip, p2))"
  shows "frame_ethertype pkt = 0x0800" "34 \<le> length pkt" "Ipv4Header_protocol ip = Some (pkt ! 23)"
    "p2 = drop (frame_l4 pkt) pkt" "frame_l4 pkt \<le> length pkt"
proof -
  have eth: "14 \<le> length pkt" "eth_buffer eth = take 14 pkt" "p1 = drop 14 pkt"
    using assms(1) by (auto simp: eth.ok_iff)
  have ip: "20 \<le> ihl_len p1" "ihl_len p1 \<le> length p1" "ipv4_buffer ip = take (ihl_len p1) p1"
    "p2 = drop (ihl_len p1) p1"
    using assms(3) by (auto simp: ip4.ok_iff)
  show len: "34 \<le> length pkt" using ip eth by simp
  have l4: "frame_l4 pkt = 14 + ihl_len p1"
    using len by (simp add: frame_l4_def ihl_len_def eth)
  show "p2 = drop (frame_l4 pkt) pkt" "frame_l4 pkt \<le> length pkt"
    using ip eth by (simp_all add: l4 add.commute)
  show "Ipv4Header_protocol ip = Some (pkt ! 23)"
    using ip eth Ipv4Header_accessors [of ip] by simp
  have "take 2 (drop 12 (take 14 pkt)) = [pkt ! 12, pkt ! 13]"
    using eth by (simp add: list_eq_iff_nth_eq less_Suc_eq numeral_eq_Suc)
  then have "EtherType_from (from_be_bytes [pkt ! 12, pkt ! 13]) = Ipv4"
    using assms(2) eth EthernetFrame_accessors [of eth] by simp
  then have "unat (from_be_bytes [pkt ! 12, pkt ! 13] :: u16) = unat (0x0800 :: u16)"
    by (simp add: EtherType_from_def split: if_splits)
  then show "frame_ethertype pkt = 0x0800"
    by (simp add: unat_from_be_bytes_16 frame_ethertype_def)
qed

lemma take_2_at: "i + 2 \<le> length xs \<Longrightarrow> take 2 (drop i xs) = [xs ! i, xs ! (i + 1)]"
  by (simp add: list_eq_iff_nth_eq less_Suc_eq numeral_eq_Suc)

lemma port_eq_iff: "(from_be_bytes [a, b] = (port :: u16)) \<longleftrightarrow> be16 a b = unat port"
  by (simp add: word_unat_eq_iff unat_from_be_bytes_16)

lemma tcp_ports_of_frame:
  assumes "TcpHeader_parse (drop l4 pkt) = Some (Inr (h, d))"
  shows "l4 + 20 \<le> length pkt"
    "TcpHeader_source_port h = Some (from_be_bytes [pkt ! l4, pkt ! (l4 + 1)])"
    "TcpHeader_destination_port h = Some (from_be_bytes [pkt ! (l4 + 2), pkt ! (l4 + 3)])"
proof -
  have h: "20 \<le> data_offset_len (drop l4 pkt)" "data_offset_len (drop l4 pkt) \<le> length (drop l4 pkt)"
    "tcp_buffer h = take (data_offset_len (drop l4 pkt)) (drop l4 pkt)"
    using assms by (auto simp: tcp.ok_iff)
  then show len: "l4 + 20 \<le> length pkt" by simp
  have room: "2 \<le> data_offset_len (drop l4 pkt)" "2 \<le> data_offset_len (drop l4 pkt) - 2"
    using h by linarith+
  show "TcpHeader_source_port h = Some (from_be_bytes [pkt ! l4, pkt ! (l4 + 1)])"
    "TcpHeader_destination_port h = Some (from_be_bytes [pkt ! (l4 + 2), pkt ! (l4 + 3)])"
    using h len room TcpHeader_accessors [of h] take_2_at [of l4 pkt] take_2_at [of "l4 + 2" pkt]
    by (simp_all add: drop_take min_def numeral_3_eq_3 add.commute)
qed

lemma udp_ports_of_frame:
  assumes "UdpHeader_parse (drop l4 pkt) = Some (Inr (h, d))"
  shows "l4 + 8 \<le> length pkt"
    "UdpHeader_source_port h = Some (from_be_bytes [pkt ! l4, pkt ! (l4 + 1)])"
    "UdpHeader_destination_port h = Some (from_be_bytes [pkt ! (l4 + 2), pkt ! (l4 + 3)])"
proof -
  have h: "8 \<le> length (drop l4 pkt)" "udp_buffer h = take 8 (drop l4 pkt)"
    using assms by (auto simp: udp.ok_iff)
  then show len: "l4 + 8 \<le> length pkt" by simp
  show "UdpHeader_source_port h = Some (from_be_bytes [pkt ! l4, pkt ! (l4 + 1)])"
    "UdpHeader_destination_port h = Some (from_be_bytes [pkt ! (l4 + 2), pkt ! (l4 + 3)])"
    using h len UdpHeader_accessors [of h] take_2_at [of l4 pkt] take_2_at [of "l4 + 2" pkt]
    by (simp_all add: drop_take min_def numeral_3_eq_3 add.commute)
qed

section \<open>Properties\<close>

text \<open>
  C19: on every IPv4 frame that the parsers of \<open>netzer-core\<close> take as TCP or UDP, the kernel's
  verdict under the port filter agrees with the ports that the parsers read: the frame is kept
  if its source or destination port is the one asked for, and dropped otherwise.
\<close>

theorem port_filter_agrees_with_parsers:
  assumes "cbpf_machine exec"
    and "EthernetFrame_parse pkt = Some (Inr (eth, p1))" "EthernetFrame_ethertype eth = Some Ipv4"
    and "Ipv4Header_parse p1 = Some (Inr (ip, p2))"
    and "Ipv4Header_protocol ip = Some 6 \<and> TcpHeader_parse p2 = Some (Inr (t, d)) \<and>
          src = TcpHeader_source_port t \<and> dst = TcpHeader_destination_port t \<or>
        Ipv4Header_protocol ip = Some 17 \<and> UdpHeader_parse p2 = Some (Inr (u, d)) \<and>
          src = UdpHeader_source_port u \<and> dst = UdpHeader_destination_port u"
  shows "exec (port_filter port) pkt 0 0 0 = (if src = Some port \<or> dst = Some port then 65535 else 0)"
proof -
  note frame = frame_of_parsers [OF assms(2-4)]
  note verdict = cbpf_machine.port_verdict [OF assms(1), of port pkt 0 0]
  show ?thesis
    using assms(5)
  proof
    assume tcp: "Ipv4Header_protocol ip = Some 6 \<and> TcpHeader_parse p2 = Some (Inr (t, d)) \<and>
        src = TcpHeader_source_port t \<and> dst = TcpHeader_destination_port t"
    then have "TcpHeader_parse (drop (frame_l4 pkt) pkt) = Some (Inr (t, d))" using frame(4) by simp
    from tcp_ports_of_frame [OF this] tcp frame show ?thesis
      by (simp add: verdict port_eq_iff frame_src_port_def frame_dst_port_def)
  next
    assume udp: "Ipv4Header_protocol ip = Some 17 \<and> UdpHeader_parse p2 = Some (Inr (u, d)) \<and>
        src = UdpHeader_source_port u \<and> dst = UdpHeader_destination_port u"
    then have "UdpHeader_parse (drop (frame_l4 pkt) pkt) = Some (Inr (u, d))" using frame(4) by simp
    from udp_ports_of_frame [OF this] udp frame show ?thesis
      by (simp add: verdict port_eq_iff frame_src_port_def frame_dst_port_def)
  qed
qed

theorem port_filter_agrees_with_parsers_witness:
  "ref_exec (port_filter 53) (replicate 12 0 @ [8, 0] @ [0x45] @ replicate 8 0 @ [17] @ replicate 10 0 @
    [0, 53, 4, 0, 0, 8, 0, 0]) 0 0 0 = 65535"
proof -
  let ?ip = "[0x45] @ replicate 8 0 @ [17] @ replicate 10 0 :: u8 list"
  let ?udp = "[0, 53, 4, 0, 0, 8, 0, 0] :: u8 list"
  let ?pkt = "replicate 12 0 @ [8, 0] @ [0x45] @ replicate 8 0 @ [17] @ replicate 10 0 @ ?udp"
  have facts: "EthernetFrame_parse ?pkt = Some (Inr (\<lparr>eth_buffer = replicate 12 0 @ [8, 0]\<rparr>, ?ip @ ?udp))"
    "EthernetFrame_ethertype \<lparr>eth_buffer = replicate 12 0 @ [8, 0]\<rparr> = Some Ipv4"
    "Ipv4Header_parse (?ip @ ?udp) = Some (Inr (\<lparr>ipv4_buffer = ?ip\<rparr>, ?udp))"
    "Ipv4Header_protocol \<lparr>ipv4_buffer = ?ip\<rparr> = Some 17"
    "UdpHeader_parse ?udp = Some (Inr (\<lparr>udp_buffer = ?udp\<rparr>, []))"
    "UdpHeader_source_port \<lparr>udp_buffer = ?udp\<rparr> = Some 53"
    "UdpHeader_destination_port \<lparr>udp_buffer = ?udp\<rparr> = Some 1024"
    by code_simp+
  have udp: "Ipv4Header_protocol \<lparr>ipv4_buffer = ?ip\<rparr> = Some 17 \<and>
      UdpHeader_parse ?udp = Some (Inr (\<lparr>udp_buffer = ?udp\<rparr>, [])) \<and>
      Some 53 = UdpHeader_source_port \<lparr>udp_buffer = ?udp\<rparr> \<and>
      Some 1024 = UdpHeader_destination_port \<lparr>udp_buffer = ?udp\<rparr>"
    by (intro conjI facts facts(6,7) [symmetric])
  show ?thesis
    using port_filter_agrees_with_parsers [OF ref.cbpf_machine_axioms facts(1-3) disjI2 [OF udp], of 53]
    by simp
qed

text \<open>
  C34: the exact verdicts of the protocol filters. The ARP filter keeps exactly the ARP frames.
  The TCP, UDP and ICMP filters keep the IPv4 frames of their protocol, and also every frame
  that is not IPv4 at all: the jump of the failed EtherType test lands on the accepting return.
\<close>

theorem proto_filter_verdicts:
  assumes "cbpf_machine exec"
  shows "exec (ipv4_proto_filter p) pkt 0 0 0 =
      (if length pkt < 14 then 0
       else if frame_ethertype pkt \<noteq> 0x0800 then 65535
       else if length pkt < 24 then 0
       else if ucast (pkt ! 23) = p then 65535 else 0) \<and>
    exec arp_filter pkt 0 0 0 =
      (if length pkt < 14 then 0 else if frame_ethertype pkt = 0x0806 then 65535 else 0)"
  using cbpf_machine.ipv4_proto_verdict [OF assms] cbpf_machine.arp_verdict [OF assms] by simp

theorem proto_filter_verdicts_witness:
  "ref_exec (ipv4_proto_filter 6) (replicate 12 0 @ [8, 6] @ replicate 28 0) 0 0 0 = 65535"
  using proto_filter_verdicts [OF ref.cbpf_machine_axioms, of 6 "replicate 12 0 @ [8, 6] @ replicate 28 0"]
  by (simp add: frame_ethertype_def be16_eq nth_append)

text \<open>
  A port filter lets through every frame that is not IPv4, and every IPv4 frame that is
  neither TCP nor UDP, whatever the port: for these the program jumps to the accepting return,
  where a filter for one port has to drop them.
\<close>

theorem port_filter_passes_unfilterable:
  assumes "cbpf_machine exec" and "24 \<le> length pkt"
    and "frame_ethertype pkt \<noteq> 0x0800 \<or> pkt ! 23 \<noteq> 6 \<and> pkt ! 23 \<noteq> 17"
  shows "exec (port_filter port) pkt 0 0 0 = 65535"
  using assms(2,3) by (auto simp: cbpf_machine.port_verdict [OF assms(1)])

theorem port_filter_passes_unfilterable_witness:
  "ref_exec (port_filter 80) (replicate 12 0 @ [8, 6] @ replicate 28 0) 0 0 0 = 65535"
  by (rule port_filter_passes_unfilterable [OF ref.cbpf_machine_axioms])
    (simp_all add: frame_ethertype_def be16_eq nth_append)

end
