(* ===== verification/Ring_Layout.thy ===== *)
theory Ring_Layout
  imports Prelude
begin

text \<open>
  The shared memory of the TPACKET_V3 ring (\<open>netzer-socket/src/socket.rs\<close>, lines 226 to 295): its
  geometry, the request that asks the kernel for it, and the structures in it. The structures are
  \<open>repr(C)\<close>, so where their fields lie follows from their sizes and alignments by the rule of C:
  each field at the next multiple of its alignment.
\<close>

section \<open>Geometry\<close>

definition BLOCK_SIZE :: nat where
  "BLOCK_SIZE = 2 ^ 22"

definition BLOCK_NR :: nat where
  "BLOCK_NR = 8"

definition FRAME_SIZE :: nat where
  "FRAME_SIZE = 2 ^ 11"

definition BLOCK_TIMEOUT_MS :: u32 where
  "BLOCK_TIMEOUT_MS = 10"

definition RING_SIZE :: nat where
  "RING_SIZE = BLOCK_SIZE * BLOCK_NR"

record TpacketReq3 =
  tp_block_size :: u32
  tp_block_nr :: u32
  tp_frame_size :: u32
  tp_frame_nr :: u32
  tp_retire_blk_tov :: u32
  tp_sizeof_priv :: u32
  tp_feature_req_word :: u32

definition req3 :: TpacketReq3 where
  "req3 =
    (let frame_nr = BLOCK_SIZE div FRAME_SIZE * BLOCK_NR in
     \<lparr>tp_block_size = of_nat BLOCK_SIZE, tp_block_nr = of_nat BLOCK_NR, tp_frame_size = of_nat FRAME_SIZE,
      tp_frame_nr = of_nat frame_nr, tp_retire_blk_tov = BLOCK_TIMEOUT_MS, tp_sizeof_priv = 0,
      tp_feature_req_word = 0\<rparr>)"

section \<open>Structures in C layout\<close>

text \<open>A structure is the list of its fields, each with its size and alignment.\<close>

type_synonym c_struct = "(string \<times> nat \<times> nat) list"

definition round_up :: "nat \<Rightarrow> nat \<Rightarrow> nat" where
  "round_up al n = (n + (al - 1)) div al * al"

fun field_offsets :: "nat \<Rightarrow> c_struct \<Rightarrow> (string \<times> nat) list \<times> nat" where
  "field_offsets off [] = ([], off)"
| "field_offsets off ((f, sz, al) # fs) =
    (let at = round_up al off; (rest, total) = field_offsets (at + sz) fs in ((f, at) # rest, total))"

definition align_of :: "c_struct \<Rightarrow> nat" where
  "align_of s = foldr (\<lambda>(f, sz, al) m. max al m) s 1"

definition size_of :: "c_struct \<Rightarrow> nat" where
  "size_of s = round_up (align_of s) (snd (field_offsets 0 s))"

definition offset_of :: "c_struct \<Rightarrow> string \<Rightarrow> nat" where
  "offset_of s f = the (map_of (fst (field_offsets 0 s)) f)"

abbreviation (input) c_uint :: "string \<Rightarrow> string \<times> nat \<times> nat" where
  "c_uint f \<equiv> (f, 4, 4)"

abbreviation (input) c_ushort :: "string \<Rightarrow> string \<times> nat \<times> nat" where
  "c_ushort f \<equiv> (f, 2, 2)"

definition TpacketBdTs :: c_struct where
  "TpacketBdTs = [c_uint ''ts_sec'', c_uint ''ts_usec_or_nsec'']"

definition TpacketBdHeader :: c_struct where
  "TpacketBdHeader =
    [c_uint ''block_status'', c_uint ''num_pkts'', c_uint ''offset_to_first_pkt'', c_uint ''blk_len'',
     (''seq_num'', 8, 8), (''ts_first_pkt'', size_of TpacketBdTs, align_of TpacketBdTs),
     (''ts_last_pkt'', size_of TpacketBdTs, align_of TpacketBdTs)]"

definition TpacketBlockDesc :: c_struct where
  "TpacketBlockDesc =
    [c_uint ''version'', c_uint ''offset_to_priv'', (''hdr'', size_of TpacketBdHeader, align_of TpacketBdHeader)]"

definition Tpacket3Hdr :: c_struct where
  "Tpacket3Hdr =
    [c_uint ''tp_next_offset'', c_uint ''tp_sec'', c_uint ''tp_nsec'', c_uint ''tp_snaplen'',
     c_uint ''tp_len'', c_uint ''tp_status'', c_ushort ''tp_mac'', c_ushort ''tp_net'',
     c_ushort ''tp_vlan_tci'', c_ushort ''tp_vlan_tpid'', (''_padding'', 8, 1)]"

lemma hdr_offset [simp]: "offset_of TpacketBlockDesc ''hdr'' = 8"
  by code_simp

lemma TpacketBdHeader_offsets [simp]:
  "offset_of TpacketBdHeader ''block_status'' = 0" "offset_of TpacketBdHeader ''num_pkts'' = 4"
  "offset_of TpacketBdHeader ''offset_to_first_pkt'' = 8"
  by code_simp+

lemma Tpacket3Hdr_offsets [simp]:
  "offset_of Tpacket3Hdr ''tp_next_offset'' = 0" "offset_of Tpacket3Hdr ''tp_snaplen'' = 12"
  "offset_of Tpacket3Hdr ''tp_mac'' = 24"
  by code_simp+

section \<open>The request is one that the kernel takes\<close>

text \<open>
  What the documentation of packet sockets asks of a ring: whole pages in a block, frames aligned
  to 16 bytes that hold a header, whole frames in a block, and as many frames as the blocks hold.
\<close>

definition ring_request_ok :: "nat \<Rightarrow> TpacketReq3 \<Rightarrow> bool" where
  "ring_request_ok page r \<longleftrightarrow>
     0 < tp_block_size r \<and> unat (tp_block_size r) mod page = 0 \<and>
     size_of Tpacket3Hdr \<le> unat (tp_frame_size r) \<and> unat (tp_frame_size r) mod 16 = 0 \<and>
     unat (tp_block_size r) div unat (tp_frame_size r) * unat (tp_block_nr r) = unat (tp_frame_nr r)"

lemma req3_geometry:
  "ring_request_ok 4096 req3" "unat (tp_block_size req3) * unat (tp_block_nr req3) = RING_SIZE"
proof -
  have "size_of Tpacket3Hdr = 40" by code_simp
  then show "ring_request_ok 4096 req3"
    by (simp add: ring_request_ok_def req3_def BLOCK_SIZE_def BLOCK_NR_def FRAME_SIZE_def)
  show "unat (tp_block_size req3) * unat (tp_block_nr req3) = RING_SIZE"
    by (simp add: req3_def BLOCK_SIZE_def BLOCK_NR_def RING_SIZE_def)
qed

end
