(* ===== verification/System.thy ===== *)
theory System
  imports Bpf_Filter Ring_Layout
begin

text \<open>
  The system calls of \<open>netzer-socket/src/socket.rs\<close>: opening and binding the two kinds of
  sockets, attaching filters, and dropping privileges. The kernel is a parameter \<open>os\<close>: given the
  calls made so far with their results, it says what the next call returns. An operation takes
  the trace of calls and returns it extended, with its \<open>io::Result\<close>. Resources and credentials
  are read off the trace.
\<close>

section \<open>System calls\<close>

datatype call =
    Socket
  | Set_Version int int
  | Set_Ring int TpacketReq3
  | Mmap int nat
  | Ioctl_Index int rstr
  | Bind int int
  | Munmap int nat
  | Close int
  | Attach_Filter int "sock_filter list"
  | Getuid
  | Setgid u32
  | Setuid u32
  | Print rstr
  | Create_File rstr
  | Write_Header rstr
  | Start_Web u16
  | Recv int nat

text \<open>A result: the return code, and the value written or the error number.\<close>

record sysret =
  rc :: int
  val :: int

type_synonym trace = "(call \<times> sysret) list"
type_synonym os = "trace \<Rightarrow> call \<Rightarrow> sysret"

definition do_call :: "os \<Rightarrow> trace \<Rightarrow> call \<Rightarrow> (trace \<Rightarrow> sysret \<Rightarrow> 'r) \<Rightarrow> 'r" where
  "do_call os tr c cont = cont (tr @ [(c, os tr c)]) (os tr c)"

datatype io_error = OsError int | NulError | InvalidInput rstr | InvalidData rstr

type_synonym 'a io_result = "trace \<times> (io_error + 'a)"

text \<open>\<open>let err = last_os_error(); close(fd); return Err(err);\<close>\<close>

definition close_and_fail :: "os \<Rightarrow> trace \<Rightarrow> int \<Rightarrow> sysret \<Rightarrow> 'a io_result" where
  "close_and_fail os tr fd r = do_call os tr (Close fd) (\<lambda>tr _. (tr, Inl (OsError (val r))))"

section \<open>The raw socket\<close>

abbreviation (input) IFNAMSIZ :: nat where
  "IFNAMSIZ \<equiv> 16"

definition c_string :: "rstr \<Rightarrow> rstr option" where
  \<comment> \<open>\<open>CString::new\<close> with \<open>as_bytes_with_nul\<close>: no inner zero byte, and one at the end\<close>
  "c_string s = (if 0 \<in> set s then None else Some (s @ [0]))"

definition ifr_name :: "rstr \<Rightarrow> rstr" where
  \<comment> \<open>the zeroed array after the copying loop\<close>
  "ifr_name name_bytes = take IFNAMSIZ name_bytes @ replicate (IFNAMSIZ - length name_bytes) 0"

definition RawSocket_new :: "os \<Rightarrow> trace \<Rightarrow> rstr \<Rightarrow> int io_result" where
  "RawSocket_new os tr interface_name =
    do_call os tr Socket (\<lambda>tr r.
      if rc r < 0 then (tr, Inl (OsError (val r)))
      else
        let fd = rc r in
        case c_string interface_name of
          None \<Rightarrow> (tr, Inl NulError)
        | Some name_bytes \<Rightarrow>
            if IFNAMSIZ < length name_bytes then (tr, Inl (InvalidInput (lit ''Interface name too long'')))
            else
              do_call os tr (Ioctl_Index fd (ifr_name name_bytes)) (\<lambda>tr r.
                if rc r < 0 then close_and_fail os tr fd r
                else
                  let ifindex = val r in
                  do_call os tr (Bind fd ifindex) (\<lambda>tr r.
                    if rc r < 0 then close_and_fail os tr fd r
                    else (tr, Inr fd))))"

definition attach_filter :: "os \<Rightarrow> trace \<Rightarrow> int \<Rightarrow> sock_filter list \<Rightarrow> unit io_result" where
  "attach_filter os tr fd prog =
    do_call os tr (Attach_Filter fd prog) (\<lambda>tr r.
      if rc r < 0 then (tr, Inl (OsError (val r))) else (tr, Inr ()))"

definition attach_filter_port :: "os \<Rightarrow> trace \<Rightarrow> int \<Rightarrow> u16 \<Rightarrow> unit io_result" where
  "attach_filter_port os tr fd port = attach_filter os tr fd (port_filter port)"

definition attach_filter_proto :: "os \<Rightarrow> trace \<Rightarrow> int \<Rightarrow> rstr \<Rightarrow> unit io_result" where
  "attach_filter_proto os tr fd proto =
    (case proto_filter proto of
       None \<Rightarrow> (tr, Inl (InvalidInput (lit ''Unsupported protocol for BPF'')))
     | Some prog \<Rightarrow> attach_filter os tr fd prog)"

text \<open>\<open>recv\<close> into a buffer of the given length.\<close>

definition RawSocket_recv :: "os \<Rightarrow> trace \<Rightarrow> int \<Rightarrow> nat \<Rightarrow> nat io_result" where
  "RawSocket_recv os tr fd buffer_len =
    do_call os tr (Recv fd buffer_len) (\<lambda>tr r.
      if rc r < 0 then (tr, Inl (OsError (val r))) else (tr, Inr (nat (rc r))))"

definition RawSocket_drop :: "os \<Rightarrow> trace \<Rightarrow> int \<Rightarrow> trace" where
  "RawSocket_drop os tr fd = do_call os tr (Close fd) (\<lambda>tr _. tr)"

section \<open>The ring socket\<close>

abbreviation (input) TPACKET_V3 :: int where
  "TPACKET_V3 \<equiv> 2"

text \<open>
  The result is the descriptor and the address of the mapping. The result of the ioctl is not looked at; the kernel fills in the index only when it succeeds,
  and the structure was zeroed.
\<close>

definition RingSocket_new :: "os \<Rightarrow> trace \<Rightarrow> rstr \<Rightarrow> (int \<times> int) io_result" where
  "RingSocket_new os tr interface_name =
    do_call os tr Socket (\<lambda>tr r.
      if rc r < 0 then (tr, Inl (OsError (val r)))
      else
        let fd = rc r in
        do_call os tr (Set_Version fd TPACKET_V3) (\<lambda>tr r.
          if rc r < 0 then close_and_fail os tr fd r
          else do_call os tr (Set_Ring fd req3) (\<lambda>tr r.
            if rc r < 0 then close_and_fail os tr fd r
            else do_call os tr (Mmap fd RING_SIZE) (\<lambda>tr r.
              if rc r < 0 then close_and_fail os tr fd r
              else
                let ring_ptr = val r in
                case c_string interface_name of
                  None \<Rightarrow> (tr, Inl NulError)
                | Some name_bytes \<Rightarrow>
                    do_call os tr (Ioctl_Index fd (ifr_name name_bytes)) (\<lambda>tr r.
                      let ifindex = (if rc r < 0 then 0 else val r) in
                      do_call os tr (Bind fd ifindex) (\<lambda>tr r.
                        if rc r < 0 then
                          do_call os tr (Munmap ring_ptr RING_SIZE) (\<lambda>tr _.
                            do_call os tr (Close fd) (\<lambda>tr _. (tr, Inl (OsError (val r)))))
                        else (tr, Inr (fd, ring_ptr))))))))"

definition RingSocket_drop :: "os \<Rightarrow> trace \<Rightarrow> int \<times> int \<Rightarrow> trace" where
  "RingSocket_drop os tr s =
    do_call os tr (Munmap (snd s) RING_SIZE) (\<lambda>tr _. do_call os tr (Close (fst s)) (\<lambda>tr _. tr))"

section \<open>Dropping privileges\<close>

text \<open>\<open>str::parse::<u32>\<close>: an optional plus sign and at least one digit, in range.\<close>

definition parse_u32 :: "rstr \<Rightarrow> u32 option" where
  "parse_u32 s =
    (let d = (case s of [] \<Rightarrow> [] | c # cs \<Rightarrow> if c = 43 then cs else s) in
     if d \<noteq> [] \<and> list_all dec_digit d \<and> dec_value d < 2 ^ 32 then Some (of_nat (dec_value d)) else None)"

text \<open>\<open>setgid\<close>, then \<open>setuid\<close>, then a line of output; the first failure is returned.\<close>

definition switch_ids :: "os \<Rightarrow> trace \<Rightarrow> u32 \<Rightarrow> u32 \<Rightarrow> rstr \<Rightarrow> unit io_result" where
  "switch_ids os tr uid gid message =
    do_call os tr (Setgid gid) (\<lambda>tr r.
      if rc r < 0 then (tr, Inl (OsError (val r)))
      else do_call os tr (Setuid uid) (\<lambda>tr r.
        if rc r < 0 then (tr, Inl (OsError (val r)))
        else do_call os tr (Print message) (\<lambda>tr _. (tr, Inr ()))))"

text \<open>The two variables are those of the environment, when set.\<close>

definition drop_privileges :: "os \<Rightarrow> trace \<Rightarrow> rstr option \<Rightarrow> rstr option \<Rightarrow> unit io_result" where
  "drop_privileges os tr sudo_uid sudo_gid =
    do_call os tr Getuid (\<lambda>tr r.
      if rc r \<noteq> 0 then (tr, Inr ())
      else
        case (sudo_uid, sudo_gid) of
          (Some uid_str, Some gid_str) \<Rightarrow>
            (case parse_u32 uid_str of
               None \<Rightarrow> (tr, Inl (InvalidData (lit ''Failed to parse SUDO_UID'')))
             | Some uid \<Rightarrow>
                 (case parse_u32 gid_str of
                    None \<Rightarrow> (tr, Inl (InvalidData (lit ''Failed to parse SUDO_GID'')))
                  | Some gid \<Rightarrow>
                      switch_ids os tr uid gid
                        (lit '' [SECURITY] Privilege Dropping: Swapped from root to UID='' @ fmt_dec (unat uid) @
                         lit '', GID='' @ fmt_dec (unat gid))))
        | _ \<Rightarrow>
            switch_ids os tr 65534 65534
              (lit '' [SECURITY] Privilege Dropping: Swapped from root to '' @ [39] @ lit ''nobody'' @ [39] @ lit '' (UID='' @ fmt_dec 65534 @
               lit '', GID='' @ fmt_dec 65534 @ lit '')''))"

section \<open>What a trace holds\<close>

text \<open>The descriptors and mappings that are open after a trace, and the user and group ids.\<close>

fun fd_step :: "int list \<Rightarrow> call \<times> sysret \<Rightarrow> int list" where
  "fd_step fds (Socket, r) = (if rc r < 0 then fds else fds @ [rc r])"
| "fd_step fds (Close fd, r) = filter (\<lambda>x. x \<noteq> fd) fds"
| "fd_step fds _ = fds"

definition open_fds :: "trace \<Rightarrow> int list" where
  "open_fds tr = foldl fd_step [] tr"

fun map_step :: "int list \<Rightarrow> call \<times> sysret \<Rightarrow> int list" where
  "map_step ms (Mmap fd n, r) = (if rc r < 0 then ms else ms @ [val r])"
| "map_step ms (Munmap a n, r) = filter (\<lambda>x. x \<noteq> a) ms"
| "map_step ms _ = ms"

definition mappings :: "trace \<Rightarrow> int list" where
  "mappings tr = foldl map_step [] tr"

fun id_step :: "u32 \<times> u32 \<Rightarrow> call \<times> sysret \<Rightarrow> u32 \<times> u32" where
  "id_step (u, g) (Setuid x, r) = (if rc r < 0 then (u, g) else (x, g))"
| "id_step (u, g) (Setgid x, r) = (if rc r < 0 then (u, g) else (u, x))"
| "id_step ids _ = ids"

definition ids_after :: "u32 \<times> u32 \<Rightarrow> trace \<Rightarrow> u32 \<times> u32" where
  "ids_after ids tr = foldl id_step ids tr"

text \<open>The interface indices that sockets were bound to, and those that lookups returned.\<close>

definition bound :: "trace \<Rightarrow> int list" where
  "bound tr = concat (map (\<lambda>(c, r). case c of Bind fd i \<Rightarrow> if rc r < 0 then [] else [i] | _ \<Rightarrow> []) tr)"

definition looked_up :: "trace \<Rightarrow> int list" where
  "looked_up tr = concat (map (\<lambda>(c, r). case c of Ioctl_Index fd n \<Rightarrow> if rc r < 0 then [] else [val r] | _ \<Rightarrow> []) tr)"

lemmas trace_defs = open_fds_def mappings_def ids_after_def bound_def looked_up_def do_call_def
  close_and_fail_def Let_def

definition target_ids :: "rstr option \<Rightarrow> rstr option \<Rightarrow> (u32 \<times> u32) option" where
  "target_ids sudo_uid sudo_gid =
    (case (sudo_uid, sudo_gid) of
       (Some u, Some g) \<Rightarrow>
         (case (parse_u32 u, parse_u32 g) of (Some uid, Some gid) \<Rightarrow> Some (uid, gid) | _ \<Rightarrow> None)
     | _ \<Rightarrow> Some (65534, 65534))"

section \<open>Properties\<close>

text \<open>
  C26: the resources of \<open>RawSocket::new\<close>. On success exactly the returned descriptor is open, and it
  is bound to the index that the kernel gave for the interface. After an error of a system call
  nothing is open. After a bad interface name (an inner zero byte, or sixteen bytes or more) the
  descriptor stays open: those two returns do not close it.
\<close>

theorem RawSocket_new_resources:
  "case RawSocket_new os [] name of
     (tr, Inr fd) \<Rightarrow> open_fds tr = [fd] \<and> bound tr = looked_up tr \<and> length (bound tr) = 1 \<and> 0 \<notin> set name \<and> length name \<le> 15
   | (tr, Inl (OsError e)) \<Rightarrow> open_fds tr = [] \<and> bound tr = []
   | (tr, Inl e) \<Rightarrow> open_fds tr = [rc (os [] Socket)]"
  by (simp add: RawSocket_new_def trace_defs c_string_def)

text \<open>
  C27: the resources of \<open>RingSocket::new\<close>. On success exactly the returned descriptor and mapping
  are open; after an error of a system call nothing is; after an interface name with an inner
  zero byte both stay open.
\<close>

theorem RingSocket_new_resources:
  "case RingSocket_new os [] name of
     (tr, Inr (fd, ring)) \<Rightarrow> open_fds tr = [fd] \<and> mappings tr = [ring] \<and> length (bound tr) = 1
   | (tr, Inl (OsError e)) \<Rightarrow> open_fds tr = [] \<and> mappings tr = [] \<and> bound tr = []
   | (tr, Inl e) \<Rightarrow> 0 \<in> set name \<and> length (open_fds tr) = 1 \<and> length (mappings tr) = 1"
  by (simp add: RingSocket_new_def trace_defs c_string_def)

text \<open>
  C29: on a machine without the interface asked for, where the lookup is the one call that fails,
  the raw socket is refused, but the ring socket opens, bound to index zero, which is every
  interface of the machine.
\<close>

theorem ring_binds_every_interface:
  assumes "\<And>tr c. rc (os tr c) < 0 \<longleftrightarrow> (\<exists>fd n. c = Ioctl_Index fd n)" and "0 \<notin> set name" "length name \<le> 15"
  shows "(\<exists>tr e. RawSocket_new os [] name = (tr, Inl (OsError e)) \<and> open_fds tr = []) \<and>
    (\<exists>tr s. RingSocket_new os [] name = (tr, Inr s) \<and> bound tr = [0])"
  using assms by (simp add: RawSocket_new_def RingSocket_new_def trace_defs c_string_def)

theorem ring_binds_every_interface_witness:
  "\<exists>tr s. RingSocket_new (\<lambda>tr c. \<lparr>rc = (case c of Ioctl_Index fd n \<Rightarrow> -1 | _ \<Rightarrow> 3), val = 19\<rparr>) [] (lit ''nope0'') =
    (tr, Inr s) \<and> bound tr = [0]"
  by (rule ring_binds_every_interface [THEN conjunct2]) (auto simp: lit_def split: call.split)

text \<open>
  C28: dropping privileges. A process that is not root is left alone. A root process that returns
  \<open>Ok\<close> has set the group first and the user second, both with success, to the ids of the sudo
  variables if both are set, and to nobody's otherwise. A root process that gets an error still
  has user id zero.
\<close>

theorem drop_privileges_ids:
  "case drop_privileges os [] sudo_uid sudo_gid of
     (tr, Inr _) \<Rightarrow>
       (if rc (os [] Getuid) \<noteq> 0 then map fst tr = [Getuid]
        else \<exists>uid gid message. target_ids sudo_uid sudo_gid = Some (uid, gid) \<and>
          map fst tr = [Getuid, Setgid gid, Setuid uid, Print message] \<and> ids_after (0, 0) tr = (uid, gid))
   | (tr, Inl _) \<Rightarrow> rc (os [] Getuid) = 0 \<and> fst (ids_after (0, 0) tr) = 0"
  by (simp add: drop_privileges_def switch_ids_def target_ids_def trace_defs split: option.split)

end
