(* ===== verification/Cli_Main.thy ===== *)
theory Cli_Main
  imports Pipeline System
begin

text \<open>
  The main function of the command line program (\<open>netzer-cli/src/main.rs\<close>, lines 634 to 801): the
  order in which it opens the socket, attaches filters, creates the export files, drops
  privileges, starts the web server and reports its options, with its exits; then the capture
  loops over the results of \<open>recv\<close> and of \<open>recv_block\<close>. The parsing of the arguments is the crate
  \<open>clap\<close>'s: the record \<open>args\<close> is what it returns.
\<close>

section \<open>Model\<close>

record args =
  interface :: rstr
  filter_port :: "u16 option"
  filter_proto :: "rstr option"
  export_pcap :: "rstr option"
  export_json :: "rstr option"
  hexdump_flag :: bool
  follow_streams :: bool
  ring_buffer :: bool
  serve :: bool
  web_port :: u16

datatype socket = Raw int | Ring int int

text \<open>An exit with its code, the headline of its error message, and the hint, if there is one.\<close>

datatype failure = Exit nat rstr rstr

text \<open>The hint printed for a raw socket error.\<close>

fun open_hint :: "io_error \<Rightarrow> rstr" where
  "open_hint (OsError e) =
    (if e = 1 \<or> e = 13 then lit ''Hint: NetZer requires CAP_NET_RAW. Try running with '' @ [39] @ lit ''sudo'' @ [39] @ lit ''.''
     else if e = 19 then lit ''Hint: The specified interface does not exist. Check '' @ [39] @ lit ''ifconfig'' @ [39] @
       lit '' or '' @ [39] @ lit ''ip link'' @ [39] @ lit ''.''
     else lit ''Hint: Ensure the interface is up and you have sufficient permissions.'')"
| "open_hint _ = lit ''Hint: Ensure the interface is up and you have sufficient permissions.''"

definition open_socket :: "os \<Rightarrow> args \<Rightarrow> trace \<Rightarrow> trace \<times> (failure + socket)" where
  "open_socket os a tr =
    (if ring_buffer a then
       (case RingSocket_new os tr (interface a) of
          (tr, Inr (fd, ring)) \<Rightarrow> (tr, Inr (Ring fd ring))
        | (tr, Inl e) \<Rightarrow> (tr, Inl (Exit 1 (lit ''Failed to open ring socket (TPACKET_V3).'')
            (lit ''Hint: TPACKET_V3 requires a kernel >= 3.2 and CAP_NET_RAW.''))))
     else
       (case RawSocket_new os tr (interface a) of
          (tr, Inr fd) \<Rightarrow> (tr, Inr (Raw fd))
        | (tr, Inl e) \<Rightarrow> (tr, Inl (Exit 1 (lit ''Failed to open raw socket.'') (open_hint e)))))"

definition then_setup :: "trace \<times> (failure + 'a) \<Rightarrow> ('a \<Rightarrow> trace \<Rightarrow> trace \<times> (failure + 'b)) \<Rightarrow> trace \<times> (failure + 'b)" where
  "then_setup r f = (case r of (tr, Inl e) \<Rightarrow> (tr, Inl e) | (tr, Inr x) \<Rightarrow> f x tr)"

definition or_exit :: "'a io_result \<Rightarrow> rstr \<Rightarrow> trace \<times> (failure + 'a)" where
  "or_exit r msg = (case r of (tr, Inl e) \<Rightarrow> (tr, Inl (Exit 1 msg [])) | (tr, Inr x) \<Rightarrow> (tr, Inr x))"

definition apply_filters :: "os \<Rightarrow> args \<Rightarrow> socket \<Rightarrow> trace \<Rightarrow> trace \<times> (failure + unit)" where
  "apply_filters os a s tr =
    (case s of
       Ring _ _ \<Rightarrow> (tr, Inr ())
     | Raw fd \<Rightarrow>
         then_setup
           (case filter_port a of
              None \<Rightarrow> (tr, Inr ())
            | Some port \<Rightarrow> or_exit (attach_filter_port os tr fd port) (lit ''Failed to attach BPF port filter.''))
           (\<lambda>_ tr.
             case filter_proto a of
               None \<Rightarrow> (tr, Inr ())
             | Some proto \<Rightarrow>
                 or_exit (attach_filter_proto os tr fd proto) (lit ''Failed to attach BPF protocol filter.'')))"

text \<open>\<open>PcapWriter::create\<close> creates the file and writes its header; \<open>JsonWriter::create\<close> only creates it.\<close>

definition create_exports :: "os \<Rightarrow> args \<Rightarrow> trace \<Rightarrow> trace \<times> (failure + unit)" where
  "create_exports os a tr =
    then_setup
      (case export_pcap a of
         None \<Rightarrow> (tr, Inr ())
       | Some path \<Rightarrow>
           do_call os tr (Create_File path) (\<lambda>tr r.
             if rc r < 0 then (tr, Inl (Exit 1 (lit ''Failed to create PCAP file'') []))
             else do_call os tr (Write_Header path) (\<lambda>tr r.
               if rc r < 0 then (tr, Inl (Exit 1 (lit ''Failed to create PCAP file'') []))
               else (tr, Inr ()))))
      (\<lambda>_ tr.
        case export_json a of
          None \<Rightarrow> (tr, Inr ())
        | Some path \<Rightarrow>
            do_call os tr (Create_File path) (\<lambda>tr r.
              if rc r < 0 then (tr, Inl (Exit 1 (lit ''Failed to create JSON file'') []))
              else (tr, Inr ())))"

definition start_web :: "os \<Rightarrow> args \<Rightarrow> trace \<Rightarrow> trace" where
  "start_web os a tr = (if serve a then do_call os tr (Start_Web (web_port a)) (\<lambda>tr _. tr) else tr)"

text \<open>The status report, line by line. Upper case is Unicode's and a parameter.\<close>

definition table_rule :: rstr where
  "table_rule =
    (let cross = [0xE2, 0x94, 0xBC] in
     rule_line 16 @ cross @ rule_line 7 @ cross @ rule_line 23 @ cross @ rule_line 23 @ cross @ rule_line 37 @
     cross @ rule_line 8)"

text \<open>The banner: block and double-line box drawing characters, one letter for each.\<close>

definition art_char :: "char \<Rightarrow> rstr" where
  "art_char c =
    (if c = CHR ''#'' then [0xE2, 0x96, 0x88] else if c = CHR ''7'' then [0xE2, 0x95, 0x97]
     else if c = CHR ''J'' then [0xE2, 0x95, 0x9D] else if c = CHR ''L'' then [0xE2, 0x95, 0x9A]
     else if c = CHR ''r'' then [0xE2, 0x95, 0x94] else if c = CHR ''I'' then [0xE2, 0x95, 0x91]
     else if c = CHR ''='' then [0xE2, 0x95, 0x90] else [of_char c])"

definition art :: "string \<Rightarrow> rstr" where
  "art s = concat (map art_char s)"

definition banner_text :: rstr where
  "banner_text =
     [10] @ art ''    ###7   ##7#######7########7#######7#######7######7 '' @ [10] @
     art ''    ####7  ##I##r====JL==##r==JL==###rJ##r====J##r==##7'' @ [10] @
     art ''    ##r##7 ##I#####7     ##I     ###rJ #####7  ######rJ'' @ [10] @
     art ''    ##IL##7##I##r==J     ##I    ###rJ  ##r==J  ##r==##7'' @ [10] @
     art ''    ##I L####I#######7   ##I   #######7#######7##I  ##I'' @ [10] @
     art ''    L=J  L===JL======J   L=J   L======JL======JL=J  L=J'' @ [10] @ lit ''    ''"

definition print_banner :: "env \<Rightarrow> rstr \<Rightarrow> rstr list" where
  "print_banner env iface =
    (let head = (\<lambda>n s. paint env [BrightBlack, Bold] (pad_right n (lit s))) in
     [paint env [BrightCyan, Bold] banner_text,
      paint env [BrightBlack] (replicate 120 61),
      lit ''  '' @ paint env [BrightGreen] (lit ''v0.1.0-alpha'') @ lit '' '' @
        paint env [Italic] (lit ''| High-Performance Zero-Copy Network Analyzer''),
      lit ''  '' @ paint env [Bold] (lit ''Listening on:'') @ lit '' '' @ paint env [BrightYellow] iface,
      paint env [BrightBlack] (replicate 120 61),
      lit '' '' @ head 14 ''TIMESTAMP'' @ bar @ head 5 ''PROTO'' @ bar @ head 21 ''SOURCE'' @ bar @
        head 21 ''DESTINATION'' @ bar @ head 35 ''INFO / DOMAIN'' @ bar @ head 6 ''SIZE'',
      paint env [BrightBlack] table_rule])"

definition print_status_line :: "env \<Rightarrow> rstr \<Rightarrow> rstr \<Rightarrow> rstr list" where
  "print_status_line env label value =
    [lit '' [SYSTEM] '' @ label @ lit '': '' @ paint env [BrightGreen] value, paint env [BrightBlack] table_rule]"

definition filters_active :: rstr where
  "filters_active = lit '' [SECURITY] BPF Kernel Filters Active:''"

definition status_report :: "env \<Rightarrow> (rstr \<Rightarrow> rstr) \<Rightarrow> args \<Rightarrow> rstr list" where
  "status_report env upper a =
    (if ring_buffer a
     then print_status_line env (lit ''Capture Mode'') (lit ''TPACKET_V3 Ring Buffer (zero-copy mmap)'') else []) @
    (if hexdump_flag a
     then print_status_line env (lit ''Hex/ASCII Dump'') (lit ''Active (printing raw bytes for each packet)'') else []) @
    (if follow_streams a
     then print_status_line env (lit ''Follow Streams'') (lit ''Active (TCP stream reassembly enabled)'') else []) @
    (if serve a
     then print_status_line env (lit ''OSINT Dashboard'')
       (lit ''Active (http://127.0.0.1:'' @ fmt_dec (unat (web_port a)) @ lit '')'') else []) @
    (if filter_port a \<noteq> None \<or> filter_proto a \<noteq> None then
       [filters_active] @
       (case filter_port a of None \<Rightarrow> []
        | Some port \<Rightarrow> [lit ''   - Port: '' @ paint env [BrightYellow] (fmt_dec (unat port))]) @
       (case filter_proto a of None \<Rightarrow> []
        | Some proto \<Rightarrow> [lit ''   - Protocol: '' @ paint env [BrightYellow] (upper proto)]) @
       [paint env [BrightBlack] table_rule]
     else []) @
    (case export_pcap a of None \<Rightarrow> [] | Some path \<Rightarrow> print_status_line env (lit ''PCAP Export'') path) @
    (case export_json a of None \<Rightarrow> [] | Some path \<Rightarrow> print_status_line env (lit ''JSON Export'') path)"

text \<open>Everything up to the capture loop.\<close>

definition main_setup :: "os \<Rightarrow> rstr option \<Rightarrow> rstr option \<Rightarrow> args \<Rightarrow> trace \<times> (failure + socket)" where
  "main_setup os sudo_uid sudo_gid a =
    then_setup (open_socket os a []) (\<lambda>s tr.
    then_setup (apply_filters os a s tr) (\<lambda>_ tr.
    then_setup (create_exports os a tr) (\<lambda>_ tr.
    then_setup (or_exit (drop_privileges os tr sudo_uid sudo_gid) (lit ''Failed to drop root privileges.'')) (\<lambda>_ tr.
      (start_web os a tr, Inr s)))))"

text \<open>The world that the capture loop starts in, after the banner and the status report.\<close>

definition initial_world :: "env \<Rightarrow> (rstr \<Rightarrow> rstr) \<Rightarrow> args \<Rightarrow> world" where
  "initial_world env upper a =
    \<lparr>stdout = concat (map (\<lambda>l. l @ [10]) (print_banner env (interface a) @ status_report env upper a)),
     pcap_writer = (case export_pcap a of None \<Rightarrow> None | Some _ \<Rightarrow> Some \<lparr>pcap_file = the (pcap_header (big_endian env))\<rparr>),
     json_writer = (case export_json a of None \<Rightarrow> None | Some _ \<Rightarrow> Some \<lparr>json_file = []\<rparr>),
     stream_tracker = (if follow_streams a then Some TcpStreamTracker_new else None),
     web_messages = (if serve a then Some [] else None)\<rparr>"

text \<open>The loop over \<open>recv\<close>, and the loop over the blocks of the ring; an error is reported and skipped.\<close>

datatype recv_result = Received capture | Recv_Error int

fun raw_loop :: "env \<Rightarrow> recv_result list \<Rightarrow> world \<Rightarrow> outcome" where
  "raw_loop env [] w = Done w"
| "raw_loop env (Received c # es) w = and_then (process_packet env c (length (frame c)) w) (raw_loop env es)"
| "raw_loop env (Recv_Error e # es) w = raw_loop env es w"

datatype block_result = Block "capture list" | Block_Error int

fun block_loop :: "env \<Rightarrow> capture list \<Rightarrow> world \<Rightarrow> outcome" where
  "block_loop env [] w = Done w"
| "block_loop env (c # cs) w = and_then (process_packet env c (length (frame c)) w) (block_loop env cs)"

fun ring_loop :: "env \<Rightarrow> block_result list \<Rightarrow> world \<Rightarrow> outcome" where
  "ring_loop env [] w = Done w"
| "ring_loop env (Block cs # es) w = and_then (block_loop env cs w) (ring_loop env es)"
| "ring_loop env (Block_Error e # es) w = ring_loop env es w"

section \<open>What each step adds to the trace\<close>

text \<open>The calls that need privileges or leave files behind, and the filters put in force.\<close>

fun privileged :: "call \<Rightarrow> bool" where
  "privileged Getuid \<longleftrightarrow> False"
| "privileged (Setgid g) \<longleftrightarrow> False"
| "privileged (Setuid u) \<longleftrightarrow> False"
| "privileged (Print s) \<longleftrightarrow> False"
| "privileged (Start_Web p) \<longleftrightarrow> False"
| "privileged (Recv fd n) \<longleftrightarrow> False"
| "privileged _ \<longleftrightarrow> True"

definition attached :: "trace \<Rightarrow> sock_filter list list" where
  "attached tr = concat (map (\<lambda>(c, r). case c of Attach_Filter fd p \<Rightarrow> if rc r < 0 then [] else [p] | _ \<Rightarrow> []) tr)"

definition requested_filters :: "args \<Rightarrow> sock_filter list list" where
  "requested_filters a =
    (case filter_port a of None \<Rightarrow> [] | Some port \<Rightarrow> [port_filter port]) @
    (case filter_proto a of None \<Rightarrow> [] | Some proto \<Rightarrow> (case proto_filter proto of None \<Rightarrow> [] | Some p \<Rightarrow> [p]))"

lemma attached_append [simp]: "attached (xs @ ys) = attached xs @ attached ys"
  by (simp add: attached_def)

lemma attached_Nil [simp]: "attached [] = []"
  by (simp add: attached_def)

definition adds :: "trace \<Rightarrow> trace \<Rightarrow> sock_filter list list \<Rightarrow> bool" where
  "adds tr tr' fs \<longleftrightarrow> (\<exists>new. tr' = tr @ new \<and> list_all (\<lambda>x. privileged (fst x)) new \<and> attached new = fs)"

lemma adds_refl [simp]: "adds tr tr []"
  by (simp add: adds_def)

lemma adds_trans: "\<lbrakk>adds tr tr' fs; adds tr' tr'' gs\<rbrakk> \<Longrightarrow> adds tr tr'' (fs @ gs)"
  by (auto simp: adds_def)

lemma adds_append [simp]: "adds tr (tr @ xs) fs \<longleftrightarrow> list_all (\<lambda>x. privileged (fst x)) xs \<and> attached xs = fs"
  by (auto simp: adds_def)

lemma then_setup_Inr: "then_setup r f = (tr, Inr y) \<longleftrightarrow> (\<exists>tr' x. r = (tr', Inr x) \<and> f x tr' = (tr, Inr y))"
  by (auto simp: then_setup_def split: prod.split sum.split)

lemma or_exit_Inr: "or_exit r msg = (tr, Inr y) \<longleftrightarrow> r = (tr, Inr y)"
  by (auto simp: or_exit_def split: prod.split sum.split)

lemma open_socket_adds:
  assumes "open_socket os a tr = (tr', Inr s)"
  shows "adds tr tr' [] \<and> (case s of Ring _ _ \<Rightarrow> ring_buffer a | Raw _ \<Rightarrow> \<not> ring_buffer a)"
  using assms
  by (auto simp: open_socket_def RingSocket_new_def RawSocket_new_def do_call_def close_and_fail_def Let_def
      attached_def split: if_splits option.splits)

lemma attach_adds:
  "attach_filter_port os tr fd port = (tr', Inr u) \<Longrightarrow> adds tr tr' [port_filter port]"
  "attach_filter_proto os tr fd proto = (tr', Inr u) \<Longrightarrow>
    adds tr tr' (case proto_filter proto of None \<Rightarrow> [] | Some p \<Rightarrow> [p])"
  by (auto simp: attach_filter_port_def attach_filter_proto_def attach_filter_def do_call_def attached_def
      split: if_splits option.splits)

lemma apply_filters_adds:
  assumes "apply_filters os a s tr = (tr', Inr u)"
  shows "adds tr tr' (case s of Ring _ _ \<Rightarrow> [] | Raw _ \<Rightarrow> requested_filters a)"
proof (cases s)
  case (Raw fd)
  from assms obtain tr1 where
    first: "(case filter_port a of None \<Rightarrow> (tr, Inr ()) | Some port \<Rightarrow>
      or_exit (attach_filter_port os tr fd port) (lit ''Failed to attach BPF port filter.'')) = (tr1, Inr ())"
    and second: "(case filter_proto a of None \<Rightarrow> (tr1, Inr ()) | Some proto \<Rightarrow>
      or_exit (attach_filter_proto os tr1 fd proto) (lit ''Failed to attach BPF protocol filter.'')) = (tr', Inr u)"
    by (auto simp: apply_filters_def Raw then_setup_Inr)
  have "adds tr tr1 (case filter_port a of None \<Rightarrow> [] | Some port \<Rightarrow> [port_filter port])"
    using first by (auto simp: or_exit_Inr attach_adds split: option.splits)
  moreover have "adds tr1 tr' (case filter_proto a of None \<Rightarrow> [] | Some proto \<Rightarrow>
      (case proto_filter proto of None \<Rightarrow> [] | Some p \<Rightarrow> [p]))"
    using second by (auto simp: or_exit_Inr dest: attach_adds split: option.splits)
  ultimately show ?thesis unfolding Raw requested_filters_def socket.case by (rule adds_trans)
qed (use assms in \<open>auto simp: apply_filters_def\<close>)

lemma create_exports_adds: "create_exports os a tr = (tr', Inr u) \<Longrightarrow> adds tr tr' []"
  by (auto simp: create_exports_def then_setup_Inr do_call_def attached_def split: if_splits option.splits)

text \<open>From a call of \<open>drop_privileges\<close> that succeeds on.\<close>

definition dropped :: "rstr option \<Rightarrow> rstr option \<Rightarrow> trace \<Rightarrow> bool" where
  "dropped sudo_uid sudo_gid post \<longleftrightarrow>
    (\<exists>r rest. post = (Getuid, r) # rest \<and> list_all (\<lambda>x. \<not> privileged (fst x)) rest \<and>
      (rc r = 0 \<longrightarrow> target_ids sudo_uid sudo_gid = Some (ids_after (0, 0) rest)))"

lemma drop_privileges_dropped:
  assumes "drop_privileges os tr sudo_uid sudo_gid = (tr', Inr u)"
  shows "\<exists>post. tr' = tr @ post \<and> dropped sudo_uid sudo_gid post \<and> attached post = []"
  using assms
  by (auto simp: drop_privileges_def switch_ids_def do_call_def dropped_def target_ids_def ids_after_def
      attached_def split: if_splits option.splits)

lemma start_web_dropped:
  assumes "dropped sudo_uid sudo_gid post" "attached post = []"
  shows "\<exists>post'. start_web os a (tr @ post) = tr @ post' \<and> dropped sudo_uid sudo_gid post' \<and> attached post' = []"
  using assms
  by (auto simp: start_web_def do_call_def dropped_def ids_after_def attached_def)

lemma main_setup_shape:
  assumes "main_setup os sudo_uid sudo_gid a = (tr, Inr s)"
  shows "\<exists>pre post. tr = pre @ post \<and> list_all (\<lambda>x. privileged (fst x)) pre \<and> dropped sudo_uid sudo_gid post \<and>
    attached tr = (if ring_buffer a then [] else requested_filters a)"
proof -
  obtain tr1 tr2 tr3 tr4 where steps: "open_socket os a [] = (tr1, Inr s)" "apply_filters os a s tr1 = (tr2, Inr ())"
    "create_exports os a tr2 = (tr3, Inr ())" "drop_privileges os tr3 sudo_uid sudo_gid = (tr4, Inr ())"
    "tr = start_web os a tr4"
    using assms by (auto simp: main_setup_def then_setup_Inr or_exit_Inr)
  have "adds [] tr3 ([] @ (case s of Ring _ _ \<Rightarrow> [] | Raw _ \<Rightarrow> requested_filters a) @ [])"
    by (rule adds_trans adds_trans [OF apply_filters_adds [OF steps(2)] create_exports_adds [OF steps(3)]]
        open_socket_adds [OF steps(1), THEN conjunct1])+
  then have pre: "list_all (\<lambda>x. privileged (fst x)) tr3" "attached tr3 = (if ring_buffer a then [] else requested_filters a)"
    using open_socket_adds [OF steps(1), THEN conjunct2] by (auto simp: adds_def split: socket.splits)
  obtain post where "tr4 = tr3 @ post" "dropped sudo_uid sudo_gid post" "attached post = []"
    using drop_privileges_dropped [OF steps(4)] by blast
  then obtain post' where "tr = tr3 @ post'" "dropped sudo_uid sudo_gid post'" "attached post' = []"
    using start_web_dropped steps(5) by blast
  with pre show ?thesis by auto
qed

section \<open>The capture loops\<close>

fun received_packets :: "recv_result list \<Rightarrow> capture list" where
  "received_packets [] = []"
| "received_packets (Received c # es) = c # received_packets es"
| "received_packets (Recv_Error e # es) = received_packets es"

fun ring_packets :: "block_result list \<Rightarrow> capture list" where
  "ring_packets [] = []"
| "ring_packets (Block cs # es) = cs @ ring_packets es"
| "ring_packets (Block_Error e # es) = ring_packets es"

lemma block_loop_eq: "block_loop env cs w = capture_loop env cs w"
  by (induction cs arbitrary: w) (simp_all add: capture_loop.simps and_then_eq)

lemma raw_loop_eq: "raw_loop env es w = capture_loop env (received_packets es) w"
  by (induction env es w rule: raw_loop.induct) (simp_all add: capture_loop.simps and_then_eq)

lemma ring_loop_eq: "ring_loop env es w = capture_loop env (ring_packets es) w"
  by (induction env es w rule: ring_loop.induct) (simp_all add: block_loop_eq capture_loop_append and_then_eq)

text \<open>A kernel in which every call succeeds and the process is not root.\<close>

definition calm_os :: os where
  "calm_os = (\<lambda>tr c. \<lparr>rc = 3, val = 2\<rparr>)"

definition plain_args :: args where
  "plain_args = \<lparr>interface = lit ''eth0'', filter_port = Some 53, filter_proto = Some (lit ''tcp''),
     export_pcap = Some (lit ''a''), export_json = None, hexdump_flag = False, follow_streams = False,
     ring_buffer = False, serve = True, web_port = 7070\<rparr>"

lemma setup_simps: "main_setup os u g a = (tr, r) \<Longrightarrow> fst (main_setup os u g a) = tr"
  by simp

lemma calm_setup:
  "\<exists>tr. main_setup calm_os None None plain_args = (tr, Inr (Raw 3))"
  "\<exists>tr. main_setup calm_os None None (plain_args\<lparr>ring_buffer := True\<rparr>) = (tr, Inr (Ring 3 2))"
  by (simp_all add: main_setup_def then_setup_def or_exit_def open_socket_def apply_filters_def create_exports_def
      start_web_def RawSocket_new_def RingSocket_new_def attach_filter_port_def attach_filter_proto_def
      attach_filter_def drop_privileges_def do_call_def calm_os_def plain_args_def c_string_def lit_def
      proto_filter_def ascii_lower_def Let_def)

section \<open>Properties\<close>

text \<open>
  C14: the order of the privileged operations. Whenever the program gets to its capture loop, all
  the calls that need root or create files (the socket, its filters, the export files) come
  before the privilege drop and none after it, and at that point the process either was not root
  or has successfully changed to the ids of the sudo user or of nobody. The web server is started
  only afterwards.
\<close>

theorem setup_drops_privileges_last:
  assumes "main_setup os sudo_uid sudo_gid a = (tr, Inr s)"
  shows "\<exists>pre r post. tr = pre @ (Getuid, r) # post \<and> list_all (\<lambda>x. privileged (fst x)) pre \<and>
    list_all (\<lambda>x. \<not> privileged (fst x)) post \<and>
    (rc r = 0 \<longrightarrow> target_ids sudo_uid sudo_gid = Some (ids_after (0, 0) post))"
proof -
  obtain pre post where shape: "tr = pre @ post" "list_all (\<lambda>x. privileged (fst x)) pre"
    "dropped sudo_uid sudo_gid post"
    using main_setup_shape [OF assms] by blast
  then show ?thesis unfolding dropped_def by blast
qed

theorem setup_drops_privileges_last_witness:
  "\<exists>tr pre r post. main_setup calm_os None None plain_args = (tr, Inr (Raw 3)) \<and> tr = pre @ (Getuid, r) # post \<and>
    list_all (\<lambda>x. privileged (fst x)) pre"
proof -
  obtain tr where tr: "main_setup calm_os None None plain_args = (tr, Inr (Raw 3))" using calm_setup(1) by blast
  from setup_drops_privileges_last [OF tr] tr show ?thesis by blast
qed

text \<open>
  C30: which kernel filters are in force. With the raw socket both requested filters are attached,
  the port filter first; the kernel keeps the one attached last, so the protocol filter replaces
  the port filter. With the ring buffer none is attached. The status report claims active filters
  whenever one was requested, in either mode.
\<close>

theorem filters_in_force:
  assumes "main_setup os sudo_uid sudo_gid a = (tr, Inr s)"
  shows "attached tr = (if ring_buffer a then [] else requested_filters a) \<and>
    (filter_port a = Some port \<and> filter_proto a = Some proto \<and> \<not> ring_buffer a \<and> proto_filter proto = Some p
      \<longrightarrow> last (attached tr) = p) \<and>
    ((filter_port a, filter_proto a) \<noteq> (None, None) \<longrightarrow> filters_active \<in> set (status_report env upper a))"
  using main_setup_shape [OF assms] by (auto simp: requested_filters_def status_report_def)

theorem filters_in_force_witness:
  "(\<exists>tr s. main_setup calm_os None None (plain_args\<lparr>ring_buffer := True\<rparr>) = (tr, Inr s) \<and> attached tr = []) \<and>
    filters_active \<in> set (status_report plain_env id (plain_args\<lparr>ring_buffer := True\<rparr>))"
proof -
  obtain tr where tr: "main_setup calm_os None None (plain_args\<lparr>ring_buffer := True\<rparr>) = (tr, Inr (Ring 3 2))"
    using calm_setup(2) by blast
  from filters_in_force [OF tr, of 0 "[]" "[]" plain_env id] tr show ?thesis
    by (auto simp: plain_args_def)
qed

text \<open>
  The two capture modes process packets alike. The loop over \<open>recv\<close> and the loop over the
  blocks of the ring both have the effect of the capture loop on the packets they got, in order;
  failed calls in between change nothing.
\<close>

theorem capture_modes_agree:
  "raw_loop env es w = capture_loop env (received_packets es) w \<and>
   ring_loop env bs w = capture_loop env (ring_packets bs) w"
  using raw_loop_eq ring_loop_eq by simp

end
