(* ===== verification/Web_Codec.thy ===== *)
theory Web_Codec
  imports Hexdump
begin

text \<open>
  The codecs of the web server (\<open>netzer-cli/src/web/mod.rs\<close>, lines 10 to 131): its own SHA-1
  and Base64, which the WebSocket handshake needs, and the encoder of WebSocket text frames. The
  loops of SHA-1 over its array are folds over the indices; the schedule array starts as zeros
  and is filled by index, as in the source. SHA-1 is compared with the definition of FIPS 180-4,
  Base64 and the frames with decoders.
\<close>

section \<open>SHA-1\<close>

text \<open>The bytes still to be pushed by the padding loop below, its termination measure.\<close>

definition missing :: "nat \<Rightarrow> nat" where
  "missing n = (120 - n mod 64) mod 64"

lemma missing_eq: "missing n = (if n mod 64 \<le> 56 then 56 - n mod 64 else 120 - n mod 64)"
proof (cases "n mod 64 \<le> 56")
  case True
  then have "missing n = (64 + (56 - n mod 64)) mod 64" by (simp add: missing_def)
  also have "\<dots> = (56 - n mod 64) mod 64" by (rule mod_add_self1)
  finally show ?thesis using True by simp
qed (simp add: missing_def)

lemma bits_mod: "n * 8 mod 512 = 8 * (n mod (64 :: nat))"
  using mult_mod_right [of 8 n 64] by (simp add: mult.commute)

lemma missing_Suc: "n * 8 mod 512 \<noteq> 448 \<Longrightarrow> missing n = Suc (missing (Suc n))"
  using mod_Suc [of n 64] mod_less_divisor [of 64 n]
  by (auto simp: bits_mod missing_eq split: if_splits)

lemma missing_0: "n * 8 mod 512 = 448 \<Longrightarrow> missing n = 0"
  by (simp add: bits_mod missing_eq)

function pad_zero :: "u8 list \<Rightarrow> u8 list" where
  \<comment> \<open>\<open>while (bytes.len() * 8) % 512 != 448 { bytes.push(0x00); }\<close>\<close>
  "pad_zero bytes = (if (length bytes * 8) mod 512 \<noteq> 448 then pad_zero (bytes @ [0]) else bytes)"
  by pat_completeness auto

termination
  by (relation "measure (\<lambda>bytes. missing (length bytes))") (auto dest: missing_Suc)

declare pad_zero.simps [simp del]

definition sha1_padded :: "u8 list \<Rightarrow> u8 list" where
  "sha1_padded data =
    (let original_len_bits = (of_nat (length data) :: u64) * 8;
         bytes = pad_zero (data @ [0x80])
     in bytes @ to_be_bytes original_len_bits)"

definition sha1_schedule :: "u8 list \<Rightarrow> u32 list" where
  "sha1_schedule chunk =
    (let w = replicate 80 0;
         w = foldl (\<lambda>w i. w[i := from_be_bytes [chunk ! (i * 4), chunk ! (i * 4 + 1), chunk ! (i * 4 + 2),
               chunk ! (i * 4 + 3)]]) w [0 ..< 16]
     in foldl (\<lambda>w i. w[i := word_rotl 1 (w ! (i - 3) XOR w ! (i - 8) XOR w ! (i - 14) XOR w ! (i - 16))])
          w [16 ..< 80])"

type_synonym sha1_state = "u32 \<times> u32 \<times> u32 \<times> u32 \<times> u32"

definition sha1_round :: "u32 list \<Rightarrow> sha1_state \<Rightarrow> nat \<Rightarrow> sha1_state" where
  "sha1_round w = (\<lambda>(a, b, c, d, e) i.
     let (f, k) =
       (if i \<le> 19 then ((b AND c) OR (NOT b AND d), 0x5A827999)
        else if i \<le> 39 then (b XOR c XOR d, 0x6ED9EBA1)
        else if i \<le> 59 then ((b AND c) OR (b AND d) OR (c AND d), 0x8F1BBCDC)
        else (b XOR c XOR d, 0xCA62C1D6));
       temp = word_rotl 5 a + f + e + k + w ! i
     in (temp, a, word_rotl 30 b, c, d))"

definition sha1_block :: "sha1_state \<Rightarrow> u8 list \<Rightarrow> sha1_state" where
  "sha1_block = (\<lambda>(h0, h1, h2, h3, h4) chunk.
     let w = sha1_schedule chunk;
         (a, b, c, d, e) = foldl (sha1_round w) (h0, h1, h2, h3, h4) [0 ..< 80]
     in (h0 + a, h1 + b, h2 + c, h3 + d, h4 + e))"

definition chunks_exact :: "nat \<Rightarrow> 'a list \<Rightarrow> 'a list list" where
  "chunks_exact n xs = filter (\<lambda>c. length c = n) (chunks n xs)"

definition sha1 :: "u8 list \<Rightarrow> u8 list" where
  "sha1 data =
    (let (h0, h1, h2, h3, h4) = foldl sha1_block (0x67452301, 0xEFCDAB89, 0x98BADCFE, 0x10325476, 0xC3D2E1F0)
           (chunks_exact 64 (sha1_padded data))
     in to_be_bytes h0 @ to_be_bytes h1 @ to_be_bytes h2 @ to_be_bytes h3 @ to_be_bytes h4)"

section \<open>Base64\<close>

definition alphabet :: rstr where
  "alphabet = lit ''ABCDEFGHIJKLMNOPQRSTUVWXYZabcdefghijklmnopqrstuvwxyz0123456789+/''"

definition sextet :: "u32 \<Rightarrow> u8" where
  \<comment> \<open>\<open>ALPHABET[(b & 0x3f) as usize]\<close>, always in range\<close>
  "sextet b = alphabet ! unat (b AND 0x3f)"

definition base64_group :: "u8 list \<Rightarrow> rstr" where
  \<comment> \<open>the body of the loop\<close>
  "base64_group chunk =
    (let b = foldl (\<lambda>b val. push_bit 8 b OR (ucast val :: u32)) 0 chunk in
     if length chunk = 3 then [sextet (drop_bit 18 b), sextet (drop_bit 12 b), sextet (drop_bit 6 b), sextet b]
     else if length chunk = 2 then
       let b = push_bit 2 b in [sextet (drop_bit 12 b), sextet (drop_bit 6 b), sextet b, 61]
     else if length chunk = 1 then
       let b = push_bit 4 b in [sextet (drop_bit 6 b), sextet b, 61, 61]
     else [])"

function base64_loop :: "u8 list \<Rightarrow> nat \<Rightarrow> rstr \<Rightarrow> rstr" where
  "base64_loop data i result =
    (if i < length data
     then base64_loop data (i + 3)
       (result @ base64_group (take (min (i + 3) (length data) - i) (drop i data)))
     else result)"
  by pat_completeness auto
termination by (relation "measure (\<lambda>(data, i, result). length data - i)") auto

declare base64_loop.simps [simp del]

definition base64_encode :: "u8 list \<Rightarrow> rstr" where
  "base64_encode data = base64_loop data 0 []"

section \<open>WebSocket text frames\<close>

definition encode_ws_text_frame :: "rstr \<Rightarrow> u8 list" where
  "encode_ws_text_frame payload =
    (let len = length payload in
     [0x81] @
     (if len \<le> 125 then [of_nat len]
      else if len \<le> 65535 then [126] @ to_be_bytes (of_nat len :: u16)
      else [127] @ to_be_bytes (of_nat len :: u64)) @
     payload)"

section \<open>Specification: SHA-1 as FIPS 180-4 defines it\<close>

text \<open>
  The padding appends a one bit, the fewest zero bits that leave room for the length in a block of
  512 bits, and the length; the message schedule is a recurrence over the words of a block; the
  functions \<open>Ch\<close>, \<open>Parity\<close> and \<open>Maj\<close> are written with exclusive or.
\<close>

definition fips_padded :: "u8 list \<Rightarrow> u8 list" where
  "fips_padded m = m @ [0x80] @ replicate ((119 - length m mod 64) mod 64) 0 @
     to_be_bytes (of_nat (8 * length m) :: u64)"

fun fips_W :: "u8 list \<Rightarrow> nat \<Rightarrow> u32" where
  "fips_W block t =
    (if t < 16 then from_be_bytes (take 4 (drop (4 * t) block))
     else word_rotl 1 (fips_W block (t - 3) XOR fips_W block (t - 8) XOR fips_W block (t - 14) XOR fips_W block (t - 16)))"

declare fips_W.simps [simp del]

definition fips_f :: "nat \<Rightarrow> u32 \<Rightarrow> u32 \<Rightarrow> u32 \<Rightarrow> u32" where
  "fips_f t x y z =
    (if t < 20 then (x AND y) XOR (NOT x AND z)
     else if 40 \<le> t \<and> t < 60 then (x AND y) XOR (x AND z) XOR (y AND z)
     else x XOR y XOR z)"

definition fips_K :: "nat \<Rightarrow> u32" where
  "fips_K t = (if t < 20 then 0x5A827999 else if t < 40 then 0x6ED9EBA1 else if t < 60 then 0x8F1BBCDC
     else 0xCA62C1D6)"

primrec fips_rounds :: "u8 list \<Rightarrow> sha1_state \<Rightarrow> nat \<Rightarrow> sha1_state" where
  "fips_rounds block h 0 = h"
| "fips_rounds block h (Suc t) =
    (case fips_rounds block h t of (a, b, c, d, e) \<Rightarrow>
       (word_rotl 5 a + fips_f t b c d + e + fips_K t + fips_W block t, a, word_rotl 30 b, c, d))"

fun fips_add :: "sha1_state \<Rightarrow> sha1_state \<Rightarrow> sha1_state" where
  "fips_add (a, b, c, d, e) (a', b', c', d', e') = (a + a', b + b', c + c', d + d', e + e')"

definition fips_digest :: "u8 list \<Rightarrow> sha1_state" where
  "fips_digest m =
    (let p = fips_padded m in
     foldl (\<lambda>h i. let block = take 64 (drop (64 * i) p) in fips_add h (fips_rounds block h 80))
       (0x67452301, 0xEFCDAB89, 0x98BADCFE, 0x10325476, 0xC3D2E1F0) [0 ..< length p div 64])"

definition fips_sha1 :: "u8 list \<Rightarrow> u8 list" where
  "fips_sha1 m = (case fips_digest m of (a, b, c, d, e) \<Rightarrow>
     to_be_bytes a @ to_be_bytes b @ to_be_bytes c @ to_be_bytes d @ to_be_bytes e)"

section \<open>The code computes SHA-1\<close>

lemma pad_zero_eq: "pad_zero bs = bs @ replicate (missing (length bs)) 0"
proof (induction bs rule: pad_zero.induct)
  case (1 bs)
  show ?case
  proof (cases "(length bs * 8) mod 512 \<noteq> 448")
    case True
    then show ?thesis
      using 1 missing_Suc [OF True] by (simp add: pad_zero.simps [of bs])
  next
    case False
    then show ?thesis by (simp add: pad_zero.simps [of bs] missing_0)
  qed
qed

lemma missing_after_bit: "missing (Suc n) = (119 - n mod 64) mod 64"
proof -
  have r: "n mod 64 < 64" by simp
  show ?thesis
  proof (cases "n mod 64 = 63")
    case True
    then show ?thesis by (simp add: missing_def mod_Suc)
  next
    case False
    then show ?thesis by (simp add: missing_def mod_Suc)
  qed
qed

lemma padded_eq: "sha1_padded m = fips_padded m"
  by (simp add: sha1_padded_def fips_padded_def pad_zero_eq missing_after_bit Let_def mult.commute)

lemma length_padded: "length (fips_padded m) mod 64 = 0"
proof -
  have "(length m + 1 + missing (length m + 1)) mod 64 = 56"
  proof -
    define n where "n = length m + 1"
    have "(n + missing n) mod 64 = (n mod 64 + missing n) mod 64" by (simp add: mod_add_left_eq)
    also have "\<dots> = 56"
      using mod_less_divisor [of 64 n] by (auto simp: missing_eq)
    finally show ?thesis by (simp add: n_def)
  qed
  moreover have "length (fips_padded m) = length m + 1 + missing (length m + 1) + 8"
    by (simp add: fips_padded_def missing_after_bit)
  ultimately show ?thesis by (metis mod_add_left_eq mod_self numeral_plus_numeral add_num_simps)
qed

text \<open>Filling an array by index, each entry computed from those filled before it.\<close>

lemma fill_array:
  assumes "\<And>w i. \<lbrakk>m \<le> i; i < n; length w = N; \<forall>t < i. w ! t = v t\<rbrakk> \<Longrightarrow> g w i = v i"
    and "length w = N" "\<forall>t < m. w ! t = v t" "m \<le> n" "n \<le> N"
  shows "length (foldl (\<lambda>w i. w[i := g w i]) w [m ..< n]) = N \<and>
    (\<forall>t < n. foldl (\<lambda>w i. w[i := g w i]) w [m ..< n] ! t = v t)"
proof -
  have "length (foldl (\<lambda>w i. w[i := g w i]) w [m ..< k]) = N \<and>
      (\<forall>t < k. foldl (\<lambda>w i. w[i := g w i]) w [m ..< k] ! t = v t)" if "m \<le> k" "k \<le> n" for k
    using that
  proof (induction k rule: dec_induct)
    case base
    then show ?case using assms(2,3) by simp
  next
    case (step k)
    let ?w = "foldl (\<lambda>w i. w[i := g w i]) w [m ..< k]"
    have IH: "length ?w = N" "\<forall>t < k. ?w ! t = v t" using step by auto
    then have "g ?w k = v k" using assms(1) step by simp
    then show ?case using IH step assms(5) by (auto simp: less_Suc_eq)
  qed
  then show ?thesis using assms(4) by simp
qed

lemma take_4_at: "i + 4 \<le> length xs \<Longrightarrow> take 4 (drop i xs) = [xs ! i, xs ! (i + 1), xs ! (i + 2), xs ! (i + 3)]"
  by (simp add: list_eq_iff_nth_eq less_Suc_eq numeral_eq_Suc)

lemma schedule_eq:
  assumes "length block = 64" "t < 80"
  shows "sha1_schedule block ! t = fips_W block t"
proof -
  define g where "g = (\<lambda>(_ :: u32 list) i. from_be_bytes [block ! (i * 4), block ! (i * 4 + 1), block ! (i * 4 + 2),
    block ! (i * 4 + 3)] :: u32)"
  define h where "h = (\<lambda>(w :: u32 list) i. word_rotl 1 (w ! (i - 3) XOR w ! (i - 8) XOR w ! (i - 14) XOR w ! (i - 16)))"
  have words: "g w i = fips_W block i" if "i < 16" for w i
    using that assms(1) take_4_at [of "i * 4" block] by (simp add: g_def fips_W.simps mult.commute)
  have rec: "h w i = fips_W block i" if "16 \<le> i" "\<forall>t < i. w ! t = fips_W block t" for w i
    using that by (simp add: h_def fips_W.simps [of block i])
  have first: "length (foldl (\<lambda>w i. w[i := g w i]) (replicate 80 0) [0 ..< 16]) = 80 \<and>
      (\<forall>t < 16. foldl (\<lambda>w i. w[i := g w i]) (replicate 80 0) [0 ..< 16] ! t = fips_W block t)"
    by (rule fill_array) (auto intro: words)
  have "\<forall>t < 80. foldl (\<lambda>w i. w[i := h w i]) (foldl (\<lambda>w i. w[i := g w i]) (replicate 80 0) [0 ..< 16]) [16 ..< 80] ! t
      = fips_W block t"
    by (rule fill_array [THEN conjunct2]) (use first in \<open>auto intro: rec\<close>)
  then show ?thesis using assms(2) unfolding sha1_schedule_def Let_def g_def h_def by blast
qed

lemma ch_eq: "((x AND y) OR (NOT x AND z)) = ((x AND y) XOR (NOT x AND z :: u32))"
  by (rule bit_word_eqI) (auto simp: bit_simps)

lemma maj_eq: "((x AND y) OR (x AND z) OR (y AND z)) = ((x AND y) XOR (x AND z) XOR (y AND z :: u32))"
  by (rule bit_word_eqI) (auto simp: bit_simps)

lemma round_eq:
  assumes "w ! t = fips_W block t"
  shows "sha1_round w (a, b, c, d, e) t =
    (word_rotl 5 a + fips_f t b c d + e + fips_K t + fips_W block t, a, word_rotl 30 b, c, d)"
  by (simp add: sha1_round_def fips_f_def fips_K_def assms ch_eq maj_eq Let_def)

lemma rounds_eq:
  assumes "length block = 64" "n \<le> 80"
  shows "foldl (sha1_round (sha1_schedule block)) h [0 ..< n] = fips_rounds block h n"
  using assms(2)
proof (induction n)
  case (Suc n)
  obtain a b c d e where abcde: "fips_rounds block h n = (a, b, c, d, e)"
    by (cases "fips_rounds block h n") auto
  show ?case
    using Suc round_eq [OF schedule_eq [OF assms(1), of n], of a b c d e] by (simp add: abcde)
qed simp

lemma block_eq: "length block = 64 \<Longrightarrow> sha1_block h block = fips_add h (fips_rounds block h 80)"
  using rounds_eq [of block 80] by (cases h) (simp add: sha1_block_def Let_def split: prod.split)

lemma chunks_by_index: "0 < n \<Longrightarrow> length xs = n * k \<Longrightarrow> chunks n xs = map (\<lambda>i. take n (drop (n * i) xs)) [0 ..< k]"
proof (induction k arbitrary: xs)
  case (Suc k)
  then have "chunks n (drop n xs) = map (\<lambda>i. take n (drop (n * i) (drop n xs))) [0 ..< k]" by simp
  moreover have "xs \<noteq> []" using Suc.prems by auto
  moreover have "map (\<lambda>i. take n (drop (n * i) xs)) [0 ..< Suc k] =
      take n xs # map (\<lambda>i. take n (drop (n * Suc i) xs)) [0 ..< k]"
    by (simp only: upt_conv_Cons zero_less_Suc list.map map_Suc_upt [symmetric] map_map comp_def) simp
  ultimately show ?case using Suc.prems(1) by (simp add: chunks_Cons add.commute)
qed simp

lemma sha1_blocks:
  "chunks_exact 64 (fips_padded m) =
    map (\<lambda>i. take 64 (drop (64 * i) (fips_padded m))) [0 ..< length (fips_padded m) div 64]"
proof -
  have "length (fips_padded m) = 64 * (length (fips_padded m) div 64)"
    using length_padded [of m] by (metis mult_div_mod_eq add.right_neutral)
  note chunks_by_index [OF _ this]
  then show ?thesis
    using length_padded [of m] by (auto simp: chunks_exact_def filter_id_conv)
qed

lemma digest_eq:
  "foldl sha1_block h (chunks_exact 64 (fips_padded m)) =
    foldl (\<lambda>h i. let block = take 64 (drop (64 * i) (fips_padded m)) in fips_add h (fips_rounds block h 80)) h
      [0 ..< length (fips_padded m) div 64]"
  unfolding sha1_blocks foldl_map Let_def
proof (rule foldl_cong)
  fix a i
  assume "i \<in> set [0 ..< length (fips_padded m) div 64]"
  then have "length (take 64 (drop (64 * i) (fips_padded m))) = 64" by auto
  then show "sha1_block a (take 64 (drop (64 * i) (fips_padded m))) =
      fips_add a (fips_rounds (take 64 (drop (64 * i) (fips_padded m))) a 80)"
    by (rule block_eq)
qed simp_all

section \<open>Specification: decoders\<close>

definition b64_value :: "u8 \<Rightarrow> u8" where
  "b64_value c =
    (if 65 \<le> c \<and> c \<le> 90 then c - 65 else if 97 \<le> c \<and> c \<le> 122 then c - 71
     else if 48 \<le> c \<and> c \<le> 57 then c + 4 else if c = 43 then 62 else 63)"

text \<open>A strict decoder: groups of four characters, padding in the last group only.\<close>

fun b64_decode :: "rstr \<Rightarrow> u8 list option" where
  "b64_decode [] = Some []"
| "b64_decode (p # q # r # s # rest) =
    (let p' = b64_value p; q' = b64_value q; r' = b64_value r; s' = b64_value s;
         x = push_bit 2 p' OR drop_bit 4 q'; y = push_bit 4 q' OR drop_bit 2 r'; z = push_bit 6 r' OR s' in
     if list_ex (\<lambda>c. c \<notin> set alphabet) [p, q] then None
     else if r = 61 \<and> s = 61 then (if rest = [] then Some [x] else None)
     else if r \<notin> set alphabet then None
     else if s = 61 then (if rest = [] then Some [x, y] else None)
     else if s \<notin> set alphabet then None
     else map_option (\<lambda>d. x # y # z # d) (b64_decode rest))"
| "b64_decode _ = None"

text \<open>A decoder of one unmasked, final text frame: the payload and what follows the frame.\<close>

definition decode_ws_frame :: "u8 list \<Rightarrow> (u8 list \<times> u8 list) option" where
  "decode_ws_frame bs =
    (case bs of
       op # l # rest \<Rightarrow>
         (let (len, body, ok) =
            (if l = 126 then (unat (from_be_bytes (take 2 rest) :: u16), drop 2 rest, 2 \<le> length rest)
             else if l = 127 then (unat (from_be_bytes (take 8 rest) :: u64), drop 8 rest, 8 \<le> length rest)
             else (unat l, rest, unat l \<le> 125))
          in if op = 0x81 \<and> ok \<and> len \<le> length body then Some (take len body, drop len body) else None)
     | _ \<Rightarrow> None)"

section \<open>Base64\<close>

lemma sextet_less: "unat (b AND 0x3f :: u32) < 64"
  using word_and_le1 [of b "0x3f"] by (simp add: word_le_nat_alt)

lemma alphabet_values: "list_all (\<lambda>(i, c). c \<noteq> 61 \<and> b64_value c = of_nat i) (enumerate 0 alphabet)"
  by (simp add: alphabet_def lit_def b64_value_def)

lemma length_alphabet: "length alphabet = 64"
  by (simp add: alphabet_def)

lemma sextet_props:
  "sextet b \<in> set alphabet" "sextet b \<noteq> 61" "b64_value (sextet b) = ucast (b AND 0x3f)"
proof -
  have i: "unat (b AND 0x3f) < length alphabet" using sextet_less [of b] by (simp only: length_alphabet)
  then show "sextet b \<in> set alphabet" by (simp add: sextet_def)
  have "(unat (b AND 0x3f), alphabet ! unat (b AND 0x3f)) \<in> set (enumerate 0 alphabet)"
    using i by (simp add: in_set_enumerate_eq)
  then show "sextet b \<noteq> 61" "b64_value (sextet b) = ucast (b AND 0x3f)"
    using alphabet_values by (auto simp: list_all_iff sextet_def)
qed

lemma mask_6: "(0x3f :: u32) = mask 6"
  by (simp add: mask_eq_exp_minus_1)

text \<open>The decoder's bytes, of the sextets of a word of twenty-four, sixteen and eight bits.\<close>

lemma less_8_cases: "n < (8 :: nat) \<Longrightarrow> n \<in> {7, 6, 5, 4, 3, 2, 1, 0}"
  by (auto simp: numeral_eq_Suc less_Suc_eq)

lemma sextet_bytes:
  fixes x y z :: u8
  defines "w \<equiv> push_bit 8 (push_bit 8 (ucast x) OR ucast y) OR ucast z :: u32"
  shows "push_bit 2 (ucast (drop_bit 18 w AND 0x3f)) OR drop_bit 4 (ucast (drop_bit 12 w AND 0x3f)) = x"
    "push_bit 4 (ucast (drop_bit 12 w AND 0x3f)) OR drop_bit 2 (ucast (drop_bit 6 w AND 0x3f)) = y"
    "push_bit 6 (ucast (drop_bit 6 w AND 0x3f)) OR ucast (w AND 0x3f) = z"
  unfolding w_def mask_6
  by (rule bit_word_eqI, simp only: bit_simps, simp, drule less_8_cases, elim insertE emptyE;
      auto simp: bit_simps dest: bit_imp_le_length)+

lemma sextet_bytes_2:
  fixes x y :: u8
  defines "w \<equiv> push_bit 2 (push_bit 8 (ucast x) OR ucast y) :: u32"
  shows "push_bit 2 (ucast (drop_bit 12 w AND 0x3f)) OR drop_bit 4 (ucast (drop_bit 6 w AND 0x3f)) = x"
    "push_bit 4 (ucast (drop_bit 6 w AND 0x3f)) OR drop_bit 2 (ucast (w AND 0x3f)) = y"
  unfolding w_def mask_6
  by (rule bit_word_eqI, simp only: bit_simps, simp, drule less_8_cases, elim insertE emptyE;
      auto simp: bit_simps dest: bit_imp_le_length)+

lemma sextet_bytes_1:
  fixes x :: u8
  defines "w \<equiv> push_bit 4 (ucast x) :: u32"
  shows "push_bit 2 (ucast (drop_bit 6 w AND 0x3f)) OR drop_bit 4 (ucast (w AND 0x3f)) = x"
  unfolding w_def mask_6
  by (rule bit_word_eqI, simp only: bit_simps, simp, drule less_8_cases, elim insertE emptyE;
      auto simp: bit_simps dest: bit_imp_le_length)

lemma decode_group_3: "b64_decode (base64_group [x, y, z] @ rest) = map_option (\<lambda>d. x # y # z # d) (b64_decode rest)"
  using sextet_bytes [of x y z] by (simp add: base64_group_def sextet_props Let_def del: push_bit_push_bit)

lemma decode_group_2: "b64_decode (base64_group [x, y]) = Some [x, y]"
  using sextet_bytes_2 [of x y] by (simp add: base64_group_def sextet_props Let_def del: push_bit_push_bit)

lemma decode_group_1: "b64_decode (base64_group [x]) = Some [x]"
  using sextet_bytes_1 [of x] by (simp add: base64_group_def sextet_props Let_def del: push_bit_push_bit)

lemma base64_loop_eq: "base64_loop data i result = result @ concat (map base64_group (chunks 3 (drop i data)))"
proof (induction data i result rule: base64_loop.induct)
  case (1 data i result)
  show ?case
  proof (cases "i < length data")
    case True
    have "take (min (i + 3) (length data) - i) (drop i data) = take 3 (drop i data)"
      by (cases "i + 3 \<le> length data") (simp_all add: min_def)
    then show ?thesis
      using 1 [OF True] True by (simp add: base64_loop.simps [of data i] chunks_Cons add.commute)
  next
    case False
    then show ?thesis by (simp add: base64_loop.simps [of data i])
  qed
qed

lemma b64_decode_chunks: "b64_decode (concat (map base64_group (chunks 3 data))) = Some data"
proof (induction "length data" arbitrary: data rule: less_induct)
  case less
  consider "data = []" | x where "data = [x]" | x y where "data = [x, y]" | x y z rest where "data = x # y # z # rest"
    by (metis list.exhaust)
  then show ?case
  proof cases
    case (4 x y z rest)
    have "chunks 3 data = [x, y, z] # chunks 3 rest" unfolding 4 by (subst chunks_Cons) simp_all
    then show ?thesis using less [of rest] by (simp add: 4 decode_group_3)
  next
    case (2 x)
    have "chunks 3 data = [[x]]" unfolding 2 by (subst chunks_Cons) simp_all
    then show ?thesis by (simp add: 2 decode_group_1)
  next
    case (3 x y)
    have "chunks 3 data = [[x, y]]" unfolding 3 by (subst chunks_Cons) simp_all
    then show ?thesis by (simp add: 3 decode_group_2)
  qed simp
qed

section \<open>Frames\<close>

lemma be_bytes_append: "take 2 (to_be_bytes (w :: u16) @ s) = to_be_bytes w" "drop 2 (to_be_bytes (w :: u16) @ s) = s"
  "take 8 (to_be_bytes (v :: u64) @ s) = to_be_bytes v" "drop 8 (to_be_bytes (v :: u64) @ s) = s"
  by simp_all

lemma decode_ws_frame_encode:
  assumes "length p < 2 ^ 64"
  shows "decode_ws_frame (encode_ws_text_frame p @ rest) = Some (p, rest)"
proof -
  consider (short) "length p \<le> 125" | (medium) "\<not> length p \<le> 125" "length p \<le> 65535"
    | (long) "\<not> length p \<le> 65535"
    by linarith
  then show ?thesis
  proof cases
    case short
    then have "unat (of_nat (length p) :: u8) = length p" by (simp add: unat_of_nat)
    moreover from this have "(of_nat (length p) :: u8) \<noteq> 126" "(of_nat (length p) :: u8) \<noteq> 127"
      using short by auto
    ultimately show ?thesis using short by (simp add: encode_ws_text_frame_def decode_ws_frame_def Let_def)
  next
    case medium
    then have "unat (of_nat (length p) :: u16) = length p" by (simp add: unat_of_nat)
    then show ?thesis
      using medium by (simp add: encode_ws_text_frame_def decode_ws_frame_def Let_def be_bytes_append del: take_append drop_append) simp
  next
    case long
    then have "unat (of_nat (length p) :: u64) = length p" using assms by (simp add: unat_of_nat)
    then show ?thesis
      using long by (simp add: encode_ws_text_frame_def decode_ws_frame_def Let_def be_bytes_append del: take_append drop_append) simp
  qed
qed

lemma decode_ws_frame_shorter: "decode_ws_frame bs = Some (p, rest) \<Longrightarrow> length rest < length bs"
  by (auto simp: decode_ws_frame_def Let_def split: list.splits if_splits)

text \<open>A stream of frames.\<close>

function read_frames :: "u8 list \<Rightarrow> u8 list list option" where
  "read_frames bs =
    (if bs = [] then Some []
     else case decode_ws_frame bs of
         None \<Rightarrow> None
       | Some (p, rest) \<Rightarrow> map_option ((#) p) (read_frames rest))"
  by pat_completeness auto
termination by (relation "measure length") (auto dest: decode_ws_frame_shorter)

declare read_frames.simps [simp del]

lemma encode_ws_nonempty [simp]: "encode_ws_text_frame p \<noteq> []"
  by (simp add: encode_ws_text_frame_def Let_def)

lemma read_frames_encode:
  "list_all (\<lambda>p. length p < 2 ^ 64) ps \<Longrightarrow> read_frames (concat (map encode_ws_text_frame ps)) = Some ps"
  by (induction ps) (simp_all add: read_frames.simps [of "[]"] read_frames.simps [of "_ @ _"] decode_ws_frame_encode)

section \<open>Properties\<close>

text \<open>
  C16: the hash of the handshake is SHA-1: on every message the code's loops compute the digest
  that FIPS 180-4 defines by its padding, its recurrence and its round functions.
\<close>

theorem sha1_is_fips: "sha1 m = fips_sha1 m \<and> length (sha1 m) = 20"
proof -
  have "sha1 m = fips_sha1 m"
    unfolding sha1_def fips_sha1_def fips_digest_def padded_eq digest_eq by (simp add: Let_def)
  moreover have "length (fips_sha1 m) = 20"
    by (simp add: fips_sha1_def split: prod.split)
  ultimately show ?thesis by simp
qed

text \<open>
  C25: Base64 is encoded with the right padding: a strict decoder, which takes padding in the last
  group only, gets back the bytes, whatever their number.
\<close>

theorem base64_roundtrip: "b64_decode (base64_encode data) = Some data"
  by (simp add: base64_encode_def base64_loop_eq b64_decode_chunks)

text \<open>
  A WebSocket client that decodes the frames sent to it gets back the messages, in order,
  whichever of the three length forms each of them takes.
\<close>

theorem ws_frames_roundtrip:
  assumes "list_all (\<lambda>p. length p < 2 ^ 64) ps"
  shows "read_frames (concat (map encode_ws_text_frame ps)) = Some ps"
  by (rule read_frames_encode [OF assms])

theorem ws_frames_roundtrip_witness:
  "read_frames (concat (map encode_ws_text_frame [[], replicate 126 97, replicate 70000 98])) =
    Some [[], replicate 126 97, replicate 70000 98]"
  by (rule ws_frames_roundtrip) (simp only: list.pred_inject length_replicate list.size, simp)

end
