(* ===== verification/Web_Server.thy ===== *)
theory Web_Server
  imports Web_Codec Strings
begin

text \<open>
  The web server (\<open>netzer-cli/src/web/mod.rs\<close>, lines 133 to 266): the thread that answers a
  connection, the broadcaster thread, and the hub they share with the capture loop, a channel of
  messages and the list of clients under a mutex. A write to a socket is up to the network, a
  parameter: \<open>None\<close> when all is written, \<open>Some k\<close> when it fails after \<open>k\<close> bytes (the write timeout
  is 100 ms). The interleaving of the threads is a step relation, one step per send, per
  message broadcast under the lock, and per client added under the lock.
\<close>

section \<open>Requests\<close>

text \<open>\<open>str::lines\<close>: split at line feeds, with a carriage return before one dropped.\<close>

definition strip_cr :: "rstr \<Rightarrow> rstr" where
  "strip_cr l = (if l \<noteq> [] \<and> last l = 13 then butlast l else l)"

function str_lines :: "rstr \<Rightarrow> rstr list" where
  "str_lines s =
    (if s = [] then []
     else let l = takeWhile (\<lambda>b. b \<noteq> 10) s in
       if 10 \<in> set s then strip_cr l # str_lines (drop (length l + 1) s) else [l])"
  by pat_completeness auto
termination by (relation "measure length") auto

declare str_lines.simps [simp del]

text \<open>
  \<open>to_lowercase\<close> as far as a comparison with ASCII letters goes: the capital letters, and the
  Kelvin sign (U+212A), the one other character that becomes an ASCII letter of the header name.
\<close>

fun lower :: "rstr \<Rightarrow> rstr" where
  "lower (b # c # d # s) =
    (if b = 0xE2 \<and> c = 0x84 \<and> d = 0xAA then 107 # lower s else ascii_lower b # lower (c # d # s))"
| "lower s = map ascii_lower s"

text \<open>\<open>trim\<close>: the characters, without the white space at both ends.\<close>

fun chars :: "rstr \<Rightarrow> rstr list" where
  "chars [] = []"
| "chars (b # s) = (let n = snd (utf8_step (b # s)) in take n (b # s) # chars (drop (n - 1) s))"

definition trim :: "rstr \<Rightarrow> rstr" where
  "trim s =
    (let ws = (\<lambda>c. is_whitespace (code_point c))
     in concat (rev (dropWhile ws (rev (dropWhile ws (chars s))))))"

definition key_header :: rstr where
  "key_header = lit ''sec-websocket-key:''"

text \<open>\<open>&line[n..]\<close> of a string, which panics off a character boundary.\<close>

definition str_slice_from :: "rstr \<Rightarrow> nat \<Rightarrow> rstr option" where
  "str_slice_from s n = (if n \<le> length s \<and> is_char_boundary s n then Some (drop n s) else None)"

text \<open>The search for the key: \<open>None\<close> is a panic, \<open>Some None\<close> no key.\<close>

fun find_ws_key :: "rstr list \<Rightarrow> rstr option option" where
  "find_ws_key [] = Some None"
| "find_ws_key (line # ls) =
    (if starts_with (lower line) key_header
     then do { v \<leftarrow> str_slice_from line (length key_header); Some (Some (trim v)) }
     else find_ws_key ls)"

definition guid :: rstr where
  "guid = lit ''258EAFA5-E914-47DA-95CA-C5AB0DC85B11''"

definition accept_key :: "rstr \<Rightarrow> rstr" where
  "accept_key key = base64_encode (sha1 (key @ guid))"

datatype reply = Index | Accept rstr | BadRequest | NotFound

definition classify_request :: "u8 list \<Rightarrow> reply option" where
  "classify_request bytes =
    (let request = from_utf8_lossy bytes in
     if starts_with request (lit ''GET / '') \<or> starts_with request (lit ''GET /index.html '') then Some Index
     else if starts_with request (lit ''GET /ws '') then do {
       ws_key \<leftarrow> find_ws_key (str_lines request);
       (case ws_key of Some key \<Rightarrow> Some (Accept (accept_key key)) | None \<Rightarrow> Some BadRequest)
     }
     else Some NotFound)"

definition crlf :: rstr where
  "crlf = [13, 10]"

text \<open>The response to each; the page \<open>html\<close> is an asset of the build and a parameter.\<close>

fun response :: "rstr \<Rightarrow> reply \<Rightarrow> rstr" where
  "response html Index =
     lit ''HTTP/1.1 200 OK'' @ crlf @ lit ''Content-Type: text/html'' @ crlf @ lit ''Content-Length: '' @
     fmt_dec (length html) @ crlf @ lit ''Connection: close'' @ crlf @ crlf @ html"
| "response html (Accept accept) =
     lit ''HTTP/1.1 101 Switching Protocols'' @ crlf @ lit ''Upgrade: websocket'' @ crlf @
     lit ''Connection: Upgrade'' @ crlf @ lit ''Sec-WebSocket-Accept: '' @ accept @ crlf @ crlf"
| "response html BadRequest =
     lit ''HTTP/1.1 400 Bad Request'' @ crlf @ lit ''Content-Length: 0'' @ crlf @ lit ''Connection: close'' @ crlf @ crlf"
| "response html NotFound =
     lit ''HTTP/1.1 404 Not Found'' @ crlf @ lit ''Content-Length: 0'' @ crlf @ lit ''Connection: close'' @ crlf @ crlf"

section \<open>Connections\<close>

text \<open>
  A client is a connection with the bytes that got through to its other end. How many messages had
  been broadcast when it joined the list of clients is kept for the specification.
\<close>

record client =
  peer :: nat
  received :: "u8 list"
  joined_at :: nat

type_synonym network = "client \<Rightarrow> u8 list \<Rightarrow> nat option"

definition send :: "network \<Rightarrow> client \<Rightarrow> u8 list \<Rightarrow> client \<times> bool" where
  \<comment> \<open>\<open>write_all\<close> and \<open>flush\<close>\<close>
  "send net c data =
    (case net c data of
       None \<Rightarrow> (c\<lparr>received := received c @ data\<rparr>, True)
     | Some k \<Rightarrow> (c\<lparr>received := received c @ take k data\<rparr>, False))"

definition system_info :: "rstr \<Rightarrow> rstr" where
  "system_info interface = lit ''{\"type\":\"system\",\"interface\":\"'' @ interface @ lit ''\"}''"

text \<open>
  The thread of one connection, given what it read: the client after it, and whether it joins the
  list of clients. A client whose handshake was written joins it even if the frame with the
  system information was not. \<open>None\<close> is a panic of the thread.
\<close>

definition serve_connection :: "network \<Rightarrow> rstr \<Rightarrow> rstr \<Rightarrow> client \<Rightarrow> u8 list \<Rightarrow> (client \<times> bool) option" where
  "serve_connection net html interface c bytes = do {
     r \<leftarrow> classify_request bytes;
     (case r of
        Accept accept \<Rightarrow>
          (let (c, ok) = send net c (response html (Accept accept)) in
           if ok then
             let (c, _) = send net c (encode_ws_text_frame (system_info interface)) in Some (c, True)
           else Some (c, False))
      | r \<Rightarrow> let (c, _) = send net c (response html r) in Some (c, False))
   }"

section \<open>The broadcaster\<close>

text \<open>One write per client, collecting the indices of those whose write failed.\<close>

fun write_loop :: "network \<Rightarrow> u8 list \<Rightarrow> nat \<Rightarrow> client list \<Rightarrow> client list \<times> nat list" where
  "write_loop net ws_frame idx [] = ([], [])"
| "write_loop net ws_frame idx (c # cs) =
    (let (c', ok) = send net c ws_frame; (cs', to_remove) = write_loop net ws_frame (idx + 1) cs
     in (c' # cs', if ok then to_remove else idx # to_remove))"

definition vec_remove :: "'a list \<Rightarrow> nat \<Rightarrow> 'a list option" where
  \<comment> \<open>\<open>Vec::remove\<close>, which panics out of range\<close>
  "vec_remove xs i = (if i < length xs then Some (take i xs @ drop (i + 1) xs) else None)"

definition broadcast_message :: "network \<Rightarrow> rstr \<Rightarrow> client list \<Rightarrow> client list option" where
  "broadcast_message net msg cls =
    (let ws_frame = encode_ws_text_frame msg;
         (cls, to_remove) = write_loop net ws_frame 0 cls
     in foldl (\<lambda>r idx. do { cls \<leftarrow> r; vec_remove cls idx }) (Some cls) (rev to_remove))"

section \<open>The hub\<close>

text \<open>
  What the threads share: the channel and the clients. The messages sent and those broadcast so
  far are kept for the specification.
\<close>

record hub =
  channel :: "rstr list"
  clients :: "client list"
  sent_messages :: "rstr list"
  broadcasts :: "rstr list"

definition hub_new :: hub where
  "hub_new = \<lparr>channel = [], clients = [], sent_messages = [], broadcasts = []\<rparr>"

definition hub_send :: "rstr \<Rightarrow> hub \<Rightarrow> hub" where
  \<comment> \<open>\<open>WebServer::broadcast\<close>\<close>
  "hub_send msg h = h\<lparr>channel := channel h @ [msg], sent_messages := sent_messages h @ [msg]\<rparr>"

inductive hub_step :: "network \<Rightarrow> rstr \<Rightarrow> rstr \<Rightarrow> hub \<Rightarrow> hub \<Rightarrow> bool"
  for net :: network and html interface :: rstr where
  send_message: "hub_step net html interface h (hub_send msg h)"
| broadcast_next: "\<lbrakk>channel h = msg # q; broadcast_message net msg (clients h) = Some cls\<rbrakk> \<Longrightarrow>
    hub_step net html interface h (h\<lparr>channel := q, clients := cls, broadcasts := broadcasts h @ [msg]\<rparr>)"
| connect: "\<lbrakk>received c = []; serve_connection net html interface c bytes = Some (c', joins)\<rbrakk> \<Longrightarrow>
    hub_step net html interface h (h\<lparr>clients := clients h @ (if joins then [c'\<lparr>joined_at := length (broadcasts h)\<rparr>] else [])\<rparr>)"

inductive reachable :: "network \<Rightarrow> rstr \<Rightarrow> rstr \<Rightarrow> hub \<Rightarrow> bool"
  for net :: network and html interface :: rstr where
  start: "reachable net html interface hub_new"
| step: "\<lbrakk>reachable net html interface h; hub_step net html interface h h'\<rbrakk> \<Longrightarrow> reachable net html interface h'"

inductive_cases hub_stepE: "hub_step net html interface h h'"

section \<open>Interface: a broadcaster\<close>

text \<open>
  What the clients rely on: a broadcast never panics, reaches the clients in the list and no
  other, and leaves in the list, in their order, exactly clients that got the whole encoded
  message. From it follows that a client in the list has got exactly the messages since it joined.
\<close>

definition got :: "(rstr \<Rightarrow> u8 list) \<Rightarrow> rstr list \<Rightarrow> u8 list \<Rightarrow> client \<Rightarrow> bool" where
  \<comment> \<open>after a prologue, a client got all messages of a history since it joined, and nothing else\<close>
  "got enc history prologue c \<longleftrightarrow> joined_at c \<le> length history \<and>
    received c = prologue @ concat (map enc (drop (joined_at c) history))"

locale broadcaster =
  fixes cast :: "rstr \<Rightarrow> client list \<Rightarrow> client list option"
    and enc :: "rstr \<Rightarrow> u8 list"
  assumes total: "cast m cls \<noteq> None"
    and survivors: "cast m cls = Some cls' \<Longrightarrow>
      \<exists>keep. cls' = map (\<lambda>c. c\<lparr>received := received c @ enc m\<rparr>) (filter keep cls)"
begin

lemma joined: "received c = prologue \<Longrightarrow> joined_at c = length history \<Longrightarrow> got enc history prologue c"
  by (simp add: got_def)

lemma cast_member:
  assumes "cast m cls = Some cls'" "c' \<in> set cls'"
  obtains c where "c \<in> set cls" "c' = c\<lparr>received := received c @ enc m\<rparr>"
  using survivors [OF assms(1)] assms(2) by auto

lemma cast_got:
  assumes "cast m cls = Some cls'" "\<forall>c \<in> set cls. \<exists>p. pro (peer c) p \<and> got enc history p c"
  shows "\<forall>c \<in> set cls'. \<exists>p. pro (peer c) p \<and> got enc (history @ [m]) p c"
proof
  fix c'
  assume "c' \<in> set cls'"
  then obtain c where c: "c \<in> set cls" "c' = c\<lparr>received := received c @ enc m\<rparr>"
    using cast_member [OF assms(1)] by blast
  then obtain p where p: "pro (peer c) p" "got enc history p c" using assms(2) by blast
  then have "got enc (history @ [m]) p c'" by (simp add: got_def c(2))
  moreover have "pro (peer c') p" using p(1) by (simp add: c(2))
  ultimately show "\<exists>p. pro (peer c') p \<and> got enc (history @ [m]) p c'" by blast
qed

end

text \<open>Removing the failed indices in reverse order is filtering the list.\<close>

definition delivers :: "network \<Rightarrow> u8 list \<Rightarrow> client \<Rightarrow> bool" where
  "delivers net data c \<longleftrightarrow> net c data = None"

lemma send_eq: "send net c data =
    (c\<lparr>received := received c @ (case net c data of None \<Rightarrow> data | Some k \<Rightarrow> take k data)\<rparr>, delivers net data c)"
  by (simp add: send_def delivers_def split: option.split)

lemma vec_remove_middle: "vec_remove (xs @ x # ys) (length xs) = Some (xs @ ys)"
  by (simp add: vec_remove_def)

lemma remove_failed:
  "foldl (\<lambda>r idx. do { cls \<leftarrow> r; vec_remove cls idx }) (Some (pre @ fst (write_loop net f (length pre) cs)))
      (rev (snd (write_loop net f (length pre) cs))) =
    Some (pre @ map (\<lambda>c. c\<lparr>received := received c @ f\<rparr>) (filter (delivers net f) cs))"
proof (induction cs arbitrary: pre)
  case (Cons c cs)
  obtain c' ok where send: "send net c f = (c', ok)" by fastforce
  obtain cs' rm where loop: "write_loop net f (Suc (length pre)) cs = (cs', rm)" by fastforce
  have IH: "foldl (\<lambda>r idx. do { cls \<leftarrow> r; vec_remove cls idx }) (Some (pre @ c' # cs')) (rev rm) =
      Some (pre @ c' # map (\<lambda>c. c\<lparr>received := received c @ f\<rparr>) (filter (delivers net f) cs))"
    using Cons.IH [of "pre @ [c']"] by (simp add: loop)
  show ?case
  proof (cases ok)
    case True
    then have "delivers net f c" "c' = c\<lparr>received := received c @ f\<rparr>"
      using send by (auto simp: send_eq delivers_def)
    then show ?thesis using IH True by (simp add: send loop)
  next
    case False
    then have "\<not> delivers net f c" using send by (auto simp: send_eq)
    then show ?thesis using IH False by (simp add: send loop vec_remove_middle)
  qed
qed simp

lemma broadcast_message_eq:
  "broadcast_message net msg cls = Some (map (\<lambda>c. c\<lparr>received := received c @ encode_ws_text_frame msg\<rparr>)
     (filter (delivers net (encode_ws_text_frame msg)) cls))"
  using remove_failed [of "[]" net "encode_ws_text_frame msg" cls]
  by (simp add: broadcast_message_def Let_def case_prod_beta)

interpretation web: broadcaster "broadcast_message net" encode_ws_text_frame for net
  by unfold_locales (auto simp: broadcast_message_eq)

section \<open>What a client gets\<close>

text \<open>
  The handshake response, and the frame with the system information: all of it, or the beginning
  of it at which the network cut the write to this peer.
\<close>

definition prologue :: "network \<Rightarrow> rstr \<Rightarrow> rstr \<Rightarrow> nat \<Rightarrow> u8 list \<Rightarrow> bool" where
  "prologue net html interface who p \<longleftrightarrow>
    (let sys = encode_ws_text_frame (system_info interface)
     in \<exists>accept. p = response html (Accept accept) @ sys \<or>
       (\<exists>c k. peer c = who \<and> received c = response html (Accept accept) \<and> net c sys = Some k \<and>
         k < length sys \<and> p = response html (Accept accept) @ take k sys))"

definition hub_inv :: "network \<Rightarrow> rstr \<Rightarrow> rstr \<Rightarrow> hub \<Rightarrow> bool" where
  "hub_inv net html interface h \<longleftrightarrow> sent_messages h = broadcasts h @ channel h \<and>
     (\<forall>c \<in> set (clients h). \<exists>p. prologue net html interface (peer c) p \<and>
       got encode_ws_text_frame (broadcasts h) p c)"

lemma serve_connection_joins:
  assumes "serve_connection net html interface c bytes = Some (c', True)" "received c = []"
  shows "prologue net html interface (peer c') (received c')"
proof -
  obtain accept where "classify_request bytes = Some (Accept accept)"
    and c': "send net c (response html (Accept accept)) = (c\<lparr>received := response html (Accept accept)\<rparr>, True)"
      "c' = fst (send net (c\<lparr>received := response html (Accept accept)\<rparr>) (encode_ws_text_frame (system_info interface)))"
    using assms
    by (auto simp: serve_connection_def send_eq delivers_def Let_def split: bind_splits reply.splits if_splits)
  let ?f = "encode_ws_text_frame (system_info interface)"
  let ?c = "c\<lparr>received := response html (Accept accept)\<rparr>"
  show ?thesis
  proof (cases "net ?c ?f")
    case None
    then have "received c' = response html (Accept accept) @ ?f" by (simp add: c'(2) send_eq)
    then show ?thesis unfolding prologue_def Let_def by blast
  next
    case (Some k)
    then have c': "peer c' = peer ?c" "received c' = response html (Accept accept) @ take k ?f"
      by (simp_all add: c'(2) send_eq)
    show ?thesis
    proof (cases "k < length ?f")
      case True
      then show ?thesis unfolding prologue_def Let_def c' using Some
        by (intro exI [of _ accept] disjI2 exI [of _ ?c] exI [of _ k]) simp
    next
      case False
      then show ?thesis unfolding prologue_def Let_def c' by (intro exI [of _ accept] disjI1) simp
    qed
  qed
qed

lemma hub_step_inv:
  assumes "hub_step net html interface h h'" "hub_inv net html interface h"
  shows "hub_inv net html interface h'"
  using assms(1)
proof cases
  case (send_message msg)
  then show ?thesis using assms(2) by (simp add: hub_inv_def hub_send_def)
next
  case (broadcast_next msg q cls)
  then show ?thesis
    using assms(2) web.cast_got [OF broadcast_next(3), of "prologue net html interface" "broadcasts h"]
    by (simp add: hub_inv_def)
next
  case (connect c bytes c' joins)
  have "got encode_ws_text_frame (broadcasts h) (received c') (c'\<lparr>joined_at := length (broadcasts h)\<rparr>)"
    by (rule web.joined) simp_all
  then show ?thesis
    using connect assms(2) serve_connection_joins [of net html interface c bytes c']
    by (auto simp: hub_inv_def)
qed

lemma reachable_inv: "reachable net html interface h \<Longrightarrow> hub_inv net html interface h"
proof (induction rule: reachable.induct)
  case start
  show ?case by (simp add: hub_inv_def hub_new_def)
next
  case (step h h')
  then show ?case using hub_step_inv by blast
qed

section \<open>The handshake\<close>

definition plain :: "u8 \<Rightarrow> bool" where
  "plain b \<longleftrightarrow> visible b \<or> b = 32"

lemma plain_ascii: "plain b \<Longrightarrow> is_ascii b"
  by (auto simp: plain_def visible_def is_ascii_def)

lemma plain_not_eol: "list_all plain l \<Longrightarrow> 10 \<notin> set l" "list_all plain l \<Longrightarrow> 13 \<notin> set l"
  by (auto simp: list_all_iff plain_def visible_def)

lemma str_lines_crlf: "list_all plain l \<Longrightarrow> str_lines (l @ crlf @ s) = l # str_lines s"
proof -
  assume l: "list_all plain l"
  have tw: "takeWhile (\<lambda>b. b \<noteq> 10) (l @ crlf @ s) = l @ [13]"
    using plain_not_eol(1) [OF l] by (induction l) (auto simp: crlf_def)
  have "drop (length (l @ [13]) + 1) (l @ crlf @ s) = s" by (simp add: crlf_def)
  then show ?thesis
    unfolding str_lines.simps [of "l @ crlf @ s"] Let_def tw by (simp add: strip_cr_def crlf_def)
qed

lemma lower_ascii: "list_all is_ascii s \<Longrightarrow> lower s = map ascii_lower s"
proof (induction s rule: lower.induct)
  case (1 b c d s)
  have "b \<noteq> 0xE2" using "1.prems" by (auto simp: is_ascii_def)
  then show ?case using 1 by simp
qed simp_all

lemma chars_ascii: "list_all is_ascii s \<Longrightarrow> chars s = map (\<lambda>b. [b]) s"
  by (induction s) (simp_all add: utf8_step_ascii)

lemma trim_key:
  assumes "list_all visible key" "key \<noteq> []"
  shows "trim (32 # key) = key"
proof -
  have ascii: "list_all is_ascii (32 # key)"
    using assms(1) by (auto simp: list_all_iff visible_ascii is_ascii_def visible_def)
  obtain b bs where key: "key = b # bs" "visible b" using assms by (cases key) auto
  obtain c cs where rev: "key = cs @ [c]" "visible c" using assms by (cases key rule: rev_cases) auto
  have "dropWhile (\<lambda>c. is_whitespace (code_point c)) (chars (32 # key)) = map (\<lambda>b. [b]) key"
    unfolding chars_ascii [OF ascii] using key by (simp add: space_whitespace visible_not_whitespace)
  moreover have "dropWhile (\<lambda>c. is_whitespace (code_point c)) (rev (map (\<lambda>b. [b]) key)) = rev (map (\<lambda>b. [b]) key)"
    using rev by (simp add: visible_not_whitespace)
  ultimately have "trim (32 # key) = concat (map (\<lambda>b. [b]) key)"
    by (simp only: trim_def Let_def rev_rev_ident)
  then show ?thesis by simp
qed

definition header_block :: "rstr list \<Rightarrow> rstr" where
  "header_block ls = concat (map (\<lambda>l. l @ crlf) ls)"

lemma str_lines_block: "list_all (list_all plain) ls \<Longrightarrow> str_lines (header_block ls @ s) = ls @ str_lines s"
  by (induction ls) (simp_all add: header_block_def str_lines_crlf)

lemma find_ws_key_skip:
  "list_all (\<lambda>l. \<not> starts_with (lower l) key_header) ls \<Longrightarrow> find_ws_key (ls @ ls') = find_ws_key ls'"
  by (induction ls) simp_all

lemma find_ws_key_line:
  assumes "map ascii_lower name = key_header" "list_all visible key" "key \<noteq> []"
  shows "find_ws_key ((name @ 32 # key) # ls) = Some (Some key)"
proof -
  have key: "list_all is_ascii key" using assms(2) by (auto simp: list_all_iff visible_ascii)
  have kh: "list_all is_ascii key_header" by (simp add: key_header_def lit_def is_ascii_def)
  have "is_ascii b" if "b \<in> set name" for b
  proof -
    have "is_ascii (ascii_lower b)" using kh that by (auto simp: assms(1) [symmetric] list_all_iff)
    then show ?thesis by (auto simp: ascii_lower_def is_ascii_def split: if_splits)
  qed
  then have ascii: "list_all is_ascii (name @ 32 # key)"
    using key by (auto simp: list_all_iff is_ascii_def)
  have len: "length name = length key_header" using assms(1) by (metis length_map)
  have "starts_with (lower (name @ 32 # key)) key_header"
    by (simp add: lower_ascii [OF ascii] assms(1))
  moreover have "str_slice_from (name @ 32 # key) (length key_header) = Some (32 # key)"
    unfolding len [symmetric] using ascii_byte_not_cont [OF ascii]
    by (simp add: str_slice_from_def is_char_boundary_def)
  ultimately show ?thesis by (simp add: trim_key assms(2,3))
qed

lemma classify_request_upgrade:
  assumes "list_all (list_all plain) headers" "list_all (\<lambda>l. \<not> starts_with (lower l) key_header) headers"
    and "list_all plain name" "map ascii_lower name = key_header" "list_all visible key" "key \<noteq> []"
    and "utf8_valid rest"
  shows "classify_request (header_block (lit ''GET /ws HTTP/1.1'' # headers @ [name @ 32 # key]) @ rest) =
    Some (Accept (base64_encode (sha1 (key @ guid))))"
proof -
  let ?ls = "lit ''GET /ws HTTP/1.1'' # headers @ [name @ 32 # key]"
  let ?b = "header_block ?ls @ rest"
  have plain: "list_all (list_all plain) ?ls"
    using assms(1,3,5) by (auto simp: list_all_iff plain_def visible_def lit_def)
  then have "list_all is_ascii (header_block ?ls)"
    by (auto simp: header_block_def list_all_iff plain_ascii crlf_def is_ascii_def [of 13] is_ascii_def [of 10])
  then have valid: "from_utf8_lossy ?b = ?b"
    using utf8_valid_append utf8_valid_ascii assms(7) by (intro from_utf8_lossy_valid) blast
  have "list_all (\<lambda>l. \<not> starts_with (lower l) key_header) (lit ''GET /ws HTTP/1.1'' # headers)"
    using assms(2) by (simp add: lit_def starts_with_def key_header_def ascii_lower_def)
  from find_ws_key_skip [OF this, of "(name @ 32 # key) # str_lines rest"]
  have "find_ws_key (str_lines ?b) = Some (Some key)"
    using find_ws_key_line [OF assms(4-6)] by (simp add: str_lines_block [OF plain])
  moreover have "starts_with ?b (lit ''GET /ws '')" "\<not> starts_with ?b (lit ''GET / '')"
    "\<not> starts_with ?b (lit ''GET /index.html '')"
    by (simp_all add: header_block_def lit_def starts_with_def)
  ultimately show ?thesis
    unfolding classify_request_def valid Let_def by (simp add: accept_key_def)
qed

text \<open>A request to run the server on.\<close>

definition upgrade_request :: rstr where
  "upgrade_request = header_block [lit ''GET /ws HTTP/1.1'', lit ''Sec-WebSocket-Key:'' @ 32 # lit ''abc''] @ crlf"

lemma upgrade_request_accepted:
  "classify_request upgrade_request = Some (Accept (base64_encode (sha1 (lit ''abc'' @ guid))))"
proof -
  have "classify_request (header_block (lit ''GET /ws HTTP/1.1'' # [] @ [lit ''Sec-WebSocket-Key:'' @ 32 # lit ''abc'']) @ crlf) =
      Some (Accept (base64_encode (sha1 (lit ''abc'' @ guid))))"
    by (rule classify_request_upgrade)
      (simp_all add: lit_def plain_def visible_def key_header_def ascii_lower_def crlf_def is_ascii_def)
  then show ?thesis by (simp add: upgrade_request_def)
qed

lemma upgrade_request_served:
  "\<exists>c. serve_connection (\<lambda>_ _. None) html iface \<lparr>peer = 1, received = [], joined_at = 0\<rparr> upgrade_request = Some (c, True)"
  by (simp add: upgrade_request_accepted serve_connection_def send_def Let_def)

text \<open>
  A client joins although the write of its system frame was cut, here after the first byte; the
  frames of the messages then follow in the middle of it, and no frame can be read any more.
\<close>

lemma cut_client_joins:
  fixes c html iface
  defines "c \<equiv> \<lparr>peer = 1, received = [], joined_at = 0\<rparr>"
    and "hs \<equiv> response html (Accept (base64_encode (sha1 (lit ''abc'' @ guid))))"
  shows "serve_connection (\<lambda>c data. if received c = [] then None else Some 1) html iface c upgrade_request =
    Some (c\<lparr>received := hs @ take 1 (encode_ws_text_frame (system_info iface))\<rparr>, True)"
proof -
  have "hs \<noteq> []" by (simp add: hs_def lit_def)
  then show ?thesis
    by (simp add: upgrade_request_accepted serve_connection_def send_def Let_def c_def hs_def [symmetric] del: response.simps)
qed

lemma cut_frame_spoils_stream:
  "read_frames (take 1 (encode_ws_text_frame info) @ encode_ws_text_frame msg @ rest) = None"
  by (simp add: read_frames.simps [of "_ # _"] decode_ws_frame_def encode_ws_text_frame_def Let_def)

text \<open>
  The key is cut off the line at the length of the header name, but the name is compared in lower
  case, where the Kelvin sign (three bytes) is a k (one byte). With one in place of each k the cut
  is inside a character and the thread of the connection panics; with one in place of the first k
  the key is cut short by two bytes, in front.
\<close>

lemma kelvin_sign_panics:
  "find_ws_key [lit ''Sec-WebSoc'' @ [0xE2, 0x84, 0xAA] @ lit ''et-'' @ [0xE2, 0x84, 0xAA] @ lit ''ey: abc''] = None"
  by (simp add: lit_def starts_with_def key_header_def ascii_lower_def str_slice_from_def is_char_boundary_def
      byte_at_def is_cont_def)

lemma kelvin_sign_spoils_key:
  "find_ws_key [lit ''Sec-WebSoc'' @ [0xE2, 0x84, 0xAA] @ lit ''et-Key: abc''] = Some (Some (lit ''y: abc''))"
proof -
  have "list_all is_ascii (lit ''y: abc'')" by (simp add: lit_def is_ascii_def)
  then have chars: "chars (lit ''y: abc'') = map (\<lambda>b. [b]) (lit ''y: abc'')" by (rule chars_ascii)
  have "trim (lit ''y: abc'') = lit ''y: abc''"
    unfolding trim_def Let_def chars by (simp add: lit_def code_point_def byte_at_def is_whitespace_def)
  moreover have "lit ''y: abc'' = [121, 58, 32, 97, 98, 99]" by (simp add: lit_def)
  ultimately show ?thesis
    by (simp add: lit_def starts_with_def key_header_def ascii_lower_def str_slice_from_def is_char_boundary_def
      byte_at_def is_cont_def)
qed

section \<open>Properties\<close>

text \<open>
  Broadcasting a message never panics, though it removes clients by index while others
  remain: it leaves, in their order, exactly the clients whose write succeeded, each with the
  whole frame, and drops the others.
\<close>

theorem broadcast_message_exact:
  "broadcast_message net msg cls = Some (map (\<lambda>c. c\<lparr>received := received c @ encode_ws_text_frame msg\<rparr>)
     (filter (\<lambda>c. net c (encode_ws_text_frame msg) = None) cls))"
  using broadcast_message_eq [of net msg cls] by (simp add: delivers_def [abs_def])

text \<open>
  C10: in every interleaving of the capture loop, the broadcaster and any number of connections,
  no message is lost, doubled or reordered on the channel, and every client in the list has got
  the handshake response, the system frame (or a beginning of it, if that write failed), and then
  every message broadcast from some point on, in order, with nothing in between.
\<close>

theorem clients_get_unbroken_run:
  assumes "reachable net html interface h"
  shows "sent_messages h = broadcasts h @ channel h \<and>
    list_all (\<lambda>c. \<exists>accept k n. received c = response html (Accept accept) @
      take k (encode_ws_text_frame (system_info interface)) @
      concat (map encode_ws_text_frame (drop n (broadcasts h)))) (clients h)"
proof -
  have "\<exists>accept k. p = response html (Accept accept) @ take k (encode_ws_text_frame (system_info interface))"
    if "prologue net html interface who p" for who p
    using that take_all [OF order_refl, of "encode_ws_text_frame (system_info interface)"]
    unfolding prologue_def Let_def by metis
  then show ?thesis
    using reachable_inv [OF assms] by (fastforce simp: hub_inv_def got_def list_all_iff)
qed

theorem clients_get_unbroken_run_witness:
  "\<exists>h :: hub. clients h \<noteq> [] \<and> list_all (\<lambda>c. \<exists>accept k n. received c = response [] (Accept accept) @
      take k (encode_ws_text_frame (system_info (lit ''lo''))) @
      concat (map encode_ws_text_frame (drop n (broadcasts h)))) (clients h)"
proof -
  let ?step = "hub_step (\<lambda>_ _. None) [] (lit ''lo'')"
  obtain c where "serve_connection (\<lambda>_ _. None) [] (lit ''lo'') \<lparr>peer = 1, received = [], joined_at = 0\<rparr> upgrade_request = Some (c, True)"
    using upgrade_request_served by blast
  note join = hub_step.connect [OF _ this, of hub_new]
  define h where "h = hub_new\<lparr>clients := [c\<lparr>joined_at := 0\<rparr>]\<rparr>"
  have "?step hub_new h" using join by (simp add: h_def hub_new_def)
  then have "reachable (\<lambda>_ _. None) [] (lit ''lo'') h" by (rule reachable.step [OF reachable.start])
  note clients_get_unbroken_run [OF this, THEN conjunct2]
  moreover have "clients h \<noteq> []" by (simp add: h_def)
  ultimately show ?thesis by blast
qed

text \<open>
  C24: the WebSocket handshake. On a request for \<open>/ws\<close> with any header lines, the key header in
  any capitalisation, and anything after it, the server accepts with the Base64 of the SHA-1 of
  the key and the GUID of RFC 6455; what it answers does not depend on the other headers.
\<close>

theorem classify_upgrade:
  assumes "list_all (list_all plain) headers" "list_all (\<lambda>l. \<not> starts_with (lower l) key_header) headers"
    and "list_all plain name" "map ascii_lower name = key_header" "list_all visible key" "key \<noteq> []"
    and "utf8_valid rest"
  shows "classify_request (header_block (lit ''GET /ws HTTP/1.1'' # headers @ [name @ 32 # key]) @ rest) =
    Some (Accept (base64_encode (sha1 (key @ guid))))"
  using assms by (rule classify_request_upgrade)

theorem classify_upgrade_witness:
  "classify_request (header_block (lit ''GET /ws HTTP/1.1'' # [lit ''Host: x''] @
      [lit ''Sec-WebSocket-Key:'' @ 32 # lit ''dGhlIHNhbXBsZQ=='']) @ crlf) =
    Some (Accept (base64_encode (sha1 (lit ''dGhlIHNhbXBsZQ=='' @ guid))))"
  by (rule classify_upgrade)
    (simp_all add: lit_def plain_def visible_def key_header_def ascii_lower_def starts_with_def crlf_def is_ascii_def)

end
