(* ===== verification/Program.thy ===== *)
theory Program
  imports Cli_Main Web_Server
begin

text \<open>
  The program as a whole: the capture loop of \<open>main\<close> (\<open>netzer-cli/src/main.rs\<close>, lines 762 to 800)
  with what its packets leave in the outputs, and the capture loop running beside the threads of
  the web server, which it feeds through the channel. A packet is reduced to its report: what the
  handlers make of it, or that it stops the program.
\<close>

section \<open>Specification: the report of a packet\<close>

text \<open>\<open>None\<close> stops the program, \<open>Some None\<close> is a packet that no handler reports.\<close>

definition frame_report :: "u8 list \<Rightarrow> packet_report option option" where
  "frame_report b = (case eth_view b of
     Some (Ipv4, p) \<Rightarrow>
       (case ipv4_view p of
          None \<Rightarrow> Some None
        | Some (src, dst, proto, q) \<Rightarrow>
            if proto = 6 then tcp_report src dst q
            else if proto = 17 then udp_report src dst q
            else if proto = 1 then Some (icmp_report src dst q)
            else Some None)
   | Some (Ipv6, p) \<Rightarrow>
       (case ipv6_view p of
          None \<Rightarrow> Some None
        | Some (src, dst, proto, q) \<Rightarrow>
            if proto = 6 then tcp_report src dst q
            else if proto = 17 then udp_report src dst q
            else if proto = 58 then Some (icmpv6_report src dst q)
            else Some None)
   | Some (Arp, p) \<Rightarrow> Some (arp_report p)
   | _ \<Rightarrow> Some None)"

text \<open>The packet after its pcap record, its dump and the stream tracker.\<close>

definition prepared :: "env \<Rightarrow> capture \<Rightarrow> world \<Rightarrow> world" where
  "prepared env c w = foldl (\<lambda>w s. follow_stream env (seg_src_ip s) (seg_src_port s) (seg_dst_ip s)
     (seg_dst_port s) (seg_payload s) w) (started env c w) (frame_segments (frame c))"

lemma process_packet_report:
  "process_packet env c sz w = or_panic (prepared env c w)
     (map_option (\<lambda>r. emit_option env (time_text c) sz (to_hex_string (frame c)) r (prepared env c w))
       (frame_report (frame c))) Done"
  by (simp add: process_packet_eq process_ipv4_eq process_ipv6_eq handler_eqs prepared_def frame_segments_def
      frame_report_def emit_option_def Let_def split: option.split prod.split EtherType.split)

lemma follow_stream_outputs [simp]:
  "web_messages (follow_stream env src sport dst dport d w) = web_messages w"
  "json_writer (follow_stream env src sport dst dport d w) = json_writer w"
  by (simp_all add: follow_stream_def println_def split: option.split prod.split)

lemma foldl_keeps: "(\<And>w x. field (step w x) = field w) \<Longrightarrow> field (foldl step w xs) = field w"
  by (induction xs arbitrary: w) simp_all

lemma prepared_outputs [simp]:
  "web_messages (prepared env c w) = web_messages w"
  "json_writer (prepared env c w) = json_writer w"
  unfolding prepared_def
  by (subst foldl_keeps, simp, simp add: started_def println_def Let_def)+

section \<open>What a capture leaves in the outputs\<close>

definition packet_messages :: "capture \<Rightarrow> rstr list" where
  "packet_messages c = (case frame_report (frame c) of
     Some (Some r) \<Rightarrow> [web_message (time_text c) (web_proto r) (rep_src r) (rep_dst r) (rep_info r)
       (length (frame c)) (to_hex_string (frame c))]
   | _ \<Rightarrow> [])"

text \<open>The entry of a packet in the JSON export: its strings and its size.\<close>

definition packet_entries :: "capture \<Rightarrow> (rstr list \<times> nat) list" where
  "packet_entries c = (case frame_report (frame c) of
     Some (Some r) \<Rightarrow> [([time_text c, json_proto r, rep_src r, rep_dst r, rep_info r], length (frame c))]
   | _ \<Rightarrow> [])"

fun entry_line :: "rstr list \<times> nat \<Rightarrow> rstr" where
  "entry_line ([time, proto, src, dst, info], sz) = json_line time proto src dst info sz"
| "entry_line _ = []"

lemma process_packet_messages:
  "web_messages (the_world (process_packet env c (length (frame c)) w)) =
    map_option (\<lambda>ms. ms @ packet_messages c) (web_messages w)"
  by (simp add: process_packet_report packet_messages_def emit_option_def option.map_ident split: option.split)

lemma write_json_full_disk:
  "fst (JsonWriter_write_packet (\<lambda>_ _. None) j time proto src dst info sz) =
    j\<lparr>json_file := json_file j @ json_line time proto src dst info sz\<rparr>"
  by (simp add: JsonWriter_write_packet_def write_all_def)

lemma process_packet_json:
  assumes "json_disk env = (\<lambda>_ _. None)"
  shows "json_writer (the_world (process_packet env c (length (frame c)) w)) =
    map_option (\<lambda>j. j\<lparr>json_file := json_file j @ concat (map entry_line (packet_entries c))\<rparr>) (json_writer w)"
  by (simp add: process_packet_report packet_entries_def emit_option_def option.map_ident assms
      write_json_full_disk split: option.split)

lemma capture_loop_messages:
  "web_messages (the_world (capture_loop env cs w)) =
    map_option (\<lambda>ms. ms @ concat (map packet_messages (processed cs))) (web_messages w)"
  by (induction cs arbitrary: w)
    (simp_all add: capture_loop_Cons process_packet_messages option.map_comp comp_def option.map_ident)

lemma capture_loop_json:
  assumes "json_disk env = (\<lambda>_ _. None)"
  shows "json_writer (the_world (capture_loop env cs w)) =
    map_option (\<lambda>j. j\<lparr>json_file := json_file j @ concat (map entry_line (concat (map packet_entries (processed cs))))\<rparr>)
      (json_writer w)"
  by (induction cs arbitrary: w)
    (simp_all add: capture_loop_Cons process_packet_json [OF assms] option.map_comp comp_def option.map_ident)

section \<open>Specification: a reader of the JSON export\<close>

lemma expect_length: "expect p s = Some r \<Longrightarrow> length s = length p + length r"
  by (auto simp: expect_def starts_with_iff split: if_splits)

lemma json_string_length: "json_string s = Some (t, r) \<Longrightarrow> length r < length s"
  by (induction s arbitrary: t r rule: json_string.induct)
    (fastforce split: if_splits list.splits bind_splits)+

lemma json_number_length: "json_number s = Some (n, r) \<Longrightarrow> length r \<le> length s"
  by (auto simp: json_number_def Let_def split: if_splits)

lemma read_line_length: "read_line s = Some (strs, n, r) \<Longrightarrow> length r < length s"
  unfolding read_line_def read_fields_def
  by (fastforce split: bind_splits dest!: expect_length json_string_length json_number_length)

function read_log :: "rstr \<Rightarrow> (rstr list \<times> nat) list option" where
  "read_log s =
    (if s = [] then Some []
     else case read_line s of
         None \<Rightarrow> None
       | Some (strs, n, rest) \<Rightarrow> map_option ((#) (strs, n)) (read_log rest))"
  by pat_completeness auto
termination by (relation "measure length") (auto dest: read_line_length)

declare read_log.simps [simp del]

fun well_formed_entry :: "rstr list \<times> nat \<Rightarrow> bool" where
  "well_formed_entry (strs, n) \<longleftrightarrow> length strs = 5"

fun clean_entry :: "rstr list \<times> nat \<Rightarrow> bool" where
  "clean_entry (strs, n) \<longleftrightarrow> list_all no_control strs"

lemma read_log_line:
  "read_log (json_line time proto src dst info sz @ rest) =
    (if list_all no_control [time, proto, src, dst, info]
     then map_option ((#) ([time, proto, src, dst, info], sz)) (read_log rest) else None)"
proof -
  have "json_line time proto src dst info sz @ rest \<noteq> []" by (simp add: json_line_def json_fields_def lit_def)
  then show ?thesis
    by (subst read_log.simps) (simp add: read_line_json del: append_is_Nil_conv)
qed

lemma read_log_entries:
  "list_all well_formed_entry es \<Longrightarrow>
    read_log (concat (map entry_line es)) = (if list_all clean_entry es then Some es else None)"
proof (induction es)
  case (Cons e es)
  obtain time proto src dst info sz where "e = ([time, proto, src, dst, info], sz)"
    using Cons.prems by (cases e) (auto simp: length_Suc_conv eval_nat_numeral)
  then show ?case using Cons by (simp add: read_log_line)
qed (simp add: read_log.simps)

lemma packet_entries_well_formed: "list_all well_formed_entry (concat (map packet_entries cs))"
  by (induction cs) (simp_all add: packet_entries_def split: option.split)

section \<open>The capture loop beside the web server\<close>

text \<open>
  The main thread handles a packet and sends the web messages it makes on the channel; in any
  order with it, the broadcaster takes a message and connections are served. A panic of the main
  thread ends the process, and with it every step.
\<close>

definition new_messages :: "world \<Rightarrow> world \<Rightarrow> rstr list" where
  "new_messages w w' = (case (web_messages w, web_messages w') of
     (Some ms, Some ms') \<Rightarrow> drop (length ms) ms'
   | _ \<Rightarrow> [])"

inductive live :: "env \<Rightarrow> network \<Rightarrow> rstr \<Rightarrow> rstr \<Rightarrow> world \<Rightarrow> capture list \<Rightarrow> outcome \<Rightarrow> hub \<Rightarrow> bool"
  for env :: env and net :: network and html iface :: rstr and start :: world where
  ready: "live env net html iface start [] (Done start) hub_new"
| packet: "live env net html iface start cs (Done w) h \<Longrightarrow>
    live env net html iface start (cs @ [c]) (process_packet env c (length (frame c)) w)
      (foldl (\<lambda>h msg. hub_send msg h) h
        (new_messages w (the_world (process_packet env c (length (frame c)) w))))"
| web: "\<lbrakk>live env net html iface start cs (Done w) h; hub_step net html iface h h';
    sent_messages h' = sent_messages h\<rbrakk> \<Longrightarrow> live env net html iface start cs (Done w) h'"

lemma reachable_sends:
  "reachable net html iface h \<Longrightarrow> reachable net html iface (foldl (\<lambda>h msg. hub_send msg h) h ms)"
  by (induction ms arbitrary: h) (auto intro: reachable.step hub_step.send_message)

lemma sent_sends: "sent_messages (foldl (\<lambda>h msg. hub_send msg h) h ms) = sent_messages h @ ms"
  by (induction ms arbitrary: h) (simp_all add: hub_send_def)

lemma capture_loop_snoc:
  "capture_loop env (cs @ [c]) w = and_then (capture_loop env cs w) (process_packet env c (length (frame c)))"
proof -
  have none: "capture_loop env [] = Done" by (rule ext) simp
  have ends: "and_then r Done = r" for r by (cases r) simp_all
  have "capture_loop env (cs @ [c]) w = and_then (capture_loop env cs w) (capture_loop env [c])"
    by (simp only: capture_loop_append and_then_eq)
  moreover have "capture_loop env [c] = process_packet env c (length (frame c))"
    by (rule ext) (simp add: capture_loop.simps(2) none ends)
  ultimately show ?thesis by simp
qed

lemma live_inv:
  assumes "live env net html iface start cs r h" "web_messages start = Some []"
  shows "capture_loop env cs start = r \<and> reachable net html iface h \<and>
    web_messages (the_world r) = Some (sent_messages h)"
  using assms(1)
proof induction
  case ready
  have "sent_messages hub_new = []" by (simp add: hub_new_def)
  then show ?case by (simp add: assms(2) reachable.start)
next
  case (packet cs w h c)
  let ?r = "process_packet env c (length (frame c)) w"
  have "capture_loop env (cs @ [c]) start = ?r"
    using packet.IH by (simp add: capture_loop_snoc)
  moreover have "web_messages (the_world ?r) = Some (sent_messages h @ packet_messages c)"
    using packet.IH by (simp add: process_packet_messages)
  ultimately show ?case
    using packet.IH by (simp add: reachable_sends sent_sends new_messages_def)
next
  case (web cs w h h')
  have "reachable net html iface h'" using web.IH web.hyps(2) by (blast intro: reachable.step)
  with web.IH web.hyps(3) show ?case by simp
qed

section \<open>The broadcaster catches up\<close>

text \<open>What is left of the clients after a message, and after the messages of a queue.\<close>

definition after_message :: "network \<Rightarrow> rstr \<Rightarrow> client list \<Rightarrow> client list" where
  "after_message net msg cls = map (\<lambda>c. c\<lparr>received := received c @ encode_ws_text_frame msg\<rparr>)
     (filter (\<lambda>c. net c (encode_ws_text_frame msg) = None) cls)"

lemma broadcast_after_message: "broadcast_message net msg cls = Some (after_message net msg cls)"
  by (simp add: broadcast_message_eq after_message_def delivers_def [abs_def])

lemma broadcaster_drains:
  "\<exists>h'. (hub_step net html iface ^^ length (channel h)) h h' \<and> channel h' = [] \<and>
    broadcasts h' = broadcasts h @ channel h \<and> sent_messages h' = sent_messages h \<and>
    clients h' = fold (after_message net) (channel h) (clients h)"
proof (induction "channel h" arbitrary: h)
  case (Cons msg q)
  let ?h = "h\<lparr>channel := q, clients := after_message net msg (clients h), broadcasts := broadcasts h @ [msg]\<rparr>"
  have step: "hub_step net html iface h ?h"
    using Cons.hyps(2) by (intro hub_step.broadcast_next) (simp_all add: broadcast_after_message)
  from Cons.hyps(1) [of ?h] obtain h' where "(hub_step net html iface ^^ length q) ?h h'" "channel h' = []"
    "broadcasts h' = broadcasts ?h @ q" "sent_messages h' = sent_messages h"
    "clients h' = fold (after_message net) q (clients ?h)"
    by auto
  moreover from this(1) step have "(hub_step net html iface ^^ Suc (length q)) h h'" by (blast intro: relpowp_Suc_I2)
  ultimately show ?case
    unfolding Cons.hyps(2) [symmetric] by (intro exI [of _ h']) simp
qed (auto intro!: exI)

section \<open>A packet to run the program on\<close>

text \<open>An echo request from 10.0.0.1 to 10.0.0.2.\<close>

definition ping :: capture where
  "ping = \<lparr>now = Some (1, 2), time_text = lit ''12:00:00.000'',
     frame = enc_ethernet (replicate 6 1) (replicate 6 2) 0x0800 (enc_ipv4 (replicate 8 0) 1 [0, 0]
       [10, 0, 0, 1] [10, 0, 0, 2] [] (enc_icmp 8 0 (replicate 6 0) []))\<rparr>"

lemma ping_report:
  "frame_report (frame ping) = Some (icmp_report (lit ''10.0.0.1'') (lit ''10.0.0.2'') [8, 0, 0, 0, 0, 0, 0, 0])"
proof -
  let ?icmp = "enc_icmp 8 0 (replicate 6 0) []"
  let ?ip = "enc_ipv4 (replicate 8 0) 1 [0, 0] [10, 0, 0, 1] [10, 0, 0, 2] [] ?icmp"
  have "eth_view (frame ping) = Some (Ipv4, ?ip)"
    using ethernet_roundtrip [of "replicate 6 1" "replicate 6 2" "0x0800" ?ip] by (auto simp: ping_def eth_view_def)
  moreover have "ipv4_view ?ip = Some (lit ''10.0.0.1'', lit ''10.0.0.2'', 1, ?icmp)"
    using ipv4_roundtrip [of "replicate 8 0" "[0, 0]" "[10, 0, 0, 1]" "[10, 0, 0, 2]" "[]" 1 ?icmp]
    by (auto simp: ipv4_view_def wf_options_def fmt_dec.simps lit_def)
  moreover have "?icmp = [8, 0, 0, 0, 0, 0, 0, 0]" by (simp add: enc_icmp_def eval_nat_numeral)
  ultimately show ?thesis by (simp add: frame_report_def)
qed

lemma ping_processed: "processed [ping] = [ping]"
  by simp

lemma ping_entries: "packet_entries ping =
    [([lit ''12:00:00.000'', lit ''ICMP'', lit ''10.0.0.1'', lit ''10.0.0.2'', lit ''Echo Request (8)''], 42)]"
proof -
  have "length (frame ping) = 42" by (simp add: ping_def enc_ethernet_def enc_ipv4_def enc_icmp_def)
  moreover have "time_text ping = lit ''12:00:00.000''" by (simp add: ping_def)
  ultimately show ?thesis by (simp add: packet_entries_def ping_report icmp_report_def icmp_info_def Let_def)
qed

lemma length_fmt_dec: "length (fmt_dec n) \<le> n + 1"
proof (induction n rule: fmt_dec.induct)
  case (1 n)
  show ?case
  proof (cases "n < 10")
    case False
    then have "n div 10 + 1 \<le> n" by simp
    with 1 [OF False] False show ?thesis by (simp add: fmt_dec.simps [of n])
  qed (simp add: fmt_dec.simps [of n])
qed

lemma length_escape_json: "length (escape_json s) \<le> 2 * length s"
  by (induction s) (simp_all add: escape_json_Cons)

lemma length_to_hex_string: "length (to_hex_string bs) \<le> 512"
proof -
  have "length (concat (map fmt_hex2 xs)) = 2 * length xs" for xs
    by (induction xs) (simp_all add: length_fmt_hex2)
  then show ?thesis by (simp add: to_hex_string_def Let_def)
qed

lemma length_web_message:
  "length (web_message time proto src dst info sz raw_hex) \<le>
    2 * (length time + length proto + length src + length dst + length info) + length raw_hex + sz + 200"
  using length_escape_json [of time] length_escape_json [of proto] length_escape_json [of src]
    length_escape_json [of dst] length_escape_json [of info] length_fmt_dec [of sz]
  by (simp add: web_message_def json_fields_def lit_def)

lemma ping_messages: "list_all (\<lambda>m. length m < 2 ^ 64) (packet_messages ping)"
proof -
  have "length (frame ping) = 42" by (simp add: ping_def enc_ethernet_def enc_ipv4_def enc_icmp_def)
  moreover have "time_text ping = lit ''12:00:00.000''" by (simp add: ping_def)
  ultimately have "list_all (\<lambda>m. length m < 2000) (packet_messages ping)"
    using length_to_hex_string [of "frame ping"]
      length_web_message [of "lit ''12:00:00.000''" "lit ''ICMP''" "lit ''10.0.0.1''" "lit ''10.0.0.2''"
        "lit ''Echo Request (8)''" 42 "to_hex_string (frame ping)"]
    by (simp add: packet_messages_def ping_report icmp_report_def icmp_info_def Let_def)
  then show ?thesis by (rule list.pred_mono_strong) simp
qed

text \<open>A run with one client: it connects, then the packet arrives and is broadcast.\<close>

lemma ping_run:
  assumes "web_messages start = Some []"
  shows "\<exists>r h. live env (\<lambda>_ _. None) html iface start [ping] r h \<and> channel h = [] \<and> clients h \<noteq> [] \<and>
    list_all (\<lambda>c. joined_at c = 0) (clients h)"
proof -
  let ?net = "\<lambda>_ _. None" and ?r = "process_packet env ping (length (frame ping)) start"
  obtain c0 where served: "serve_connection ?net html iface \<lparr>peer = 1, received = [], joined_at = 0\<rparr> upgrade_request = Some (c0, True)"
    using upgrade_request_served by blast
  define c where "c = c0\<lparr>joined_at := 0\<rparr>"
  define h0 where "h0 = hub_new\<lparr>clients := [c]\<rparr>"
  have "hub_step ?net html iface hub_new h0"
    using hub_step.connect [OF _ served, of hub_new] by (simp add: h0_def hub_new_def c_def)
  then have "live env ?net html iface start [] (Done start) h0"
    by (rule live.web [OF live.ready]) (simp add: h0_def)
  from live.packet [OF this, of ping] have ran: "live env ?net html iface start [ping] ?r
      (foldl (\<lambda>h msg. hub_send msg h) h0 (new_messages start (the_world ?r)))" by simp
  obtain w where w: "?r = Done w" by (simp add: process_packet_report ping_report)
  have "web_messages (the_world ?r) = Some (packet_messages ping)"
    by (simp add: process_packet_messages assms)
  then have "new_messages start (the_world ?r) = packet_messages ping" by (simp add: new_messages_def assms)
  moreover obtain msg where "packet_messages ping = [msg]"
    by (simp add: packet_messages_def ping_report icmp_report_def Let_def)
  ultimately have ran: "live env ?net html iface start [ping] (Done w) (hub_send msg h0)"
    using ran w by simp
  define h2 where "h2 = (hub_send msg h0)\<lparr>channel := [], clients := after_message ?net msg [c], broadcasts := [msg]\<rparr>"
  have "hub_step ?net html iface (hub_send msg h0) h2"
    unfolding h2_def
    using hub_step.broadcast_next [of "hub_send msg h0" msg "[]" ?net "after_message ?net msg [c]" html iface]
    by (simp add: broadcast_after_message hub_send_def h0_def hub_new_def)
  then have "live env ?net html iface start [ping] (Done w) h2"
    by (rule live.web [OF ran]) (simp add: h2_def)
  moreover have "channel h2 = []" "clients h2 \<noteq> []" "list_all (\<lambda>c. joined_at c = 0) (clients h2)"
    by (simp_all add: h2_def after_message_def c_def)
  ultimately show ?thesis by blast
qed

end
