(* ===== verification/Utf8_Typing.thy ===== *)
theory Utf8_Typing
  imports Program
begin

text \<open>
  Strings of the program are strings of Rust: UTF-8, as the type \<open>String\<close> requires. The model
  keeps them as bytes, so this is an invariant to prove: every function of the string library
  that the program uses keeps it, whatever bytes come from the network, and so the terminal, the
  JSON export and the web messages are UTF-8 at every moment.
\<close>

section \<open>Characters and boundaries\<close>

lemma utf8_step_cont: "utf8_step s = (True, n) \<Longrightarrow> 0 < i \<Longrightarrow> i < n \<Longrightarrow> is_cont (byte_at s i)"
proof -
  assume s: "utf8_step s = (True, n)" and i: "0 < i" "i < n"
  have three: "second_of_3 x y \<Longrightarrow> is_cont y" for x y
    by (auto simp: second_of_3_def is_cont_def split: if_splits)
  have four: "second_of_4 x y \<Longrightarrow> is_cont y" for x y
    by (auto simp: second_of_4_def is_cont_def split: if_splits)
  have "i \<in> {1, 2, 3}" using i utf8_step_pos [OF s] by auto
  then show ?thesis
    using s i by (elim insertE emptyE) (auto simp: utf8_step_def Let_def split: if_splits dest: three four)
qed

lemma utf8_step_take:
  assumes "utf8_step s = (True, n)" "s \<noteq> []"
  shows "utf8_step (take n s) = (True, n)"
proof -
  have n: "0 < n" "n \<le> length s" using utf8_step_pos [OF assms(1)] utf8_step_length [OF assms] by simp_all
  have at: "byte_at (take n s) i = byte_at s i" if "i < n" for i
    using that n by (simp add: byte_at_def)
  show ?thesis
    using assms(1) n at by (auto simp: utf8_step_def Let_def split: if_splits)
qed

lemma utf8_valid_char: "utf8_step s = (True, n) \<Longrightarrow> s \<noteq> [] \<Longrightarrow> utf8_valid (take n s)"
proof -
  assume s: "utf8_step s = (True, n)" "s \<noteq> []"
  then have "take n s \<noteq> []" "drop n (take n s) = []" using utf8_step_pos by fastforce+
  then show ?thesis using utf8_valid_step [of "take n s"] utf8_step_take [OF s] by auto
qed

lemma utf8_valid_boundary:
  "utf8_valid s \<Longrightarrow> is_char_boundary s i \<Longrightarrow> utf8_valid (take i s) \<and> utf8_valid (drop i s)"
proof (induction s arbitrary: i rule: length_induct)
  case (1 s)
  show ?case
  proof (cases "i = 0 \<or> s = []")
    case False
    then obtain n where n: "utf8_step s = (True, n)" "utf8_valid (drop n s)"
      using 1 utf8_valid_step by blast
    have len: "0 < n" "n \<le> length s" using n(1) False utf8_step_pos utf8_step_length by blast+
    have "n \<le> i"
      using 1(3) False len utf8_step_cont [OF n(1), of i] by (force simp: is_char_boundary_def not_le)
    then have i: "is_char_boundary (drop n s) (i - n)"
      using 1(3) len by (auto simp: is_char_boundary_def byte_at_def)
    have "take i s = take n s @ take (i - n) (drop n s)" "drop i s = drop (i - n) (drop n s)"
      using \<open>n \<le> i\<close> by (simp_all add: take_add [symmetric])
    moreover have "length (drop n s) < length s" using len by simp
    then have "utf8_valid (take (i - n) (drop n s)) \<and> utf8_valid (drop (i - n) (drop n s))"
      using 1(1) n(2) i by blast
    moreover have "utf8_valid (take n s)" using utf8_valid_char [OF n(1)] False by blast
    ultimately show ?thesis by (simp only: utf8_valid_append)
  qed (use 1 in auto)
qed

text \<open>An ASCII byte is a character of its own.\<close>

lemma utf8_valid_at_ascii:
  assumes "utf8_valid (xs @ c # ys)" "is_ascii c"
  shows "utf8_valid xs" "utf8_valid ys"
proof -
  have "is_char_boundary (xs @ c # ys) (length xs)"
    using assms(2) by (simp add: is_char_boundary_def byte_at_def is_cont_def is_ascii_def)
  from utf8_valid_boundary [OF assms(1) this] show "utf8_valid xs" "utf8_valid ys"
    using assms(2) by simp_all
qed

section \<open>The string library keeps UTF-8\<close>

lemma utf8_valid_lossy: "utf8_valid (from_utf8_lossy s)"
proof (induction s rule: from_utf8_lossy.induct)
  case (2 b s)
  obtain ok n where st: "utf8_step (b # s) = (ok, n)" by fastforce
  have "utf8_valid (from_utf8_lossy (drop (n - 1) s))" using 2 [OF st [symmetric]] by simp
  moreover have "utf8_valid [0xEF, 0xBF, 0xBD]"
    by (simp add: utf8_valid.simps utf8_step_def byte_at_def second_of_3_def is_cont_def)
  moreover have "ok \<Longrightarrow> utf8_valid (take n (b # s))" using utf8_valid_char [of "b # s" n] st by simp
  ultimately show ?case using st by (simp add: utf8_valid_append del: take_Suc_Cons)
qed simp

lemma utf8_valid_rest: "utf8_valid (b # s) \<Longrightarrow> utf8_valid (drop (snd (utf8_step (b # s)) - 1) s)"
  by (auto simp: utf8_valid.simps split: prod.splits)

lemma utf8_valid_first: "utf8_valid (b # s) \<Longrightarrow> utf8_valid (take (snd (utf8_step (b # s))) (b # s))"
  using utf8_valid_char [of "b # s"] utf8_valid_step [of "b # s"] by fastforce

lemma utf8_valid_trim_start: "utf8_valid s \<Longrightarrow> utf8_valid (trim_start s)"
proof (induction s rule: trim_start.induct)
  case (2 b s)
  then show ?case using utf8_valid_rest [OF 2(2)] by simp
qed simp

lemma utf8_valid_split_ws:
  "utf8_valid cur \<Longrightarrow> utf8_valid s \<Longrightarrow> list_all utf8_valid (split_ws cur s)"
proof (induction cur s rule: split_ws.induct)
  case (2 cur b s)
  then show ?case
    using utf8_valid_rest [OF 2(4)] utf8_valid_first [OF 2(4)]
    by (simp add: Let_def utf8_valid_append del: take_Suc_Cons)
qed simp

lemma utf8_valid_splitn: "is_ascii c \<Longrightarrow> utf8_valid s \<Longrightarrow> list_all utf8_valid (splitn n c s)"
proof (induction n c s rule: splitn.induct)
  case (3 n c s)
  show ?case
  proof (cases "c \<in> set s")
    case True
    then have "utf8_valid (takeWhile (\<lambda>x. x \<noteq> c) s) \<and> utf8_valid (tl (dropWhile (\<lambda>x. x \<noteq> c) s))"
      using 3 utf8_valid_at_ascii [of "takeWhile (\<lambda>x. x \<noteq> c) s" c] takeWhile_sep [OF True] by metis
    then show ?thesis using 3 True by simp
  qed (use 3 in simp)
qed simp_all

lemma utf8_valid_join: "utf8_valid sep \<Longrightarrow> list_all utf8_valid ps \<Longrightarrow> utf8_valid (join sep ps)"
  by (induction sep ps rule: join.induct) (simp_all add: utf8_valid_append)

lemma utf8_valid_replace:
  assumes "is_ascii c" "utf8_valid r" "utf8_valid s"
  shows "utf8_valid (replace_byte c r s)"
  using assms(3)
proof (induction s rule: length_induct)
  case (1 s)
  have same: "replace_byte c r xs = xs" if "c \<notin> set xs" for xs
    using that by (induction xs) (auto simp: replace_byte_Cons)
  show ?case
  proof (cases "c \<in> set s")
    case True
    then obtain xs ys where s: "s = xs @ c # ys" "c \<notin> set xs" using split_list_first by metis
    then have "utf8_valid xs" "utf8_valid ys" using 1(2) utf8_valid_at_ascii assms(1) by blast+
    then show ?thesis using 1(1) s assms(2) same [OF s(2)] by (simp add: replace_byte_Cons utf8_valid_append)
  qed (use 1 same in simp)
qed

lemma utf8_valid_escape: "utf8_valid s \<Longrightarrow> utf8_valid (escape_json s)"
  by (simp add: escape_json_def utf8_valid_replace is_ascii_def)

lemma utf8_valid_lit [simp]: "list_all (\<lambda>c. is_ascii (of_char c)) s \<Longrightarrow> utf8_valid (lit s)"
  by (rule utf8_valid_ascii) (simp add: lit_def list_all_iff)

lemma utf8_valid_truncate: "utf8_valid s \<Longrightarrow> truncate_str s m = Some t \<Longrightarrow> utf8_valid t"
  using utf8_valid_boundary [of s]
  by (auto simp: truncate_str_def str_slice_to_def utf8_valid_append is_ascii_def
      split: option.splits if_splits bind_splits)

lemma utf8_valid_pad: "utf8_valid s \<Longrightarrow> utf8_valid (pad_right n s)"
  by (simp add: pad_right_def utf8_valid_append utf8_valid_ascii is_ascii_def list_all_iff)

section \<open>What the program says is UTF-8\<close>

lemma utf8_valid_numbers [simp]: "utf8_valid (fmt_dec n)"
  by (rule utf8_valid_ascii [OF ascii_fmt_dec])

lemma printable_valid: "list_all printable s \<Longrightarrow> utf8_valid s"
  by (rule utf8_valid_ascii) (auto simp: list_all_iff printable_def is_ascii_def)

lemma utf8_valid_hex [simp]: "utf8_valid (fmt_hex2 b)"
  by (simp add: fmt_hex2_def printable_valid printable_fmt_hex_pad)

lemma utf8_valid_addresses [simp]:
  "utf8_valid (display_MacAddress m)" "utf8_valid (display_Ipv4Address a)" "utf8_valid (display_Ipv6Address b)"
proof -
  show "utf8_valid (display_MacAddress m)" by (cases m) (simp add: utf8_valid_append is_ascii_def)
  show "utf8_valid (display_Ipv4Address a)" by (cases a) (simp add: utf8_valid_append is_ascii_def)
  show "utf8_valid (display_Ipv6Address b)" by (cases b) (simp add: utf8_valid_append is_ascii_def)
qed

lemma utf8_valid_endpoint: "utf8_valid ip \<Longrightarrow> utf8_valid (endpoint ip port)"
  by (simp add: endpoint_def utf8_valid_append is_ascii_def)

lemma utf8_valid_tcp_info:
  assumes info: "tcp_info port p = Some (info, tls, http)"
  shows "utf8_valid info"
proof (cases "port = 443")
  case True
  then show ?thesis
    using info TlsClientHello_sni [of p]
    by (auto simp: tcp_info_def encrypted_def is_ascii_def intro: utf8_valid_truncate
        split: bind_splits sum.splits)
next
  case False
  let ?t = "trim_start (from_utf8_lossy p)"
  have t: "utf8_valid ?t" by (simp add: utf8_valid_trim_start utf8_valid_lossy)
  have "list_all utf8_valid (split_whitespace ?t)"
    unfolding split_whitespace_def by (rule utf8_valid_split_ws) (simp_all add: t)
  then have word: "i < length (split_whitespace ?t) \<Longrightarrow> utf8_valid (split_whitespace ?t ! i)" for i
    by (simp add: list_all_length)
  have "list_all utf8_valid (splitn 3 32 ?t)"
    by (rule utf8_valid_splitn) (simp_all add: t is_ascii_def)
  then have "list_all utf8_valid (tl (splitn 3 32 ?t))" by (cases "splitn 3 32 ?t") simp_all
  then have rest: "utf8_valid (join (lit '' '') (tl (splitn 3 32 ?t)))"
    by (intro utf8_valid_join) (simp_all add: is_ascii_def)
  have first: "utf8_valid (split_whitespace ?t ! 0 @ lit '' '' @ split_whitespace ?t ! 1)"
    if "2 \<le> length (split_whitespace ?t)"
  proof -
    have "0 < length (split_whitespace ?t)" "1 < length (split_whitespace ?t)" using that by linarith+
    then show ?thesis by (simp only: word utf8_valid_append) (simp add: word is_ascii_def utf8_valid_append)
  qed
  show ?thesis
    using info False first rest
    by (auto simp: tcp_info_def Let_def encrypted_def is_ascii_def split: if_splits)
qed

lemma utf8_valid_udp_info: "udp_info sport dport p = Some (info, dns) \<Longrightarrow> utf8_valid info"
  using DnsQuery_domain_well_formed [of p]
  by (auto simp: udp_info_def utf8_valid_append is_ascii_def intro: utf8_valid_truncate
      split: bind_splits sum.splits if_splits)

lemma utf8_valid_icmp_info [simp]: "utf8_valid (icmp_info ty c)" "utf8_valid (icmpv6_info ty)"
  by (simp_all add: icmp_info_def icmpv6_info_def utf8_valid_append is_ascii_def)

section \<open>Reports\<close>

definition valid_report :: "packet_report \<Rightarrow> bool" where
  "valid_report r \<longleftrightarrow> list_all utf8_valid [proto_label r, shown_info r, json_proto r, web_proto r, rep_src r,
     rep_dst r, rep_info r]"

lemma valid_tcp_report:
  assumes "tcp_report src dst b = Some (Some r)" "utf8_valid src" "utf8_valid dst"
  shows "valid_report r"
  using assms utf8_valid_tcp_info
  by (auto simp: tcp_report_def valid_report_def utf8_valid_endpoint is_ascii_def Let_def
      split: bind_splits sum.splits)

lemma valid_udp_report:
  assumes "udp_report src dst b = Some (Some r)" "utf8_valid src" "utf8_valid dst"
  shows "valid_report r"
  using assms utf8_valid_udp_info
  by (auto simp: udp_report_def valid_report_def utf8_valid_endpoint is_ascii_def Let_def
      split: bind_splits sum.splits)

lemma valid_icmp_reports:
  assumes "utf8_valid src" "utf8_valid dst"
  shows "icmp_report src dst b = Some r \<Longrightarrow> valid_report r" "icmpv6_report src dst b = Some r \<Longrightarrow> valid_report r"
  using assms by (auto simp: icmp_report_def icmpv6_report_def valid_report_def is_ascii_def Let_def split: if_splits)

lemma valid_arp_report: "arp_report b = Some r \<Longrightarrow> valid_report r"
proof -
  have take: "utf8_valid (take n (arp_text b))" for n
    using ascii_arp_text [of b] by (intro utf8_valid_ascii) (auto simp: list_all_iff dest: in_set_takeD)
  show "arp_report b = Some r \<Longrightarrow> valid_report r"
    using take [of "length (arp_text b)"] take [of 32]
    by (auto simp: arp_report_def valid_report_def utf8_valid_append is_ascii_def
        simp del: display_MacAddress.simps split: if_splits)
qed

lemma ipv4_view_valid: "ipv4_view b = Some (src, dst, proto, q) \<Longrightarrow> utf8_valid src \<and> utf8_valid dst"
  by (auto simp: ipv4_view_def split: option.splits sum.splits bind_splits simp del: display_Ipv4Address.simps)

lemma ipv6_view_valid: "ipv6_view b = Some (src, dst, proto, q) \<Longrightarrow> utf8_valid src \<and> utf8_valid dst"
  by (auto simp: ipv6_view_def split: option.splits sum.splits bind_splits simp del: display_Ipv6Address.simps)

lemma frame_report_valid: "frame_report b = Some (Some r) \<Longrightarrow> valid_report r"
  by (auto simp: frame_report_def split: option.splits prod.splits EtherType.splits if_splits
      dest: ipv4_view_valid ipv6_view_valid intro: valid_tcp_report valid_udp_report valid_icmp_reports valid_arp_report)

section \<open>The outputs\<close>

text \<open>
  The terminal, the JSON export and the web messages hold UTF-8. Colouring a string is the crate
  \<open>colored\<close>'s; it puts escape sequences around the string, which keeps it UTF-8.
\<close>

definition utf8_paint :: "env \<Rightarrow> bool" where
  "utf8_paint env \<longleftrightarrow> (\<forall>st s. utf8_valid s \<longrightarrow> utf8_valid (paint env st s))"

definition utf8_world :: "world \<Rightarrow> bool" where
  "utf8_world w \<longleftrightarrow> utf8_valid (stdout w) \<and> pred_option (\<lambda>j. utf8_valid (json_file j)) (json_writer w) \<and>
     pred_option (list_all utf8_valid) (web_messages w)"

lemma utf8_println: "utf8_world w \<Longrightarrow> utf8_valid s \<Longrightarrow> utf8_world (println s w)"
  by (simp add: utf8_world_def println_def utf8_valid_append is_ascii_def)

lemma utf8_println_painted: "\<lbrakk>utf8_paint env; utf8_world w; utf8_valid s\<rbrakk> \<Longrightarrow> utf8_world (println (paint env st s) w)"
  by (simp add: utf8_println utf8_paint_def)

lemma utf8_bar [simp]: "utf8_valid (bar @ s) \<longleftrightarrow> utf8_valid s"
proof -
  have "utf8_valid bar"
    by (simp add: bar_def utf8_valid.simps(2) utf8_step_def byte_at_def second_of_3_def is_cont_def)
  then show ?thesis by (rule utf8_valid_append)
qed

lemma utf8_rule_line [simp]: "utf8_valid (rule_line n)"
proof -
  have "utf8_valid [0xE2, 0x94, 0x80]"
    by (simp add: utf8_valid.simps(2) utf8_step_def byte_at_def second_of_3_def is_cont_def)
  then show ?thesis unfolding rule_line_def by (induction n) (simp_all add: utf8_valid_append del: append_Cons)
qed

lemma utf8_json_fields:
  "list_all utf8_valid [time, proto, src, dst, info] \<Longrightarrow> utf8_valid (json_fields time proto src dst info sz)"
  by (simp add: json_fields_def utf8_valid_append utf8_valid_escape is_ascii_def)

lemma utf8_hex_string: "utf8_valid (to_hex_string b)"
proof -
  have "utf8_valid (concat (map fmt_hex2 xs))" for xs by (induction xs) (simp_all add: utf8_valid_append)
  then show ?thesis by (simp add: to_hex_string_def Let_def)
qed

lemma utf8_log:
  assumes "json_disk env = (\<lambda>_ _. None)" "utf8_world w" "list_all utf8_valid [time, proto, src, dst, info]"
  shows "utf8_world (log_json env time proto src dst info sz w)"
proof (cases "json_writer w")
  case (Some j)
  have "utf8_valid (json_line time proto src dst info sz)"
    using utf8_json_fields [OF assms(3)] by (simp add: json_line_def utf8_valid_append is_ascii_def)
  then show ?thesis
    using assms(2) by (simp add: Some log_json_def assms(1) write_json_full_disk utf8_world_def utf8_valid_append)
qed (simp add: log_json_def assms(2))

lemma utf8_broadcast: "utf8_world w \<Longrightarrow> utf8_valid m \<Longrightarrow> utf8_world (broadcast_web m w)"
  by (cases "web_messages w") (simp_all add: utf8_world_def broadcast_web_def)

lemma utf8_emit:
  assumes "utf8_paint env" "json_disk env = (\<lambda>_ _. None)" "utf8_world w" "utf8_valid time" "valid_report r"
  shows "utf8_world (emit env time sz (to_hex_string b) r w)"
proof -
  have strings: "list_all utf8_valid [proto_label r, shown_info r, json_proto r, web_proto r, rep_src r, rep_dst r, rep_info r]"
    using assms(5) by (simp add: valid_report_def)
  have paint: "utf8_valid s \<Longrightarrow> utf8_valid (paint env st s)" for st s
    using assms(1) by (simp add: utf8_paint_def)
  have "utf8_world (print_packet_line env time (paint env (proto_style r) (pad_right 5 (proto_label r)))
      (rep_src r) (rep_dst r) (paint env (info_style r) (pad_right 35 (shown_info r))) sz w)"
    unfolding print_packet_line_def Let_def
    using strings assms(3,4)
    by (intro utf8_println) (simp_all add: utf8_valid_append paint utf8_valid_pad is_ascii_def)
  then show ?thesis
    using strings assms(2,4) unfolding emit_def
    by (intro utf8_broadcast utf8_log)
      (simp_all add: web_message_def utf8_json_fields utf8_hex_string utf8_valid_append is_ascii_def)
qed

lemma utf8_printable_stream: "utf8_valid (printable_stream d)"
  by (rule utf8_valid_ascii)
    (auto simp: printable_stream_def list_all_iff is_ascii_def is_ascii_graphic_def)

lemma utf8_follow_stream:
  assumes "utf8_paint env" "utf8_world w"
  shows "utf8_world (follow_stream env src sport dst dport d w)"
proof -
  have "utf8_world (w\<lparr>stream_tracker := t\<rparr>)" for t using assms(2) by (simp add: utf8_world_def)
  then show ?thesis
    using assms
    by (auto simp: follow_stream_def utf8_printable_stream utf8_valid_append is_ascii_def
        intro!: utf8_println_painted split: option.split prod.split)
qed

lemma utf8_prepared:
  assumes "utf8_paint env" "utf8_world w"
  shows "utf8_world (prepared env c w)"
proof -
  have "utf8_valid (hexdump b)" for b
    by (rule utf8_valid_ascii)
      (use hexdump_printable [of b] in \<open>auto simp: list_all_iff printable_def is_ascii_def\<close>)
  moreover have "utf8_world (w\<lparr>pcap_writer := p\<rparr>)" for p using assms(2) by (simp add: utf8_world_def)
  ultimately have "utf8_world (started env c w)"
    using assms by (simp add: started_def Let_def utf8_println_painted)
  moreover have "utf8_world w \<Longrightarrow> utf8_world (foldl (\<lambda>w s. follow_stream env (seg_src_ip s) (seg_src_port s)
      (seg_dst_ip s) (seg_dst_port s) (seg_payload s) w) w ss)" for w ss
    by (induction ss arbitrary: w) (simp_all add: utf8_follow_stream assms(1))
  ultimately show ?thesis by (simp add: prepared_def)
qed

lemma utf8_process_packet:
  assumes "utf8_paint env" "json_disk env = (\<lambda>_ _. None)" "utf8_world w" "utf8_valid (time_text c)"
  shows "utf8_world (the_world (process_packet env c sz w))"
  using utf8_prepared [OF assms(1,3), of c] utf8_emit [OF assms(1,2)] assms(4) frame_report_valid [of "frame c"]
  by (auto simp: process_packet_report or_panic_def emit_option_def split: option.split)

lemma utf8_capture_loop:
  assumes "utf8_paint env" "json_disk env = (\<lambda>_ _. None)"
  shows "utf8_world w \<Longrightarrow> list_all (\<lambda>c. utf8_valid (time_text c)) cs \<Longrightarrow> utf8_world (the_world (capture_loop env cs w))"
  by (induction cs arbitrary: w) (simp_all add: capture_loop_Cons utf8_process_packet assms)

section \<open>The banner and the status report\<close>

lemma utf8_art: "list_all (\<lambda>c. is_ascii (of_char c)) s \<Longrightarrow> utf8_valid (art s)"
proof (induction s)
  case (Cons c s)
  have "utf8_valid (art_char c)"
    using Cons.prems
    by (auto simp: art_char_def utf8_valid.simps(2) utf8_step_def byte_at_def second_of_3_def is_cont_def is_ascii_def)
  then show ?case using Cons by (simp add: art_def utf8_valid_append)
qed (simp add: art_def)

lemma utf8_banner_text: "utf8_valid banner_text"
proof -
  have nl: "utf8_valid ([10] @ s) \<longleftrightarrow> utf8_valid s" for s by (simp add: is_ascii_def)
  show ?thesis
    unfolding banner_text_def
    by (intro utf8_valid_append_iff utf8_art) (simp_all add: is_ascii_def)
qed

lemma utf8_table_rule: "utf8_valid table_rule"
proof -
  have "utf8_valid [0xE2, 0x94, 0xBC]"
    by (simp add: utf8_valid.simps(2) utf8_step_def byte_at_def second_of_3_def is_cont_def)
  then show ?thesis unfolding table_rule_def Let_def by (intro utf8_valid_append_iff utf8_rule_line)
qed

lemma utf8_print_banner:
  assumes "utf8_paint env" "utf8_valid iface"
  shows "list_all utf8_valid (print_banner env iface)"
proof -
  have paint: "utf8_valid s \<Longrightarrow> utf8_valid (paint env st s)" for st s
    using assms(1) by (simp add: utf8_paint_def)
  have "utf8_valid (replicate n 61)" for n
    by (rule utf8_valid_ascii) (simp add: list_all_iff is_ascii_def)
  then show ?thesis
    by (simp add: print_banner_def Let_def paint utf8_valid_append utf8_valid_pad utf8_banner_text utf8_table_rule
        assms(2) is_ascii_def)
qed

text \<open>The strings of the arguments are strings of Rust.\<close>

definition utf8_args :: "args \<Rightarrow> bool" where
  "utf8_args a \<longleftrightarrow> utf8_valid (interface a) \<and> pred_option utf8_valid (filter_proto a) \<and>
     pred_option utf8_valid (export_pcap a) \<and> pred_option utf8_valid (export_json a)"

lemma utf8_status_report:
  assumes "utf8_paint env" "utf8_args a" "\<And>s. utf8_valid s \<Longrightarrow> utf8_valid (upper s)"
  shows "list_all utf8_valid (status_report env upper a)"
proof -
  have paint: "utf8_valid s \<Longrightarrow> utf8_valid (paint env st s)" for st s
    using assms(1) by (simp add: utf8_paint_def)
  have line: "utf8_valid l \<Longrightarrow> utf8_valid v \<Longrightarrow> list_all utf8_valid (print_status_line env l v)" for l v
    by (simp add: print_status_line_def paint utf8_valid_append utf8_table_rule is_ascii_def)
  have opts: "filter_proto a = Some s \<Longrightarrow> utf8_valid s" "export_pcap a = Some s \<Longrightarrow> utf8_valid s"
    "export_json a = Some s \<Longrightarrow> utf8_valid s" for s
    using assms(2) by (simp_all add: utf8_args_def)
  show ?thesis
    unfolding status_report_def list_all_append
    by (intro conjI)
      (auto simp: line opts paint assms(3) filters_active_def utf8_valid_append utf8_table_rule is_ascii_def
        split: option.split)
qed

lemma utf8_initial_world:
  assumes "utf8_paint env" "utf8_args a" "\<And>s. utf8_valid s \<Longrightarrow> utf8_valid (upper s)"
  shows "utf8_world (initial_world env upper a)"
proof -
  have nl: "list_all utf8_valid ls \<Longrightarrow> utf8_valid (concat (map (\<lambda>l. l @ [10]) ls))" for ls
    by (induction ls) (simp_all add: utf8_valid_append is_ascii_def)
  have "utf8_valid (interface a)" using assms(2) by (simp add: utf8_args_def)
  then have "list_all utf8_valid (print_banner env (interface a) @ status_report env upper a)"
    using utf8_print_banner [OF assms(1)] utf8_status_report [OF assms] by simp
  from nl [OF this] show ?thesis
    by (simp add: utf8_world_def initial_world_def split: option.split)
qed

end
