(* ===== verification/Ring_Socket.thy ===== *)
theory Ring_Socket
  imports Ring_Layout
begin

text \<open>
  The receive path of the TPACKET_V3 ring (\<open>RingSocket\<close> of \<open>netzer-socket/src/socket.rs\<close>, lines
  297 to 467): \<open>recv_block\<close> waits for the kernel to retire the current block, walks the packets in
  it, hands the block back and moves on. A block is the list of its bytes and every access of
  the \<open>unsafe\<close> code is a slice of it, so that an access outside the block is \<open>None\<close>; so is a packet
  header that is dereferenced off its alignment. What the kernel does meanwhile is a parameter: the
  status word at each look, and the result of each \<open>poll\<close>.
\<close>

section \<open>Model\<close>

abbreviation (input) TP_STATUS_USER :: u32 where
  "TP_STATUS_USER \<equiv> 1"

abbreviation (input) TP_STATUS_KERNEL :: u32 where
  "TP_STATUS_KERNEL \<equiv> 0"

definition TPACKET3_HDR_LEN :: nat where
  \<comment> \<open>\<open>size_of::<Tpacket3Hdr>()\<close>\<close>
  "TPACKET3_HDR_LEN = size_of Tpacket3Hdr"

lemma TPACKET3_HDR_LEN_eq: "TPACKET3_HDR_LEN = 40"
  by code_simp

lemma align_of_Tpacket3Hdr [simp]: "align_of Tpacket3Hdr = 4"
  by code_simp

text \<open>The fields of the block descriptor and of a packet header, by their offsets.\<close>

definition read_u32 :: "bool \<Rightarrow> u8 list \<Rightarrow> nat \<Rightarrow> u32 option" where
  "read_u32 big block off = do { b \<leftarrow> rs_slice block off (off + 4); Some (from_ne_bytes big b) }"

definition read_u16 :: "bool \<Rightarrow> u8 list \<Rightarrow> nat \<Rightarrow> u16 option" where
  "read_u16 big block off = do { b \<leftarrow> rs_slice block off (off + 2); Some (from_ne_bytes big b) }"

definition hdr_num_pkts :: "bool \<Rightarrow> u8 list \<Rightarrow> u32 option" where
  "hdr_num_pkts big block = read_u32 big block (offset_of TpacketBlockDesc ''hdr'' + offset_of TpacketBdHeader ''num_pkts'')"

definition hdr_offset_to_first_pkt :: "bool \<Rightarrow> u8 list \<Rightarrow> u32 option" where
  "hdr_offset_to_first_pkt big block = read_u32 big block (offset_of TpacketBlockDesc ''hdr'' + offset_of TpacketBdHeader ''offset_to_first_pkt'')"

definition tp_next_offset :: "bool \<Rightarrow> u8 list \<Rightarrow> nat \<Rightarrow> u32 option" where
  "tp_next_offset big block off = read_u32 big block (off + offset_of Tpacket3Hdr ''tp_next_offset'')"

definition tp_snaplen :: "bool \<Rightarrow> u8 list \<Rightarrow> nat \<Rightarrow> u32 option" where
  "tp_snaplen big block off = read_u32 big block (off + offset_of Tpacket3Hdr ''tp_snaplen'')"

definition tp_mac :: "bool \<Rightarrow> u8 list \<Rightarrow> nat \<Rightarrow> u16 option" where
  "tp_mac big block off = read_u16 big block (off + offset_of Tpacket3Hdr ''tp_mac'')"

lemma block_header_reads:
  "hdr_num_pkts big block = read_u32 big block 12" "hdr_offset_to_first_pkt big block = read_u32 big block 16"
  by (simp_all add: hdr_num_pkts_def hdr_offset_to_first_pkt_def)

text \<open>
  \<open>for _ in 0..num_pkts\<close>, with the frames handed to the callback. The header is read through a
  \<open>*const Tpacket3Hdr\<close>, which must be aligned; blocks begin at a page, so the offset in the block
  decides. Off the alignment the dereference is undefined behaviour, and aborts a debug build: the
  result is \<open>None\<close>, which says nothing of the frames handed out before.
\<close>

fun pkt_loop :: "bool \<Rightarrow> u8 list \<Rightarrow> nat \<Rightarrow> nat \<Rightarrow> u8 list list option" where
  "pkt_loop big block 0 pkt_offset = Some []"
| "pkt_loop big block (Suc n) pkt_offset =
    (if BLOCK_SIZE < pkt_offset + TPACKET3_HDR_LEN then Some []
     else if pkt_offset mod align_of Tpacket3Hdr \<noteq> 0 then None
     else do {
       snaplen \<leftarrow> map_option unat (tp_snaplen big block pkt_offset);
       mac_offset \<leftarrow> map_option unat (tp_mac big block pkt_offset);
       frames \<leftarrow>
         (if pkt_offset + mac_offset + snaplen \<le> BLOCK_SIZE \<and> 0 < snaplen
          then do {
            frame_data \<leftarrow> rs_slice block (pkt_offset + mac_offset) (pkt_offset + mac_offset + snaplen);
            Some [frame_data]
          }
          else Some []);
       next \<leftarrow> map_option unat (tp_next_offset big block pkt_offset);
       rest \<leftarrow> (if next = 0 then Some [] else pkt_loop big block n (pkt_offset + next));
       Some (frames @ rest)
     })"

text \<open>
  The waiting loop: looks at the status word, polls, looks again. It may never end; the result is
  the number of looks, or \<open>Inl\<close> when a poll fails.
\<close>

partial_function (option) wait_block :: "(nat \<Rightarrow> u32) \<Rightarrow> (nat \<Rightarrow> int) \<Rightarrow> nat \<Rightarrow> (int + nat) option" where
  "wait_block status poll n =
    (if status n AND TP_STATUS_USER \<noteq> 0 then Some (Inr n)
     else if poll n < 0 then Some (Inl (poll n))
     else wait_block status poll (n + 1))"

record RingSocket =
  ring_blocks :: "u8 list list"
  current_block :: nat

text \<open>Writing the status word of a block.\<close>

definition write_status :: "bool \<Rightarrow> u32 \<Rightarrow> u8 list \<Rightarrow> u8 list" where
  "write_status big v block =
    (let at = offset_of TpacketBlockDesc ''hdr'' + offset_of TpacketBdHeader ''block_status'' in
     take at block @ to_ne_bytes big v @ drop (at + 4) block)"

text \<open>
  \<open>recv_block\<close>: \<open>filled\<close> is the content of the current block once the kernel has retired it. The
  outer option is not returning, the inner one a memory access that Rust leaves undefined, outside
  the block or at a header off its alignment; \<open>Inl\<close> is the error.
\<close>

definition recv_block ::
  "bool \<Rightarrow> (nat \<Rightarrow> u32) \<Rightarrow> (nat \<Rightarrow> int) \<Rightarrow> u8 list \<Rightarrow> RingSocket \<Rightarrow>
    (RingSocket \<times> (int + u8 list list)) option option" where
  "recv_block big status poll filled s = do {
     w \<leftarrow> wait_block status poll 0;
     Some (case w of
       Inl e \<Rightarrow> Some (s, Inl e)
     | Inr _ \<Rightarrow> do {
         num_pkts \<leftarrow> hdr_num_pkts big filled;
         first \<leftarrow> hdr_offset_to_first_pkt big filled;
         frames \<leftarrow> pkt_loop big filled (unat num_pkts) (unat first);
         Some (s\<lparr>ring_blocks := (ring_blocks s)[current_block s := write_status big TP_STATUS_KERNEL filled],
                 current_block := (current_block s + 1) mod BLOCK_NR\<rparr>, Inr frames)
       })
   }"

section \<open>Waiting\<close>

lemma wait_block_stop:
  assumes "status n AND TP_STATUS_USER \<noteq> 0 \<or> poll n < 0"
    and "\<And>i. m \<le> i \<Longrightarrow> i < n \<Longrightarrow> status i AND TP_STATUS_USER = 0 \<and> 0 \<le> poll i" and "m \<le> n"
  shows "wait_block status poll m = Some (if status n AND TP_STATUS_USER \<noteq> 0 then Inr n else Inl (poll n))"
  using assms(3,2)
proof (induction m rule: inc_induct)
  case base
  then show ?case using assms(1) by (auto simp: wait_block.simps [of status poll n])
next
  case (step m)
  then have "\<not> (status m AND TP_STATUS_USER \<noteq> 0)" "\<not> poll m < 0" by force+
  then show ?case using step by (simp add: wait_block.simps [of status poll m])
qed

definition retired_or_failed :: "(nat \<Rightarrow> u32) \<Rightarrow> (nat \<Rightarrow> int) \<Rightarrow> nat \<Rightarrow> bool" where
  "retired_or_failed status poll i \<longleftrightarrow> status i AND TP_STATUS_USER \<noteq> 0 \<or> poll i < 0"

lemma wait_block_Some:
  assumes "wait_block status poll m = Some r"
  shows "\<exists>i \<ge> m. retired_or_failed status poll i"
proof (rule wait_block.raw_induct [of "\<lambda>status poll m r. \<exists>i \<ge> m. retired_or_failed status poll i", OF _ assms])
  fix f status poll m r
  assume IH: "\<And>status poll m r. f status poll m = Some r \<Longrightarrow> \<exists>i \<ge> m. retired_or_failed status poll i"
    and eq: "(if status m AND TP_STATUS_USER \<noteq> 0 then Some (Inr m) else if poll m < 0 then Some (Inl (poll m))
      else f status poll (m + 1)) = Some r"
  show "\<exists>i \<ge> m. retired_or_failed status poll i"
  proof (cases "retired_or_failed status poll m")
    case False
    then have "f status poll (m + 1) = Some r" using eq by (simp add: retired_or_failed_def split: if_splits)
    from IH [OF this] show ?thesis by (auto dest: Suc_leD)
  qed auto
qed

lemma wait_block_failed:
  assumes "wait_block status poll m = Some (Inl e)"
  shows "e < 0"
proof -
  have "\<forall>e'. (Inl e :: int + nat) = Inl e' \<longrightarrow> e' < 0"
    by (rule wait_block.raw_induct [of "\<lambda>status poll m r. \<forall>e'. r = Inl e' \<longrightarrow> e' < 0", OF _ assms])
      (auto split: if_splits)
  then show ?thesis by simp
qed

lemma wait_block_returns_iff:
  "wait_block status poll 0 \<noteq> None \<longleftrightarrow> (\<exists>i. retired_or_failed status poll i)"
proof
  assume "wait_block status poll 0 \<noteq> None"
  then show "\<exists>i. retired_or_failed status poll i" using wait_block_Some by blast
next
  assume ex: "\<exists>i. retired_or_failed status poll i"
  define n where "n = (LEAST i. retired_or_failed status poll i)"
  have "retired_or_failed status poll n" unfolding n_def using ex by (rule LeastI_ex)
  moreover have "\<not> retired_or_failed status poll i" if "i < n" for i
    using that not_less_Least unfolding n_def by blast
  ultimately show "wait_block status poll 0 \<noteq> None"
    using wait_block_stop [of status n poll 0] by (simp add: retired_or_failed_def not_less)
qed

section \<open>Every access is inside the block\<close>

lemma read_u32_Some: "off + 4 \<le> length block \<Longrightarrow> read_u32 big block off = Some (from_ne_bytes big (take 4 (drop off block)))"
  by (simp add: read_u32_def rs_slice_def)

lemma read_u16_Some: "off + 2 \<le> length block \<Longrightarrow> read_u16 big block off = Some (from_ne_bytes big (take 2 (drop off block)))"
  by (simp add: read_u16_def rs_slice_def)

text \<open>
  The headers that a chain of descriptors leads to, by their offsets, at most \<open>n\<close> of them and only
  while a header fits in the block; and the frame that the header at an offset describes, if its
  data lie in the block.
\<close>

fun header_walk :: "bool \<Rightarrow> u8 list \<Rightarrow> nat \<Rightarrow> nat \<Rightarrow> nat list" where
  "header_walk big block 0 off = []"
| "header_walk big block (Suc n) off =
    (let step = unat (from_ne_bytes big (take 4 (drop off block)) :: u32)
     in if off + 40 \<le> BLOCK_SIZE then off # (if 0 < step then header_walk big block n (off + step) else []) else [])"

definition frames_at :: "bool \<Rightarrow> u8 list \<Rightarrow> nat \<Rightarrow> u8 list list" where
  "frames_at big block off =
    (let len = unat (from_ne_bytes big (take 4 (drop (off + 12) block)) :: u32);
         start = off + unat (from_ne_bytes big (take 2 (drop (off + 24) block)) :: u16)
     in if 0 < len \<and> start + len \<le> BLOCK_SIZE then [take len (drop start block)] else [])"

lemma pkt_loop_walk:
  assumes "length block = BLOCK_SIZE"
  shows "pkt_loop big block n off =
    (if list_all (\<lambda>at. at mod 4 = 0) (header_walk big block n off)
     then Some (concat (map (frames_at big block) (header_walk big block n off))) else None)"
proof (induction n arbitrary: off)
  case (Suc n)
  show ?case
  proof (cases "off + 40 \<le> BLOCK_SIZE \<and> off mod 4 = 0")
    case True
    then have room: "off + 40 \<le> length block" using assms by simp
    define sl where "sl = unat (from_ne_bytes big (take 4 (drop (off + 12) block)) :: u32)"
    define mo where "mo = unat (from_ne_bytes big (take 2 (drop (off + 24) block)) :: u16)"
    define nx where "nx = unat (from_ne_bytes big (take 4 (drop off block)) :: u32)"
    have reads: "tp_snaplen big block off = Some (from_ne_bytes big (take 4 (drop (off + 12) block)))"
      "tp_mac big block off = Some (from_ne_bytes big (take 2 (drop (off + 24) block)))"
      "tp_next_offset big block off = Some (from_ne_bytes big (take 4 (drop off block)))"
      using room by (simp_all add: tp_snaplen_def tp_mac_def tp_next_offset_def read_u32_Some read_u16_Some)
    have frame: "frames_at big block off =
        (if off + mo + sl \<le> BLOCK_SIZE \<and> 0 < sl then [take sl (drop (off + mo) block)] else [])"
      by (auto simp: frames_at_def Let_def sl_def mo_def)
    have walk: "header_walk big block (Suc n) off = off # (if 0 < nx then header_walk big block n (off + nx) else [])"
      using True by (simp add: nx_def)
    show ?thesis
      using True assms Suc.IH [of "off + nx"]
      by (simp add: reads sl_def [symmetric] mo_def [symmetric] nx_def [symmetric] walk frame rs_slice_def
          TPACKET3_HDR_LEN_eq del: header_walk.simps)
  qed (auto simp: TPACKET3_HDR_LEN_eq Let_def)
qed simp

lemma length_header_walk: "length (header_walk big block n off) \<le> n"
  by (induction n arbitrary: off) (simp_all add: Let_def)

lemma header_walk_range: "at \<in> set (header_walk big block n off) \<Longrightarrow> at + 40 \<le> BLOCK_SIZE"
  by (induction n arbitrary: off) (auto simp: Let_def split: if_splits)

lemma length_frames_at: "length (concat (map (frames_at big block) offs)) \<le> length offs"
  by (induction offs) (simp_all add: frames_at_def Let_def)

lemma frames_at_piece:
  "length block = BLOCK_SIZE \<Longrightarrow> f \<in> set (frames_at big block off) \<Longrightarrow>
    f \<noteq> [] \<and> (\<exists>i. i + length f \<le> BLOCK_SIZE \<and> f = take (length f) (drop i block))"
  by (auto simp: frames_at_def Let_def split: if_splits)

section \<open>Specification: how the kernel fills a block\<close>

text \<open>
  A packet in a block: its header (next offset, time stamp, captured length, length, status, and
  the offsets of the link and network layers), a gap up to the link layer that begins with the
  rest of the header, the data, and padding. Every field that the kernel fills in is there, with
  any value; what it promises is that a header is followed by the link layer, that a frame is not
  empty, and that the next header is aligned.
\<close>

record ring_pkt =
  pk_sec :: u32
  pk_nsec :: u32
  pk_len :: u32
  pk_status :: u32
  pk_net :: u16
  pk_gap :: "u8 list"
  pk_data :: "u8 list"
  pk_pad :: "u8 list"

definition pk_mac :: "ring_pkt \<Rightarrow> nat" where
  "pk_mac p = 28 + length (pk_gap p)"

definition pkt_size :: "ring_pkt \<Rightarrow> nat" where
  "pkt_size p = pk_mac p + length (pk_data p) + length (pk_pad p)"

definition wf_pkt :: "ring_pkt \<Rightarrow> bool" where
  "wf_pkt p \<longleftrightarrow> 40 \<le> pk_mac p \<and> pk_mac p < 2 ^ 16 \<and> pk_data p \<noteq> [] \<and> pkt_size p mod 4 = 0"

definition enc_pkt :: "bool \<Rightarrow> u32 \<Rightarrow> ring_pkt \<Rightarrow> u8 list" where
  "enc_pkt big step p = to_ne_bytes big step @ to_ne_bytes big (pk_sec p) @ to_ne_bytes big (pk_nsec p) @
     to_ne_bytes big (of_nat (length (pk_data p)) :: u32) @ to_ne_bytes big (pk_len p) @
     to_ne_bytes big (pk_status p) @ to_ne_bytes big (of_nat (pk_mac p) :: u16) @
     to_ne_bytes big (pk_net p) @ pk_gap p @ pk_data p @ pk_pad p"

text \<open>A block: its descriptor, a private area, the packets, and what is left of an earlier use.\<close>

record ring_block =
  bk_version :: u32
  bk_priv_at :: u32
  bk_status :: u32
  bk_len :: u32
  bk_seq :: u64
  bk_times :: "u8 list"
  bk_priv :: "u8 list"
  bk_pkts :: "ring_pkt list"
  bk_last_step :: u32
  bk_rest :: "u8 list"

fun enc_pkts :: "bool \<Rightarrow> u32 \<Rightarrow> ring_pkt list \<Rightarrow> u8 list" where
  "enc_pkts big last_step [] = []"
| "enc_pkts big last_step (p # ps) =
    enc_pkt big (if ps = [] then last_step else of_nat (pkt_size p)) p @ enc_pkts big last_step ps"

definition first_at :: "ring_block \<Rightarrow> nat" where
  "first_at b = 32 + length (bk_times b) + length (bk_priv b)"

definition enc_desc :: "bool \<Rightarrow> ring_block \<Rightarrow> u8 list" where
  "enc_desc big b = to_ne_bytes big (bk_version b) @ to_ne_bytes big (bk_priv_at b) @
     to_ne_bytes big (bk_status b) @ to_ne_bytes big (of_nat (length (bk_pkts b)) :: u32) @
     to_ne_bytes big (of_nat (first_at b) :: u32) @ to_ne_bytes big (bk_len b) @
     to_ne_bytes big (bk_seq b) @ bk_times b @ bk_priv b"

definition enc_block :: "bool \<Rightarrow> ring_block \<Rightarrow> u8 list" where
  "enc_block big b = enc_desc big b @ enc_pkts big (bk_last_step b) (bk_pkts b) @ bk_rest b"

definition wf_block :: "bool \<Rightarrow> ring_block \<Rightarrow> bool" where
  "wf_block big b \<longleftrightarrow> length (enc_block big b) = BLOCK_SIZE \<and> length (bk_times b) = 16 \<and>
     length (bk_priv b) mod 4 = 0 \<and> list_all wf_pkt (bk_pkts b) \<and> bk_status b AND TP_STATUS_USER \<noteq> 0"

text \<open>
  The kernel retires the block at look \<open>i\<close>: the status word seen there is the one in the block.
  Until then the polls may time out or wake up as they like, but do not fail.
\<close>

definition retires_at :: "(nat \<Rightarrow> u32) \<Rightarrow> (nat \<Rightarrow> int) \<Rightarrow> ring_block \<Rightarrow> nat \<Rightarrow> bool" where
  "retires_at status poll b i \<longleftrightarrow> status i = bk_status b \<and> (\<forall>j < i. 0 \<le> poll j)"

lemma length_enc_pkt: "length (enc_pkt big step p) = pkt_size p"
  by (simp add: enc_pkt_def pkt_size_def pk_mac_def)

lemma length_enc_desc: "length (enc_desc big b) = first_at b"
  by (simp add: enc_desc_def first_at_def)

lemma pkt_loop_enc:
  assumes "list_all wf_pkt ps" "length (pre @ enc_pkts big z ps @ post) = BLOCK_SIZE" "length pre mod 4 = 0"
  shows "pkt_loop big (pre @ enc_pkts big z ps @ post) (length ps) (length pre) = Some (map pk_data ps)"
  using assms
proof (induction ps arbitrary: pre)
  case (Cons p ps)
  define nxt where "nxt = (if ps = [] then z else of_nat (pkt_size p))"
  define hdr where "hdr = enc_pkt big nxt p"
  define block where "block = pre @ enc_pkts big z (p # ps) @ post"
  have wf: "40 \<le> pk_mac p" "pk_mac p < 65536" "pk_data p \<noteq> []" "pkt_size p mod 4 = 0"
    using Cons.prems(1) by (simp_all add: wf_pkt_def)
  have unfold_pkts: "enc_pkts big z (p # ps) = hdr @ enc_pkts big z ps"
    by (simp only: enc_pkts.simps hdr_def nxt_def)
  have block: "block = pre @ hdr @ enc_pkts big z ps @ post" by (simp add: block_def unfold_pkts del: enc_pkts.simps)
  have hdr: "length hdr = pkt_size p" by (simp add: hdr_def length_enc_pkt)
  have size: "length pre + pkt_size p \<le> BLOCK_SIZE" "length block = BLOCK_SIZE"
    using Cons.prems(2) hdr unfolding unfold_pkts by (simp_all add: block)
  have small: "pkt_size p < 2 ^ 32" "length (pk_data p) < 2 ^ 32" "pk_mac p + length (pk_data p) \<le> pkt_size p"
    using size(1) by (simp_all add: BLOCK_SIZE_def pkt_size_def)
  have words: "unat (of_nat (length (pk_data p)) :: u32) = length (pk_data p)" "unat (of_nat (pk_mac p) :: u16) = pk_mac p"
    "unat (of_nat (pkt_size p) :: u32) = pkt_size p"
    using small wf by (simp_all add: unat_of_nat)
  have parts: "drop (length pre) block = hdr @ enc_pkts big z ps @ post"
    "drop (length pre + 12) block = drop 12 (hdr @ enc_pkts big z ps @ post)"
    "drop (length pre + 24) block = drop 24 (hdr @ enc_pkts big z ps @ post)"
    by (simp_all add: block)
  have room: "length pre + 40 \<le> length block"
    using size wf small(3) by simp
  have reads: "map_option unat (tp_next_offset big block (length pre)) = Some (unat nxt)"
    "map_option unat (tp_snaplen big block (length pre)) = Some (length (pk_data p))"
    "map_option unat (tp_mac big block (length pre)) = Some (pk_mac p)"
    using room
    by (simp_all add: tp_next_offset_def tp_snaplen_def tp_mac_def read_u32_Some read_u16_Some parts words)
      (simp_all add: hdr_def enc_pkt_def words)
  have frame: "rs_slice block (length pre + pk_mac p) (length pre + pk_mac p + length (pk_data p)) = Some (pk_data p)"
  proof -
    have "drop (pk_mac p) hdr = pk_data p @ pk_pad p" by (simp add: hdr_def enc_pkt_def pk_mac_def)
    then have "drop (length pre + pk_mac p) block = pk_data p @ pk_pad p @ enc_pkts big z ps @ post"
      using hdr small(3) by (simp add: block)
    then show ?thesis using size small(3) by (simp add: rs_slice_def)
  qed
  have rest: "(if unat nxt = 0 then Some [] else pkt_loop big block (length ps) (length pre + unat nxt)) = Some (map pk_data ps)"
  proof (cases "ps = []")
    case False
    then have "unat nxt = pkt_size p" "0 < pkt_size p"
      using wf words(3) small(3) by (simp_all add: nxt_def)
    moreover have "pkt_loop big ((pre @ hdr) @ enc_pkts big z ps @ post) (length ps) (length (pre @ hdr)) = Some (map pk_data ps)"
      using Cons.prems hdr wf(4) unfolding unfold_pkts by (intro Cons.IH) (simp_all add: mod_add_eq [symmetric])
    ultimately show ?thesis using hdr by (simp add: block)
  qed simp
  have "length pre + pk_mac p + length (pk_data p) \<le> BLOCK_SIZE" "\<not> BLOCK_SIZE < length pre + TPACKET3_HDR_LEN"
    using size small(3) room by (simp_all add: TPACKET3_HDR_LEN_eq)
  then show ?case
    unfolding block_def [symmetric] using wf(3) Cons.prems(3)
    by (simp add: reads frame rest)
qed simp

lemma wf_pkts_fewer: "list_all wf_pkt ps \<Longrightarrow> 40 * length ps \<le> length (enc_pkts big z ps)"
proof (induction ps)
  case (Cons p ps)
  then show ?case by (simp add: length_enc_pkt wf_pkt_def pkt_size_def)
qed simp

lemma enc_block_fields:
  assumes "wf_block big b"
  shows "map_option unat (hdr_num_pkts big (enc_block big b)) = Some (length (bk_pkts b))"
    "map_option unat (hdr_offset_to_first_pkt big (enc_block big b)) = Some (first_at b)"
proof -
  have size: "length (enc_block big b) = BLOCK_SIZE" using assms by (simp add: wf_block_def)
  then have len: "12 + 4 \<le> length (enc_block big b)" "16 + 4 \<le> length (enc_block big b)"
    by (simp_all add: BLOCK_SIZE_def)
  have "first_at b + length (enc_pkts big (bk_last_step b) (bk_pkts b)) \<le> BLOCK_SIZE"
    using size by (simp add: enc_block_def length_enc_desc)
  moreover have "40 * length (bk_pkts b) \<le> length (enc_pkts big (bk_last_step b) (bk_pkts b))"
    using assms by (simp add: wf_block_def wf_pkts_fewer)
  ultimately have "length (bk_pkts b) < 2 ^ 32" "first_at b < 2 ^ 32" by (simp_all add: BLOCK_SIZE_def)
  then have n: "unat (of_nat (length (bk_pkts b)) :: u32) = length (bk_pkts b)" "unat (of_nat (first_at b) :: u32) = first_at b"
    by (simp_all add: unat_of_nat)
  show "map_option unat (hdr_num_pkts big (enc_block big b)) = Some (length (bk_pkts b))"
    unfolding block_header_reads read_u32_Some [OF len(1)] by (simp add: enc_block_def enc_desc_def n)
  show "map_option unat (hdr_offset_to_first_pkt big (enc_block big b)) = Some (first_at b)"
    unfolding block_header_reads read_u32_Some [OF len(2)] by (simp add: enc_block_def enc_desc_def n)
qed

lemma wait_block_retires:
  assumes "status i AND TP_STATUS_USER \<noteq> 0" "\<forall>j < i. 0 \<le> poll j"
  shows "\<exists>n. wait_block status poll 0 = Some (Inr n)"
proof -
  define n where "n = (LEAST n. status n AND TP_STATUS_USER \<noteq> 0)"
  have "status n AND TP_STATUS_USER \<noteq> 0" "n \<le> i"
    using LeastI [of "\<lambda>n. status n AND TP_STATUS_USER \<noteq> 0", OF assms(1)]
      Least_le [of "\<lambda>n. status n AND TP_STATUS_USER \<noteq> 0", OF assms(1)] by (simp_all add: n_def)
  moreover have "status j AND TP_STATUS_USER = 0" if "j < n" for j
    using that not_less_Least unfolding n_def by blast
  ultimately have "wait_block status poll 0 = Some (Inr n)"
    using wait_block_stop [of status n poll 0] assms(2) by simp
  then show ?thesis by blast
qed

lemma recv_block_enc:
  assumes "wf_block big b" "retires_at status poll b i"
  shows "recv_block big status poll (enc_block big b) s = Some (Some
    (s\<lparr>ring_blocks := (ring_blocks s)[current_block s := write_status big TP_STATUS_KERNEL (enc_block big b)],
       current_block := (current_block s + 1) mod BLOCK_NR\<rparr>, Inr (map pk_data (bk_pkts b))))"
proof -
  obtain n where wait: "wait_block status poll 0 = Some (Inr n)"
    using assms wait_block_retires [of status i poll] by (auto simp: wf_block_def retires_at_def)
  obtain num first where fields: "hdr_num_pkts big (enc_block big b) = Some num" "unat num = length (bk_pkts b)"
    "hdr_offset_to_first_pkt big (enc_block big b) = Some first" "unat first = first_at b"
    using enc_block_fields [OF assms(1)] by auto
  have "first_at b mod 4 = 0"
    using assms(1) by (simp add: wf_block_def first_at_def mod_add_eq [symmetric])
  then have "pkt_loop big (enc_block big b) (length (bk_pkts b)) (first_at b) = Some (map pk_data (bk_pkts b))"
    using assms(1) pkt_loop_enc [of "bk_pkts b" "enc_desc big b" big "bk_last_step b" "bk_rest b"]
    by (simp add: wf_block_def enc_block_def length_enc_desc)
  then show ?thesis by (simp add: recv_block_def wait fields)
qed

text \<open>
  A block to run the loop on, as the kernel fills it: the link layer of a packet is 82 bytes behind
  its header, and every field is in use.
\<close>

definition sample_block :: "ring_pkt list \<Rightarrow> ring_block" where
  "sample_block ps = \<lparr>bk_version = 1, bk_priv_at = 48, bk_status = 1, bk_len = 240, bk_seq = 7,
     bk_times = replicate 16 9, bk_priv = [], bk_pkts = ps, bk_last_step = 0,
     bk_rest = replicate (BLOCK_SIZE - (48 + length (enc_pkts False 0 ps))) 5\<rparr>"

definition sample_pkts :: "ring_pkt list" where
  "sample_pkts =
    [\<lparr>pk_sec = 1, pk_nsec = 2, pk_len = 60, pk_status = 1, pk_net = 96, pk_gap = replicate 54 3,
      pk_data = [1, 2, 3], pk_pad = [0, 0, 0]\<rparr>,
     \<lparr>pk_sec = 1, pk_nsec = 3, pk_len = 1, pk_status = 17, pk_net = 96, pk_gap = replicate 54 4,
      pk_data = [4], pk_pad = [0, 0, 0, 0, 0]\<rparr>]"

lemma sample_block_wf: "wf_block False (sample_block sample_pkts)"
  by (simp add: wf_block_def sample_block_def sample_pkts_def enc_block_def enc_desc_def enc_pkt_def
      wf_pkt_def pkt_size_def pk_mac_def BLOCK_SIZE_def)

section \<open>Properties\<close>

text \<open>
  C35: \<open>recv_block\<close> returns exactly when the kernel retires the block at some look or a poll
  fails; with a kernel that does neither it waits for ever.
\<close>

theorem recv_block_returns_iff:
  "recv_block big status poll filled s \<noteq> None \<longleftrightarrow>
    (\<exists>i. \<not> (status i AND TP_STATUS_USER = 0 \<and> 0 \<le> poll i))"
  using wait_block_returns_iff [of status poll]
  by (auto simp: recv_block_def retired_or_failed_def not_le split: bind_splits)

text \<open>
  C12: exactly what the walk over a block does, whatever bytes are in it. Unless a poll fails, which
  leaves the ring as it was, the loop follows the chain of headers from the descriptor. If all the
  headers it comes to are aligned, every access is inside the block, and it hands out the frames
  that they describe, no more than the descriptor says, each a non-empty piece of the block; then
  the block's status is the kernel's again and the cursor is on the next block. If the bytes lead
  it to a header off its alignment, which the code does not check, what it does is undefined.
\<close>

theorem recv_block_safe:
  assumes "length filled = BLOCK_SIZE" and "recv_block big status poll filled s = Some r"
  shows "(\<exists>e < 0. r = Some (s, Inl e)) \<or>
    (let num = unat (from_ne_bytes big (take 4 (drop 12 filled)) :: u32);
         first = unat (from_ne_bytes big (take 4 (drop 16 filled)) :: u32);
         offs = header_walk big filled num first
     in if list_all (\<lambda>at. at mod 4 = 0) offs
        then let frames = concat (map (frames_at big filled) offs) in length frames \<le> num \<and>
          r = Some (s\<lparr>ring_blocks := (ring_blocks s)[current_block s := write_status big TP_STATUS_KERNEL filled],
            current_block := (current_block s + 1) mod 8\<rparr>, Inr frames) \<and>
          (\<forall>f \<in> set frames. f \<noteq> [] \<and> (\<exists>i. i + length f \<le> BLOCK_SIZE \<and> f = take (length f) (drop i filled)))
        else r = None)"
proof -
  define num where "num = unat (from_ne_bytes big (take 4 (drop 12 filled)) :: u32)"
  define offs where "offs = header_walk big filled num (unat (from_ne_bytes big (take 4 (drop 16 filled)) :: u32))"
  obtain x where x: "wait_block status poll 0 = Some x" and r: "Some r = recv_block big status poll filled s"
    using assms(2) by (cases "wait_block status poll 0") (auto simp: recv_block_def)
  have reads: "hdr_num_pkts big filled = Some (from_ne_bytes big (take 4 (drop 12 filled)))"
    "hdr_offset_to_first_pkt big filled = Some (from_ne_bytes big (take 4 (drop 16 filled)))"
    using assms(1) by (simp_all add: block_header_reads read_u32_Some BLOCK_SIZE_def)
  have count: "length (concat (map (frames_at big filled) offs)) \<le> num"
    unfolding offs_def using length_frames_at length_header_walk by (rule order_trans)
  have pieces: "\<forall>f \<in> set (concat (map (frames_at big filled) offs)).
      f \<noteq> [] \<and> (\<exists>i. i + length f \<le> BLOCK_SIZE \<and> f = take (length f) (drop i filled))"
    using frames_at_piece [OF assms(1)] by auto
  show ?thesis
  proof (cases x)
    case (Inl e)
    then show ?thesis using r wait_block_failed [OF x [unfolded Inl]] by (simp add: recv_block_def x)
  next
    case (Inr n)
    then show ?thesis
      using r count pieces
      by (simp add: recv_block_def x reads BLOCK_NR_def pkt_loop_walk [OF assms(1)] num_def [symmetric]
          offs_def [symmetric] Let_def split: if_splits)
  qed
qed

text \<open>The walk may end well, or be led to a header at offset 49 by the descriptor of one packet.\<close>

theorem recv_block_safe_witness:
  "(\<exists>s'. recv_block False (\<lambda>_. 1) (\<lambda>_. 0) (replicate BLOCK_SIZE 0) \<lparr>ring_blocks = [], current_block = 7\<rparr> =
      Some (Some (s', Inr [])) \<and> current_block s' = 0) \<and>
    recv_block False (\<lambda>_. 1) (\<lambda>_. 0) (replicate 12 0 @ [1, 0, 0, 0, 49, 0, 0, 0] @ replicate (BLOCK_SIZE - 20) 0)
      \<lparr>ring_blocks = [], current_block = 7\<rparr> = Some None"
proof -
  let ?s = "\<lparr>ring_blocks = [], current_block = 7\<rparr>"
  define zero odd :: "u8 list" where "zero = replicate BLOCK_SIZE 0"
    and "odd = replicate 12 0 @ [1, 0, 0, 0, 49, 0, 0, 0] @ replicate (BLOCK_SIZE - 20) 0"
  have returns: "\<exists>r. recv_block False (\<lambda>_. 1) (\<lambda>_. 0) filled ?s = Some r \<and> (\<forall>s e. r \<noteq> Some (s, Inl e))" for filled
    by (simp add: recv_block_def wait_block.simps split: option.split bind_splits)
  have len: "length zero = BLOCK_SIZE" "length odd = BLOCK_SIZE" by (simp_all add: zero_def odd_def BLOCK_SIZE_def)
  have "take 4 (drop 12 zero) = replicate 4 0" by (simp add: zero_def BLOCK_SIZE_def)
  then have no_pkts: "from_ne_bytes False (take 4 (drop 12 zero)) = (0 :: u32)"
    by (simp add: from_ne_bytes_def from_le_bytes_def from_be_bytes_def eval_nat_numeral)
  have one_pkt: "from_ne_bytes False (take 4 (drop 12 odd)) = (1 :: u32)" "from_ne_bytes False (take 4 (drop 16 odd)) = (49 :: u32)"
    by (simp_all add: odd_def from_ne_bytes_def from_le_bytes_def from_be_bytes_def)
  obtain r1 where r1: "recv_block False (\<lambda>_. 1) (\<lambda>_. 0) zero ?s = Some r1" "\<forall>s e. r1 \<noteq> Some (s, Inl e)"
    using returns by blast
  obtain r2 where r2: "recv_block False (\<lambda>_. 1) (\<lambda>_. 0) odd ?s = Some r2" "\<forall>s e. r2 \<noteq> Some (s, Inl e)"
    using returns by blast
  have "r2 = None"
    using recv_block_safe [OF len(2) r2(1)] r2(2) unfolding one_pkt by (simp add: Let_def BLOCK_SIZE_def)
  moreover have "\<exists>s'. r1 = Some (s', Inr []) \<and> current_block s' = 0"
    using recv_block_safe [OF len(1) r1(1)] r1(2) unfolding no_pkts by auto
  ultimately show ?thesis using r1(1) r2(1) unfolding zero_def odd_def by blast
qed

text \<open>
  C13: on a block that the kernel filled with packets and retired at any look, \<open>recv_block\<close> hands
  out the data of all of them, in order, in either byte order: with any time stamps, lengths, status
  bits and other fields in the headers and the descriptor, any gaps and padding that keep the
  headers aligned, and any bytes behind the last packet. Then it gives the block back and
  moves on to the next.
\<close>

theorem recv_block_delivers:
  assumes "wf_block big b" "retires_at status poll b i"
  shows "recv_block big status poll (enc_block big b) s = Some (Some
    (s\<lparr>ring_blocks := (ring_blocks s)[current_block s := write_status big 0 (enc_block big b)],
       current_block := (current_block s + 1) mod 8\<rparr>, Inr (map pk_data (bk_pkts b))))"
  using recv_block_enc [where status = status, OF assms] by (simp add: BLOCK_NR_def)

theorem recv_block_delivers_witness:
  "\<exists>s'. recv_block False (\<lambda>i. if i < 2 then 0 else 1) (\<lambda>_. 0) (enc_block False (sample_block sample_pkts))
      \<lparr>ring_blocks = [], current_block = 0\<rparr> = Some (Some (s', Inr [[1, 2, 3], [4]])) \<and> current_block s' = 1"
proof -
  have "retires_at (\<lambda>i. if i < 2 then 0 else 1) (\<lambda>_. 0) (sample_block sample_pkts) 2"
    by (simp add: retires_at_def sample_block_def)
  from recv_block_delivers [OF sample_block_wf this, of "\<lparr>ring_blocks = [], current_block = 0\<rparr>"]
  show ?thesis by (simp add: sample_block_def sample_pkts_def)
qed

end
