(* ===== verification/Ring_Capture.thy ===== *)
theory Ring_Capture
  imports Program Ring_Socket
begin

text \<open>
  The capture loop of the ring mode down to the bytes of the shared memory (\<open>main\<close>, lines 762 to
  777 of \<open>netzer-cli/src/main.rs\<close>, over \<open>RingSocket::recv_block\<close>): in each turn the kernel fills
  the current block, \<open>recv_block\<close> walks it and calls \<open>process_packet\<close> for every frame.
\<close>

section \<open>Model\<close>

text \<open>
  One turn: what the waiting loop sees, the bytes of the block when the kernel has retired it, and
  the clock when each of its frames is processed.
\<close>

record turn =
  status_word :: "nat \<Rightarrow> u32"
  poll_result :: "nat \<Rightarrow> int"
  block_bytes :: "u8 list"
  clock :: "nat \<Rightarrow> (u64 \<times> u32) option \<times> rstr"

definition stamped :: "(nat \<Rightarrow> (u64 \<times> u32) option \<times> rstr) \<Rightarrow> u8 list list \<Rightarrow> capture list" where
  "stamped clk frames =
    map (\<lambda>(i, f). \<lparr>now = fst (clk i), time_text = snd (clk i), frame = f\<rparr>) (enumerate 0 frames)"

text \<open>
  The loop over the turns. As for \<open>recv_block\<close>, the outer option is not returning and the inner
  one an access outside a block or off the alignment of a header.
\<close>

fun ring_capture :: "env \<Rightarrow> turn list \<Rightarrow> RingSocket \<Rightarrow> world \<Rightarrow> (RingSocket \<times> outcome) option option" where
  "ring_capture env [] s w = Some (Some (s, Done w))"
| "ring_capture env (t # ts) s w =
    (case recv_block (big_endian env) (status_word t) (poll_result t) (block_bytes t) s of
       None \<Rightarrow> None
     | Some None \<Rightarrow> Some None
     | Some (Some (s', Inl e)) \<Rightarrow> ring_capture env ts s' w
     | Some (Some (s', Inr frames)) \<Rightarrow>
         (case block_loop env (stamped (clock t) frames) w of
            Done w' \<Rightarrow> ring_capture env ts s' w'
          | Panicked w' \<Rightarrow> Some (Some (s, Panicked w'))))"

section \<open>The ring delivers what the kernel put in it\<close>

text \<open>
  In this turn the kernel fills the block as the specification of \<open>Ring_Socket\<close> says, and retires it
  at some look.
\<close>

definition turn_holds :: "bool \<Rightarrow> turn \<Rightarrow> ring_block \<Rightarrow> bool" where
  "turn_holds big t b \<longleftrightarrow> wf_block big b \<and> block_bytes t = enc_block big b \<and>
     (\<exists>i. retires_at (status_word t) (poll_result t) b i)"

definition turn_captures :: "turn \<times> ring_block \<Rightarrow> capture list" where
  "turn_captures x = stamped (clock (fst x)) (map pk_data (bk_pkts (snd x)))"

lemma ring_capture_eq:
  assumes "list_all (\<lambda>(t, b). turn_holds (big_endian env) t b) xs"
  shows "\<exists>s'. ring_capture env (map fst xs) s w = Some (Some (s', capture_loop env (concat (map turn_captures xs)) w)) \<and>
    (\<not> panicked (capture_loop env (concat (map turn_captures xs)) w) \<longrightarrow>
      current_block s' mod 8 = (current_block s + length xs) mod 8)"
  using assms
proof (induction xs arbitrary: s w)
  case (Cons x xs)
  obtain t b where x: "x = (t, b)" by fastforce
  then have "turn_holds (big_endian env) t b" using Cons.prems by simp
  then obtain s1 where s1: "recv_block (big_endian env) (status_word t) (poll_result t) (block_bytes t) s =
      Some (Some (s1, Inr (map pk_data (bk_pkts b))))" "current_block s1 = (current_block s + 1) mod 8"
    using recv_block_enc [of "big_endian env" b "status_word t" "poll_result t" _ s]
    by (auto simp: turn_holds_def BLOCK_NR_def)
  have now: "block_loop env (stamped (clock t) (map pk_data (bk_pkts b))) w = capture_loop env (turn_captures x) w"
    by (simp add: block_loop_eq turn_captures_def x)
  show ?case
  proof (cases "capture_loop env (turn_captures x) w")
    case (Done w1)
    have "list_all (\<lambda>(t, b). turn_holds (big_endian env) t b) xs" using Cons.prems by simp
    from Cons.IH [OF this, of s1 w1] Done s1 now x show ?thesis
      by (auto simp: capture_loop_append mod_simps)
  next
    case (Panicked w1)
    then show ?thesis using s1 now x by (simp add: capture_loop_append)
  qed
qed simp

end
