(* ===== verification/Spec2Isabelle.thy ===== *)
theory Spec2Isabelle
  imports Utf8_Typing Ring_Capture
begin

text \<open>
  A verification development for NetZer, a packet analyser for Linux written in Rust.

  \<^bold>\<open>The program.\<close> NetZer opens a packet socket (a raw socket read with \<open>recv\<close>, or a TPACKET_V3 ring
  in shared memory), drops its root privileges, and then handles frame after frame: it may write it
  to a pcap file and dump it, parses it layer by layer, may reassemble TCP streams, and reports each
  packet it knows on the terminal, in a JSON file and to browsers over WebSockets. It has three
  crates: \<open>netzer-core\<close> (the parsers, the stream tracker, the hex dump), \<open>netzer-socket\<close> (the system
  calls) and \<open>netzer-cli\<close> (the handlers, the outputs, \<open>main\<close>, the web server with its own SHA-1,
  Base64 and WebSocket frames).

  \<^bold>\<open>Conventions.\<close> Bytes are \<open>u8\<close> (8-bit words) and buffers are lists of them; machine integers keep
  their width where they are read, cast or may wrap, and are \<open>nat\<close> where they are lengths and
  offsets of buffers. A \<open>String\<close> is its UTF-8 bytes (\<open>rstr\<close>). A panic (an index or a slice out of
  range, a slice off a character boundary) is \<open>None\<close>; a \<open>Result\<close> is a sum with the error on the
  left; so a parser returns \<open>(ParseError + 'a) option\<close>. A struct is a record, an enum a datatype, and
  a method \<open>T::m\<close> is the definition \<open>T_m\<close>. What lies outside the repository is a parameter: the
  kernel (\<open>os\<close>, a function from the calls so far to the result of the next), the machine that runs
  BPF programs (the locale \<open>cbpf_machine\<close>), disks and networks that may fail a write at any byte,
  the crate \<open>colored\<close> (\<open>paint\<close>), the clock and its formatting by the crate \<open>chrono\<close>, the byte order,
  the page served (an asset), and Unicode upper case in the status report.

  \<^bold>\<open>The theories\<close>, from the bottom up:
  \<^item> \<open>Prelude\<close>: word types, Rust's indexing and slicing with their panics, byte order conversions,
    number formatting, and the facts about them. \<open>Utf8\<close> and \<open>Strings\<close>: what the code uses of Rust's
    strings, down to UTF-8 decoding, white space and character boundaries.
  \<^item> \<open>Header_Interface\<close>: the locale \<open>header_parser\<close>, the contract of the fixed and variable header
    parsers, proved once and interpreted for six of them in \<open>Link_Layer\<close> (\<open>mac.rs\<close>, \<open>ethernet.rs\<close>,
    \<open>arp.rs\<close>, \<open>error.rs\<close>), \<open>Internet_Layer\<close> (\<open>ipv4.rs\<close>, \<open>ipv6.rs\<close>) and \<open>Transport_Layer\<close> (\<open>tcp.rs\<close>,
    \<open>udp.rs\<close>, \<open>icmp.rs\<close>). \<open>Packet_Spec\<close> has encoders of the formats and the round trips.
  \<^item> \<open>Dns\<close> (\<open>dns.rs\<close>) and \<open>Tls\<close> (\<open>tls.rs\<close>): the two name parsers, their loops as recursive functions
    with the remaining length as measure, against grammars of what they should accept.
  \<^item> \<open>Tcp_Stream\<close> (\<open>tcp_stream.rs\<close>): the tracker, and the locales \<open>stream_sink\<close> and \<open>bounded_sink\<close>, which
    derive the conservation and the bound of the bytes of each stream from one step.
  \<^item> \<open>Hexdump\<close> (\<open>hexdump.rs\<close>): the dump and a reader of dumps.
  \<^item> \<open>Export\<close>, \<open>Handlers\<close>, \<open>Pipeline\<close>, \<open>Cli_Main\<close> (\<open>main.rs\<close>): the pcap and JSON writers with readers of
    both formats; the five handlers, each of which the locale \<open>packet_handler\<close> reduces to at most one
    report; \<open>process_packet\<close>; and \<open>main\<close> with its set-up, exits, banner, status report and loops.
  \<^item> \<open>Bpf_Filter\<close>, \<open>System\<close>, \<open>Ring_Layout\<close>, \<open>Ring_Socket\<close> (\<open>socket.rs\<close>): the filter programs against the
    user-space parsers; opening, binding, filtering and dropping privileges as sequences of system
    calls, whose effects are read off the trace; the layout of the shared structures by the rule of
    \<open>repr(C)\<close>; and \<open>recv_block\<close> over the bytes of a block, where every access of the \<open>unsafe\<close> code is
    a slice that may fail, and a header must be aligned where it is dereferenced.
  \<^item> \<open>Web_Codec\<close>, \<open>Web_Server\<close> (\<open>web/mod.rs\<close>): SHA-1 against FIPS 180-4, Base64 and frames against
    decoders; the connection threads, the broadcaster (locale \<open>broadcaster\<close>) and the hub they share,
    as a step relation over all interleavings.
  \<^item> \<open>Program\<close>, \<open>Utf8_Typing\<close>, \<open>Ring_Capture\<close>: the components together. \<open>Program\<close> reduces a packet to its
    report, follows the reports into the outputs, and runs the capture loop beside the threads of
    the web server (\<open>live\<close>); \<open>Utf8_Typing\<close> shows that every string the program makes is UTF-8;
    \<open>Ring_Capture\<close> runs the ring mode down to the bytes of the shared memory.

  \<^bold>\<open>What is shown\<close>, by the claims that stand before the theorems. The program ends by itself exactly
  on certain frames, and one of 59 bytes does it (C1, C2). A packet's handling refines one report
  that depends on the frame alone (C3). In every interleaving a browser decodes exactly the reports
  since it joined, unless the network cut the first frame it was sent (C4, C9, C10). The stream
  tracker, the pcap file and the JSON file hold what the packets of the capture put there (C5 to
  C7), and all text is UTF-8 (C8). On blocks as the kernel fills them, whatever it writes in the
  fields the code does not use, the ring mode loses no packet and agrees with the raw mode; on any
  other bytes it stays inside the block unless they lead it to a header off its alignment, which is
  undefined. Privileges are dropped after the last privileged call; descriptors and mappings are
  accounted for, leaks included. The parsers never panic but for one, recover what encoders wrote,
  and accept the languages stated. The kernel filters agree with the parsers where they should, and
  pass what they should not where they do not. SHA-1 and Base64 are the standard ones.

  \<^bold>\<open>Termination.\<close> All loops of the code are total functions with the remaining input as measure, and
  need no fuel, but one: the wait for the kernel in \<open>recv_block\<close> is a partial function, and when it
  returns is a theorem. The loops of \<open>main\<close> run over the finite list of the packets or turns so far,
  of any length.

  \<^bold>\<open>Not modelled.\<close> The parsing of the command line (the crate \<open>clap\<close>; its result is the record
  \<open>args\<close>); messages on the error output and the line that announces the web server, which another
  thread prints; failures of the terminal; binding and accepting in the listener of the web server
  (the library's; a connection is a step of the hub with what it read); the write timeout, which the
  network parameter includes; the page with its scripts; the overflow of the packet counters of the
  tracker, which the repository never reads. Checks of the kernel that the code does not repeat are
  hypotheses, named as such.
\<close>

section \<open>Properties of the whole program\<close>

text \<open>
  C3: the layers, handlers and outputs of \<open>process_packet\<close> refine a reading of the frame alone.
  Whatever the options and the state, a packet is written to the pcap file, dumped and fed to the
  stream tracker; then its report, which depends on the frame only, is printed, logged and
  broadcast once, or there is none, or the program stops there.
\<close>

theorem process_packet_refines_report:
  "process_packet env c sz w =
    (case frame_report (frame c) of
       None \<Rightarrow> Panicked (prepared env c w)
     | Some None \<Rightarrow> Done (prepared env c w)
     | Some (Some r) \<Rightarrow> Done (emit env (time_text c) sz (to_hex_string (frame c)) r (prepared env c w)))"
  by (simp add: process_packet_report emit_option_def split: option.split)

text \<open>
  C4: what a browser sees of a capture. In every interleaving of the capture loop, the broadcaster
  and the connections, the main thread is where the capture loop alone would be. The messages due
  to a connected client are those of the reported packets, in capture order, from the first that
  was broadcast after it joined up to those that still wait in the channel. What it got after the
  handshake decodes to the system information and exactly these messages; or else the network cut
  the system frame on the way to this client, and it got the beginning of that frame, with which it
  stays in the list, and the same messages behind it.
\<close>

theorem clients_read_the_capture:
  assumes "live env net html iface (initial_world env upper a) cs r h" "serve a"
    and "list_all (\<lambda>m. length m < 2 ^ 64) (system_info iface # concat (map packet_messages (processed cs)))"
  shows "capture_loop env cs (initial_world env upper a) = r \<and>
    list_all (\<lambda>cl. let all = concat (map packet_messages (processed cs));
        sys = encode_ws_text_frame (system_info iface)
      in \<exists>accept due. take (joined_at cl) all @ due @ channel h = all \<and>
        ((\<exists>stream. received cl = response html (Accept accept) @ stream \<and>
            read_frames stream = Some (system_info iface # due)) \<or>
         (\<exists>c k. peer c = peer cl \<and> received c = response html (Accept accept) \<and>
            net c sys = Some k \<and> k < length sys \<and>
            received cl = response html (Accept accept) @ take k sys @ concat (map encode_ws_text_frame due))))
      (clients h)"
proof -
  let ?start = "initial_world env upper a"
  let ?all = "concat (map packet_messages (processed cs))"
  let ?sys = "encode_ws_text_frame (system_info iface)"
  have on: "web_messages ?start = Some []" using assms(2) by (simp add: initial_world_def)
  note inv = live_inv [OF assms(1) on]
  then have "Some (sent_messages h) = web_messages (the_world (capture_loop env cs ?start))" by metis
  then have "sent_messages h = ?all" by (simp add: capture_loop_messages on)
  then have all: "?all = broadcasts h @ channel h"
    using inv reachable_inv [of net html iface h] by (simp add: hub_inv_def)
  have "list_all (\<lambda>m. length m < 2 ^ 64) (system_info iface # drop n (broadcasts h))" for n
    using assms(3) unfolding all by (auto simp: list_all_iff dest: in_set_dropD)
  from read_frames_encode [OF this]
  have stream: "read_frames (?sys @ concat (map encode_ws_text_frame (drop n (broadcasts h)))) =
      Some (system_info iface # drop n (broadcasts h))" for n by simp
  have due: "take n ?all @ drop n (broadcasts h) @ channel h = ?all" if "n \<le> length (broadcasts h)" for n
    using that by (simp add: all)
  show ?thesis
    unfolding list_all_iff Let_def
  proof (intro conjI ballI)
    fix cl
    assume "cl \<in> set (clients h)"
    then obtain p where "prologue net html iface (peer cl) p" "got encode_ws_text_frame (broadcasts h) p cl"
      using inv reachable_inv [of net html iface h] by (auto simp: hub_inv_def)
    then show "\<exists>accept due. take (joined_at cl) ?all @ due @ channel h = ?all \<and>
        ((\<exists>stream. received cl = response html (Accept accept) @ stream \<and>
            read_frames stream = Some (system_info iface # due)) \<or>
         (\<exists>c k. peer c = peer cl \<and> received c = response html (Accept accept) \<and>
            net c ?sys = Some k \<and> k < length ?sys \<and>
            received cl = response html (Accept accept) @ take k ?sys @ concat (map encode_ws_text_frame due)))"
      using stream [of "joined_at cl"] due [of "joined_at cl"]
      unfolding prologue_def got_def Let_def by (metis append.assoc)
  qed (use inv in blast)
qed

theorem clients_read_the_capture_witness:
  "\<exists>r h. live plain_env (\<lambda>_ _. None) [] (lit ''lo'') (initial_world plain_env id plain_args) [ping] r h \<and>
    clients h \<noteq> [] \<and> list_all (\<lambda>cl. \<exists>accept stream. received cl = response [] (Accept accept) @ stream \<and>
      read_frames stream = Some (system_info (lit ''lo'') # packet_messages ping)) (clients h)"
proof -
  have serve: "serve plain_args" by (simp add: plain_args_def)
  then have "web_messages (initial_world plain_env id plain_args) = Some []" by (simp add: initial_world_def)
  then obtain r h where run: "live plain_env (\<lambda>_ _. None) [] (lit ''lo'') (initial_world plain_env id plain_args) [ping] r h"
    and h: "channel h = []" "clients h \<noteq> []" "list_all (\<lambda>c. joined_at c = 0) (clients h)"
    using ping_run by blast
  have msgs: "concat (map packet_messages (processed [ping])) = packet_messages ping" by simp
  have "length (system_info (lit ''lo'')) < 2 ^ 64" by (simp add: system_info_def lit_def)
  then have short: "list_all (\<lambda>m. length m < 2 ^ 64)
      (system_info (lit ''lo'') # concat (map packet_messages (processed [ping])))"
    unfolding msgs using ping_messages by simp
  have "list_all (\<lambda>cl. \<exists>accept stream. received cl = response [] (Accept accept) @ stream \<and>
      read_frames stream = Some (system_info (lit ''lo'') # packet_messages ping)) (clients h)"
    using clients_read_the_capture [OF run serve short, THEN conjunct2] h(1,3)
    unfolding msgs list_all_iff Let_def by (simp del: response.simps)
  then show ?thesis using run h by blast
qed

text \<open>
  C7: what the JSON export holds of a capture. With a disk that takes every write, the file is read
  back as one entry for each reported packet, in order, with its time, protocol, endpoints, text
  and size, exactly when no string of any entry holds a control character; one such packet, which
  any sender can make, and the file as a whole cannot be read.
\<close>

theorem capture_json_complete:
  assumes "json_disk env = (\<lambda>_ _. None)" "export_json a = Some path"
  shows "\<exists>j. json_writer (the_world (capture_loop env cs (initial_world env upper a))) = Some j \<and>
    read_log (json_file j) =
      (let entries = concat (map packet_entries (processed cs))
       in if list_all clean_entry entries then Some entries else None)"
  using read_log_entries [OF packet_entries_well_formed, of "processed cs"]
  by (simp add: capture_loop_json [OF assms(1)] initial_world_def assms(2) Let_def)

theorem capture_json_complete_witness:
  "\<exists>j. json_writer (the_world (capture_loop plain_env [ping]
      (initial_world plain_env id (plain_args\<lparr>export_json := Some (lit ''log'')\<rparr>)))) = Some j \<and>
    read_log (json_file j) = Some [([lit ''12:00:00.000'', lit ''ICMP'', lit ''10.0.0.1'', lit ''10.0.0.2'',
      lit ''Echo Request (8)''], 42)]"
proof -
  have "clean_entry ([lit ''12:00:00.000'', lit ''ICMP'', lit ''10.0.0.1'', lit ''10.0.0.2'',
      lit ''Echo Request (8)''], 42)"
    by (simp add: no_control_def lit_def)
  then show ?thesis
    using capture_json_complete [of plain_env "plain_args\<lparr>export_json := Some (lit ''log'')\<rparr>" "lit ''log''"
        "[ping]" id]
    by (simp add: plain_env_def ping_processed ping_entries del: processed.simps)
qed

text \<open>
  C8: everything the program says is UTF-8, as the type \<open>String\<close> promises and the WebSocket text
  frames need: the terminal output from the banner on, the JSON export and every web message, at
  every moment of any capture, whatever bytes its packets hold. All the slicing, splitting and
  cutting of text from the network stays on character boundaries.
\<close>

theorem capture_output_is_utf8:
  assumes "utf8_paint env" "utf8_args a" "\<And>s. utf8_valid s \<Longrightarrow> utf8_valid (upper s)"
    and "json_disk env = (\<lambda>_ _. None)" "list_all (\<lambda>c. utf8_valid (time_text c)) cs"
  shows "case the_world (capture_loop env cs (initial_world env upper a)) of
    w \<Rightarrow> utf8_valid (stdout w) \<and> pred_option (\<lambda>j. utf8_valid (json_file j)) (json_writer w) \<and>
      pred_option (list_all utf8_valid) (web_messages w)"
  using utf8_capture_loop [OF assms(1,4) utf8_initial_world [OF assms(1-3)] assms(5)]
  by (simp add: utf8_world_def)

theorem capture_output_is_utf8_witness:
  "pred_option (list_all utf8_valid)
    (web_messages (the_world (capture_loop plain_env [ping] (initial_world plain_env id plain_args))))"
proof -
  have "utf8_paint plain_env" by (simp add: utf8_paint_def plain_env_def)
  moreover have "utf8_args plain_args" by (simp add: utf8_args_def plain_args_def is_ascii_def)
  moreover have "list_all (\<lambda>c. utf8_valid (time_text c)) [ping]" by (simp add: ping_def is_ascii_def)
  ultimately show ?thesis
    using capture_output_is_utf8 [of plain_env plain_args id "[ping]"] by (simp add: plain_env_def)
qed

text \<open>
  C9: the broadcaster terminates and catches up: from any state of the hub it empties the channel
  in as many steps as messages wait, without a panic, and each client that is left has got every
  one of them whole; the clients dropped are those whose connection failed on one of them.
\<close>

theorem broadcaster_catches_up:
  "\<exists>h'. (hub_step net html iface ^^ length (channel h)) h h' \<and> channel h' = [] \<and>
    broadcasts h' = broadcasts h @ channel h \<and> sent_messages h' = sent_messages h \<and>
    clients h' = fold (\<lambda>msg cls. map (\<lambda>c. c\<lparr>received := received c @ encode_ws_text_frame msg\<rparr>)
      (filter (\<lambda>c. net c (encode_ws_text_frame msg) = None) cls)) (channel h) (clients h)"
  using broadcaster_drains [of h net html iface] unfolding after_message_def [abs_def] .

text \<open>
  C15: the two capture modes agree, down to the bytes of the shared ring. Where the kernel fills the
  blocks with packets and retires each at any look, in either byte order, with any values in the
  fields of the headers and descriptors and any gaps that keep the headers aligned, the ring mode
  leaves all the outputs of the program as the raw mode does on receiving the same packets one by
  one, ends when it ends, makes no undefined access, and after every block stands at the next one.
\<close>

theorem ring_mode_agrees_with_raw_mode:
  assumes "list_all (\<lambda>(t, b). turn_holds (big_endian env) t b) turns" "current_block s = 0"
  shows "\<exists>s' r. ring_capture env (map fst turns) s w = Some (Some (s', r)) \<and>
    r = raw_loop env (map Received (concat (map (\<lambda>(t, b). stamped (clock t) (map pk_data (bk_pkts b))) turns))) w \<and>
    (panicked r \<or> current_block s' mod 8 = length turns mod 8)"
proof -
  have received: "received_packets (map Received cs) = cs" for cs
    by (induction cs) simp_all
  have turns: "(\<lambda>(t, b). stamped (clock t) (map pk_data (bk_pkts b))) = turn_captures"
    by (rule ext) (simp add: turn_captures_def split: prod.split)
  show ?thesis
    using ring_capture_eq [OF assms(1), of s w] assms(2) by (auto simp: raw_loop_eq received turns)
qed

theorem ring_mode_agrees_with_raw_mode_witness:
  "\<exists>s' r. ring_capture plain_env
      [\<lparr>status_word = (\<lambda>i. if i < 2 then 0 else 1), poll_result = (\<lambda>_. 0),
        block_bytes = enc_block False (sample_block sample_pkts), clock = (\<lambda>_. (None, []))\<rparr>]
      \<lparr>ring_blocks = [], current_block = 0\<rparr> (idle_world None) = Some (Some (s', r)) \<and>
    r = raw_loop plain_env (map Received (stamped (\<lambda>_. (None, [])) [[1, 2, 3], [4]])) (idle_world None)"
proof -
  let ?b = "sample_block sample_pkts"
  let ?t = "\<lparr>status_word = (\<lambda>i. if i < 2 then 0 else 1), poll_result = (\<lambda>_. 0), block_bytes = enc_block False ?b,
    clock = (\<lambda>_. (None, []))\<rparr>"
  have "retires_at (status_word ?t) (poll_result ?t) ?b 2" by (simp add: retires_at_def sample_block_def)
  then have "turn_holds (big_endian plain_env) ?t ?b"
    using sample_block_wf by (auto simp: turn_holds_def plain_env_def)
  then have "list_all (\<lambda>(t, b). turn_holds (big_endian plain_env) t b) [(?t, ?b)]" by simp
  from ring_mode_agrees_with_raw_mode [OF this, of "\<lparr>ring_blocks = [], current_block = 0\<rparr>" "idle_world None"]
  have "\<exists>s' r. ring_capture plain_env [?t] \<lparr>ring_blocks = [], current_block = 0\<rparr> (idle_world None) = Some (Some (s', r)) \<and>
      r = raw_loop plain_env (map Received (stamped (\<lambda>_. (None, [])) (map pk_data (bk_pkts ?b)))) (idle_world None)"
    by auto
  moreover have "map pk_data (bk_pkts ?b) = [[1, 2, 3], [4]]" by (simp add: sample_block_def sample_pkts_def)
  ultimately show ?thesis by simp
qed

end
